(* ===== verification/Prelude.thy ===== *)
theory Prelude
  imports Main "HOL-Library.Word" "HOL-Library.Monad_Syntax"
begin

text \<open>
  Shared vocabulary of the HardMail development.

  \<^item> Machine integers: \<open>u8\<close>, \<open>u16\<close>, \<open>u32\<close>, \<open>u64\<close> are words of that width; \<open>size_t\<close>
    values that never exceed a few thousand are \<open>nat\<close>.
  \<^item> C memory objects are byte lists. A pointer into an object is the offset in it, with
    \<open>None\<close> for \<open>NULL\<close>. Every access goes through \<open>mem_read\<close>, \<open>mem_slice\<close>, \<open>ptr_slice\<close> or
    \<open>mem_write\<close>, which are \<open>None\<close> out of bounds. So a function of result type \<open>'a option\<close>
    returns \<open>None\<close> exactly when the C code would touch memory outside its object, and
    \<open>f x = Some y\<close> says both that the code is memory safe there and what it computes.
  \<^item> C strings: \<open>cstring\<close> is what a reader of the \<open>char *\<close> sees, up to the first NUL.
  \<^item> \<open>dec_digits\<close> is what \<open>printf\<close> prints for \<open>%u\<close>.
  \<^item> \<open>run\<close> and \<open>guarded_run\<close> iterate a step function over events; \<open>safe_system\<close> and
    \<open>guarded_system\<close> are the interfaces of the state machines of the development, with the
    invariant rules; \<open>forward_simulation\<close> is the interface of a component that refines an abstract
    state machine.
\<close>

unbundle bit_operations_syntax

type_synonym u8 = "8 word"
type_synonym u16 = "16 word"
type_synonym u32 = "32 word"
type_synonym u64 = "64 word"
type_synonym bytes = "u8 list"
type_synonym ptr = "nat option"

named_theorems mem_simps \<open>rewrite rules for reads and writes of memory objects\<close>
named_theorems sdk_rules \<open>what the contracts of the SDK give, as conditional rewrite rules\<close>

section \<open>Definitions\<close>

subsection \<open>Memory objects\<close>

definition slice :: "'a list \<Rightarrow> nat \<Rightarrow> nat \<Rightarrow> 'a list" where
  "slice xs off n = take n (drop off xs)"

definition mem_read :: "'a list \<Rightarrow> nat \<Rightarrow> 'a option" where
  "mem_read mem i = (if i < length mem then Some (mem ! i) else None)"

definition mem_slice :: "'a list \<Rightarrow> nat \<Rightarrow> nat \<Rightarrow> 'a list option" where
  "mem_slice mem off n = (if off + n \<le> length mem then Some (slice mem off n) else None)"

definition mem_write :: "'a list \<Rightarrow> nat \<Rightarrow> 'a list \<Rightarrow> 'a list option" where
  "mem_write mem off src =
     (if off + length src \<le> length mem
      then Some (take off mem @ src @ drop (off + length src) mem) else None)"

definition ptr_slice :: "'a list \<Rightarrow> ptr \<Rightarrow> nat \<Rightarrow> 'a list option" where
  "ptr_slice mem p n = (case p of None \<Rightarrow> None | Some off \<Rightarrow> mem_slice mem off n)"

definition deref :: "'a list \<Rightarrow> ptr \<Rightarrow> nat \<Rightarrow> 'a list" where
  "deref mem p n = (case p of None \<Rightarrow> [] | Some off \<Rightarrow> slice mem off n)"

definition zeros :: "nat \<Rightarrow> bytes" where
  "zeros n = replicate n 0"

subsection \<open>Numbers as bytes\<close>

definition be16_val :: "u8 \<Rightarrow> u8 \<Rightarrow> u16" where
  "be16_val a b = of_nat (unat a * 256 + unat b)"

definition be32_val :: "u8 \<Rightarrow> u8 \<Rightarrow> u8 \<Rightarrow> u8 \<Rightarrow> u32" where
  "be32_val a b c d = of_nat (((unat a * 256 + unat b) * 256 + unat c) * 256 + unat d)"

definition be16_bytes :: "u16 \<Rightarrow> bytes" where
  "be16_bytes w = [ucast (drop_bit 8 w), ucast (w AND 0xff)]"

definition be32_bytes :: "u32 \<Rightarrow> bytes" where
  "be32_bytes w = [ucast (drop_bit 24 w), ucast (drop_bit 16 w), ucast (drop_bit 8 w), ucast w]"

fun be32_vals :: "nat \<Rightarrow> bytes \<Rightarrow> u32 list" where
  "be32_vals (Suc n) (a # b # c # d # r) = be32_val a b c d # be32_vals n r"
| "be32_vals _ _ = []"

subsection \<open>Strings\<close>

definition ascii :: "string \<Rightarrow> bytes" where
  "ascii s = map (\<lambda>c. of_nat (of_char c)) s"

definition cstring :: "bytes \<Rightarrow> bytes" where
  "cstring xs = takeWhile (\<lambda>c. c \<noteq> 0) xs"

definition digit_char :: "nat \<Rightarrow> u8" where
  "digit_char d = of_nat (48 + d)"

function dec_digits :: "nat \<Rightarrow> bytes" where
  "dec_digits n =
     (if n < 10 then [digit_char n] else dec_digits (n div 10) @ [digit_char (n mod 10)])"
  by pat_completeness auto
termination
  by (relation "measure id") auto

declare dec_digits.simps [simp del]

definition is_digit :: "u8 \<Rightarrow> bool" where
  "is_digit c \<longleftrightarrow> 48 \<le> c \<and> c \<le> 57"

text \<open>\<open>snprintf\<close> into a buffer of \<open>n\<close> bytes: the text cut to \<open>n - 1\<close> bytes, then NUL;
  the rest of the buffer keeps what it had.\<close>

definition snprintf_into :: "bytes \<Rightarrow> nat \<Rightarrow> bytes \<Rightarrow> bytes option" where
  "snprintf_into dst n txt =
     (if n = 0 then Some dst else mem_write dst 0 (take (n - 1) txt @ [0]))"

definition dec_val :: "bytes \<Rightarrow> nat" where
  "dec_val cs = foldl (\<lambda>a c. a * 10 + (unat c - 48)) 0 cs"

subsection \<open>Runs of a step function\<close>

fun run :: "('s \<Rightarrow> 'e \<Rightarrow> 's option) \<Rightarrow> 's \<Rightarrow> 'e list \<Rightarrow> 's option" where
  "run step s [] = Some s"
| "run step s (e # es) = (case step s e of None \<Rightarrow> None | Some s' \<Rightarrow> run step s' es)"

fun guarded_run ::
  "('s \<Rightarrow> 'e \<Rightarrow> bool) \<Rightarrow> ('s \<Rightarrow> 'e \<Rightarrow> 's option) \<Rightarrow> 's \<Rightarrow> 'e list \<Rightarrow> 's option" where
  "guarded_run guard step s [] = Some s"
| "guarded_run guard step s (e # es) =
     (if guard s e
      then (case step s e of None \<Rightarrow> None | Some s' \<Rightarrow> guarded_run guard step s' es)
      else None)"

section \<open>Memory lemmas\<close>

lemma length_slice [simp, mem_simps]: "off + n \<le> length xs \<Longrightarrow> length (slice xs off n) = n"
  by (simp add: slice_def)

lemma slice_append_left [mem_simps]: "off + n \<le> length xs \<Longrightarrow> slice (xs @ ys) off n = slice xs off n"
  by (simp add: slice_def)

lemma slice_all [simp]: "slice xs 0 (length xs) = xs"
  by (simp add: slice_def)

lemma slice_slice [mem_simps]:
  "i + n \<le> m \<Longrightarrow> slice (slice xs off m) i n = slice xs (off + i) n"
  by (simp add: slice_def take_drop min_def add.commute)

lemma slice_add [mem_simps]:
  "slice xs off (m + n) = slice xs off m @ slice xs (off + m) n"
  by (simp add: slice_def take_add add.commute)

lemma slice_Suc: "off < length xs \<Longrightarrow> slice xs off (Suc n) = xs ! off # slice xs (Suc off) n"
  by (simp add: slice_def Cons_nth_drop_Suc [symmetric])

lemma nth_slice [simp]: "i < n \<Longrightarrow> off + i < length xs \<Longrightarrow> slice xs off n ! i = xs ! (off + i)"
  by (simp add: slice_def)

lemma mem_slice_Some [mem_simps]:
  "off + n \<le> length mem \<Longrightarrow> mem_slice mem off n = Some (slice mem off n)"
  by (simp add: mem_slice_def)

lemma mem_write_length: "mem_write mem off src = Some mem' \<Longrightarrow> length mem' = length mem"
  by (auto simp: mem_write_def split: if_splits)

lemma mem_write_read_back:
  "mem_write mem off src = Some mem' \<Longrightarrow> slice mem' off (length src) = src"
  by (auto simp: mem_write_def slice_def split: if_splits)

lemma mem_write_frame:
  assumes "mem_write mem off src = Some mem'" and "i < off \<or> off + length src \<le> i"
  shows "mem' ! i = mem ! i"
proof -
  from assms(1) have "mem' = take off mem @ src @ drop (off + length src) mem"
    and "off + length src \<le> length mem"
    by (auto simp: mem_write_def split: if_splits)
  then show ?thesis using assms(2) by (auto simp: nth_append)
qed

text \<open>The shape every writer of this code has: the bytes already written, then the rest of the
  destination as it was.\<close>

lemma mem_write_extend [mem_simps]:
  assumes "length done + length src \<le> length dst"
  shows "mem_write (done @ drop (length done) dst) (length done) src
         = Some ((done @ src) @ drop (length (done @ src)) dst)"
  using assms by (simp add: mem_write_def add.commute)

lemma mem_write_start [mem_simps]:
  "length src \<le> length dst \<Longrightarrow> mem_write dst 0 src = Some (src @ drop (length src) dst)"
  by (simp add: mem_write_def)

lemma ptr_slice_deref [mem_simps]:
  "p = Some off \<Longrightarrow> off + n \<le> length mem \<Longrightarrow> ptr_slice mem p n = Some (deref mem p n)"
  by (simp add: ptr_slice_def deref_def mem_slice_Some)

lemma deref_Some [simp]: "deref mem (Some off) n = slice mem off n"
  by (simp add: deref_def)

lemma length_zeros [simp]: "length (zeros n) = n"
  by (simp add: zeros_def)

lemma zeros_0 [simp]: "zeros 0 = []"
  by (simp add: zeros_def)

lemma drop_zeros [simp]: "drop n (zeros m) = zeros (m - n)"
  by (simp add: zeros_def)

section \<open>Number lemmas\<close>

lemma unat_u8_bound [simp]: "unat (x :: u8) < 256"
proof -
  have "unat x < 2 ^ LENGTH(8)" by (rule unsigned_less)
  then show ?thesis by simp
qed

lemma unat_u8_le [simp]: "unat (x :: u8) \<le> 255"
  using unat_u8_bound [of x] by linarith

lemma unat_of_nat_u8 [simp]: "n < 256 \<Longrightarrow> unat (of_nat n :: u8) = n"
  by (simp add: unsigned_of_nat take_bit_eq_mod)

lemma of_nat_val16: "n < 65536 \<Longrightarrow> unat (of_nat n :: u16) = n"
  by (simp add: unsigned_of_nat take_bit_eq_mod)

lemma of_nat_val32: "n < 4294967296 \<Longrightarrow> unat (of_nat n :: u32) = n"
  by (simp add: unsigned_of_nat take_bit_eq_mod)

lemma base256_bound: "x < k \<Longrightarrow> d < 256 \<Longrightarrow> x * 256 + d < k * 256" for x k d :: nat
proof -
  assume "x < k" "d < 256"
  then have "x * 256 + d < Suc x * 256" by simp
  also have "\<dots> \<le> k * 256" using \<open>x < k\<close> by (intro mult_le_mono1) simp
  finally show ?thesis .
qed

lemma base256_div: "d < 256 \<Longrightarrow> (x * 256 + d) div 256 = x" for x d :: nat
  by simp

lemma base256_mod: "d < 256 \<Longrightarrow> (x * 256 + d) mod 256 = d" for x d :: nat
  by simp

lemma unat_be16_val: "unat (be16_val a b) = unat a * 256 + unat b"
proof -
  have "unat a * 256 + unat b < 256 * 256" by (intro base256_bound) simp_all
  then have "unat a * 256 + unat b < 65536" by simp
  then show ?thesis unfolding be16_val_def by (rule of_nat_val16)
qed

lemma unat_be32_val:
  "unat (be32_val a b c d) = ((unat a * 256 + unat b) * 256 + unat c) * 256 + unat d"
proof -
  have "((unat a * 256 + unat b) * 256 + unat c) * 256 + unat d < 256 * 256 * 256 * 256"
    by (intro base256_bound) simp_all
  then have "((unat a * 256 + unat b) * 256 + unat c) * 256 + unat d < 4294967296" by simp
  then show ?thesis unfolding be32_val_def by (rule of_nat_val32)
qed

lemma unat_ucast_u8: "unat (ucast (w :: 'a::len word) :: u8) = unat w mod 256"
  by (simp add: unsigned_ucast_eq take_bit_eq_mod)

lemma unat_drop_bit: "unat (drop_bit k (w :: 'a::len word)) = unat w div 2 ^ k"
proof -
  have "take_bit LENGTH('a) (unat w) = unat w"
    by (rule take_bit_nat_eq_self) (rule unsigned_less)
  then show ?thesis by (simp add: unsigned_drop_bit_eq drop_bit_eq_div [where 'a = nat])
qed

lemma ucast_and_ff: "ucast (w AND 0xff :: u16) = (ucast w :: u8)"
proof -
  have "w AND 0xff = take_bit 8 w"
    using take_bit_eq_mask [of 8 w] by (simp add: mask_eq_exp_minus_1)
  then have "ucast (w AND 0xff) = (ucast (take_bit 8 w) :: u8)" by simp
  also have "\<dots> = ucast w"
    by (rule bit_word_eqI) (simp add: bit_ucast_iff bit_take_bit_iff)
  finally show ?thesis .
qed

lemma be16_round_trip [simp]: "be16_bytes (be16_val a b) = [a, b]"
  by (simp add: be16_bytes_def ucast_and_ff word_unat_eq_iff unat_ucast_u8 unat_drop_bit unat_be16_val)

lemma be32_round_trip [simp]: "be32_bytes (be32_val a b c d) = [a, b, c, d]"
proof -
  let ?n = "unat (be32_val a b c d)"
  have n: "?n = ((unat a * 256 + unat b) * 256 + unat c) * 256 + unat d"
    by (rule unat_be32_val)
  have "?n div 16777216 = ?n div 256 div 256 div 256" "?n div 65536 = ?n div 256 div 256"
    by (simp_all only: div_mult2_eq [symmetric]) simp_all
  then have "?n div 16777216 mod 256 = unat a" "?n div 65536 mod 256 = unat b"
    "?n div 256 mod 256 = unat c" "?n mod 256 = unat d"
    by (simp_all only: n base256_div base256_mod unat_u8_bound) simp_all
  then show ?thesis
    by (simp add: be32_bytes_def word_unat_eq_iff unat_ucast_u8 unat_drop_bit)
qed

lemma be16_bytes_val: "be16_bytes w = [a, b] \<Longrightarrow> be16_val a b = w"
proof -
  assume h: "be16_bytes w = [a, b]"
  then have "unat a = unat w div 256 mod 256" "unat b = unat w mod 256"
    by (auto simp: be16_bytes_def ucast_and_ff unat_ucast_u8 unat_drop_bit)
  moreover have "unat w < 2 ^ LENGTH(16)" by (rule unsigned_less)
  ultimately show ?thesis
    by (simp add: word_unat_eq_iff [where 'a = 16] unat_be16_val)
qed

lemma be32_bytes_val: "be32_bytes w = [a, b, c, d] \<Longrightarrow> be32_val a b c d = w"
proof -
  assume h: "be32_bytes w = [a, b, c, d]"
  then have "unat a = unat w div 16777216 mod 256" "unat b = unat w div 65536 mod 256"
    "unat c = unat w div 256 mod 256" "unat d = unat w mod 256"
    by (auto simp: be32_bytes_def unat_ucast_u8 unat_drop_bit)
  moreover have "unat w < 2 ^ LENGTH(32)" by (rule unsigned_less)
  ultimately have "unat a = unat w div 256 div 256 div 256" "unat b = unat w div 256 div 256 mod 256"
    "unat c = unat w div 256 mod 256" "unat d = unat w mod 256"
    by (simp_all add: div_mult2_eq [symmetric])
  then show ?thesis
    by (simp only: word_unat_eq_iff [where 'a = 32] unat_be32_val div_mult_mod_eq)
qed

section \<open>String lemmas\<close>

lemma cstring_nul_free: "0 \<notin> set xs \<Longrightarrow> cstring (xs @ 0 # ys) = xs"
  by (auto simp: cstring_def takeWhile_append)

lemma digit_char_val: "d < 10 \<Longrightarrow> unat (digit_char d) = 48 + d"
  using unat_of_nat_u8 [of "48 + d"] by (simp add: digit_char_def)

lemma is_digit_digit_char: "d < 10 \<Longrightarrow> is_digit (digit_char d)"
  by (simp add: is_digit_def word_le_nat_alt digit_char_val)

lemma dec_digits_are_digits: "c \<in> set (dec_digits n) \<Longrightarrow> is_digit c"
proof (induction n rule: dec_digits.induct)
  case (1 n)
  then show ?case
    by (cases "n < 10") (auto simp: dec_digits.simps [of n] is_digit_digit_char)
qed

lemma dec_val_dec_digits: "dec_val (dec_digits n) = n"
proof (induction n rule: dec_digits.induct)
  case (1 n)
  then show ?case
    by (cases "n < 10") (auto simp: dec_digits.simps [of n] dec_val_def digit_char_val)
qed

lemma dec_digits_inject: "dec_digits m = dec_digits n \<longleftrightarrow> m = n"
  by (metis dec_val_dec_digits)

lemma dec_digits_length: "n < 10 ^ Suc k \<Longrightarrow> length (dec_digits n) \<le> Suc k"
proof (induction k arbitrary: n)
  case 0
  then show ?case by (simp add: dec_digits.simps [of n])
next
  case (Suc k)
  show ?case
  proof (cases "n < 10")
    case True
    then show ?thesis by (simp add: dec_digits.simps [of n])
  next
    case False
    from Suc.prems have "n div 10 < 10 ^ Suc k" by (simp add: less_mult_imp_div_less)
    then have "length (dec_digits (n div 10)) \<le> Suc k" by (rule Suc.IH)
    with False show ?thesis by (simp add: dec_digits.simps [of n])
  qed
qed

lemma dec_digits_u32_length: "length (dec_digits (unat (w :: u32))) \<le> 10"
proof -
  have "unat w < 2 ^ LENGTH(32)" by (rule unsigned_less)
  then have "unat w < 10 ^ Suc 9" by simp
  then have "length (dec_digits (unat w)) \<le> Suc 9" by (rule dec_digits_length)
  then show ?thesis by simp
qed

text \<open>A run of digits at the end of a text can be split off in one way only, when a non-digit
  precedes it.\<close>

lemma digit_suffix_unique:
  assumes "xs @ s # ds = ys @ t # es" and "\<not> is_digit s" and "\<not> is_digit t"
    and "\<forall>c \<in> set ds. is_digit c" and "\<forall>c \<in> set es. is_digit c"
  shows "xs = ys \<and> ds = es"
proof -
  have split: "takeWhile is_digit (rev (zs @ u # cs)) = rev cs"
    if "\<not> is_digit u" and "\<forall>c \<in> set cs. is_digit c" for zs u cs
    using that by (simp add: takeWhile_append)
  have "rev ds = rev es"
    using split [OF assms(2,4), of xs] split [OF assms(3,5), of ys] assms(1) by simp
  then show ?thesis using assms(1) by simp
qed

section \<open>State machines\<close>

text \<open>
  A component that reacts to events under an environment \<open>k\<close> (the SDK) is a step function; \<open>None\<close>
  is a memory fault. The interface \<open>safe_system\<close> is what every handler owes the main loop: from
  a state that satisfies the invariant no event that is \<open>fine\<close> faults, and the invariant is kept.
  The interface \<open>guarded_system\<close> is for a property that holds only when the environment respects a
  protocol, given by \<open>guard\<close> on the state it sends the event in.
\<close>

locale safe_system =
  fixes ok :: "'k \<Rightarrow> bool" and step :: "'k \<Rightarrow> 's \<Rightarrow> 'e \<Rightarrow> 's option" and inv :: "'s \<Rightarrow> bool"
    and fine :: "'k \<Rightarrow> 'e \<Rightarrow> bool"
  assumes step_safe: "ok k \<Longrightarrow> inv s \<Longrightarrow> fine k e \<Longrightarrow> \<exists>s'. step k s e = Some s' \<and> inv s'"
begin

lemma run_safe: "ok k \<Longrightarrow> inv s \<Longrightarrow> list_all (fine k) es \<Longrightarrow> \<exists>s'. run (step k) s es = Some s' \<and> inv s'"
proof (induction es arbitrary: s)
  case Nil
  then show ?case by simp
next
  case (Cons e es)
  from Cons.prems(3) have fine: "fine k e" "list_all (fine k) es" by simp_all
  from step_safe [OF Cons.prems(1,2) fine(1)] obtain t where t: "step k s e = Some t" "inv t" by blast
  from Cons.IH [OF Cons.prems(1) t(2) fine(2)] t(1) show ?case by simp
qed

end

lemma guarded_run_True: "guarded_run (\<lambda>_ _. True) step s es = run step s es"
  by (induction es arbitrary: s) (auto split: option.split)

lemma guarded_run_append:
  "guarded_run guard step s (es @ fs) =
     (case guarded_run guard step s es of None \<Rightarrow> None | Some t \<Rightarrow> guarded_run guard step t fs)"
  by (induction es arbitrary: s) (auto split: option.split)

lemma run_append:
  "run step s (es @ fs) = (case run step s es of None \<Rightarrow> None | Some t \<Rightarrow> run step t fs)"
  using guarded_run_append [of "\<lambda>_ _. True" step s es fs] unfolding guarded_run_True .

lemma run_snoc: "run step s es = Some t \<Longrightarrow> run step s (es @ [e]) = step t e"
  by (simp add: run_append split: option.split)

text \<open>A run that faults does so at one event.\<close>

lemma run_fault:
  "run step s es = None \<Longrightarrow>
   \<exists>es1 e es2 t. es = es1 @ e # es2 \<and> run step s es1 = Some t \<and> step t e = None"
proof (induction es arbitrary: s)
  case (Cons e es)
  show ?case
  proof (cases "step s e")
    case None
    then show ?thesis by (intro exI [of _ "[]"] exI [of _ e] exI [of _ es] exI [of _ s]) simp
  next
    case (Some t)
    with Cons.prems Cons.IH [of t] obtain es1 e' es2 u
      where "es = es1 @ e' # es2" "run step t es1 = Some u" "step u e' = None" by auto
    with Some show ?thesis
      by (intro exI [of _ "e # es1"] exI [of _ e'] exI [of _ es2] exI [of _ u]) simp
  qed
qed simp

text \<open>When a run that starts outside \<open>P\<close> ends in it, there is an event that enters \<open>P\<close> for the last
  time, and the run stays in it from there.\<close>

definition stays :: "('s \<Rightarrow> 'e \<Rightarrow> 's option) \<Rightarrow> ('s \<Rightarrow> bool) \<Rightarrow> 's \<Rightarrow> 'e list \<Rightarrow> bool" where
  "stays step P s es \<longleftrightarrow> (\<forall>n \<le> length es. \<exists>t. run step s (take n es) = Some t \<and> P t)"

lemma stays_end: "stays step P s es \<Longrightarrow> run step s es = Some t \<Longrightarrow> P t"
  unfolding stays_def by (drule spec [of _ "length es"]) simp

lemma stays_snoc:
  assumes "stays step P s es" and "run step s (es @ [e]) = Some t" and "P t"
  shows "stays step P s (es @ [e])"
  unfolding stays_def
proof (intro allI impI)
  fix n assume n: "n \<le> length (es @ [e])"
  show "\<exists>t. run step s (take n (es @ [e])) = Some t \<and> P t"
  proof (cases "n \<le> length es")
    case True
    with assms(1) show ?thesis by (simp add: stays_def)
  next
    case False
    with n have "take n (es @ [e]) = es @ [e]" by simp
    with assms(2,3) show ?thesis by simp
  qed
qed

lemma run_last_entry:
  "run step s es = Some t \<Longrightarrow> P t \<Longrightarrow> \<not> P s \<Longrightarrow>
   \<exists>es1 e es2 u v. es = es1 @ e # es2 \<and> run step s es1 = Some u \<and> \<not> P u \<and> step u e = Some v \<and> P v \<and>
     run step v es2 = Some t \<and> stays step P v es2"
proof (induction es arbitrary: t rule: rev_induct)
  case (snoc e es)
  from snoc.prems(1) obtain u where u: "run step s es = Some u" "step u e = Some t"
    by (auto simp: run_append split: option.splits)
  show ?case
  proof (cases "P u")
    case False
    with u snoc.prems(2) show ?thesis
      by (intro exI [of _ es] exI [of _ e] exI [of _ "[]"] exI [of _ u] exI [of _ t]) (simp add: stays_def)
  next
    case True
    from snoc.IH [OF u(1) True snoc.prems(3)] obtain es1 e1 es2 w v where
      i: "es = es1 @ e1 # es2" "run step s es1 = Some w" "\<not> P w" "step w e1 = Some v" "P v"
        "run step v es2 = Some u" "stays step P v es2" by blast
    have r: "run step v (es2 @ [e]) = Some t" using run_snoc [OF i(6)] u(2) by simp
    with i stays_snoc [OF i(7) r snoc.prems(2)] show ?thesis
      by (intro exI [of _ es1] exI [of _ e1] exI [of _ "es2 @ [e]"] exI [of _ w] exI [of _ v]) simp
  qed
qed simp

locale guarded_system =
  fixes ok :: "'k \<Rightarrow> bool" and step :: "'k \<Rightarrow> 's \<Rightarrow> 'e \<Rightarrow> 's option"
    and guard :: "'s \<Rightarrow> 'e \<Rightarrow> bool" and inv :: "'k \<Rightarrow> 's \<Rightarrow> bool"
  assumes step_inv: "ok k \<Longrightarrow> inv k s \<Longrightarrow> guard s e \<Longrightarrow> step k s e = Some s' \<Longrightarrow> inv k s'"
begin

lemma run_inv: "ok k \<Longrightarrow> inv k s \<Longrightarrow> guarded_run guard (step k) s es = Some s' \<Longrightarrow> inv k s'"
proof (induction es arbitrary: s)
  case Nil
  then show ?case by simp
next
  case (Cons e es)
  from Cons.prems(3) obtain t where "guard s e" "step k s e = Some t"
    and r: "guarded_run guard (step k) t es = Some s'"
    by (auto split: if_splits option.splits)
  then have "inv k t" using step_inv Cons.prems(1,2) by blast
  then show ?case using Cons.IH Cons.prems(1) r by blast
qed

end

text \<open>
  A specification of what a component sends is a relation between abstract states, labelled with
  the outputs of the step; its traces are the outputs of its runs. The interface
  \<open>forward_simulation\<close> relates a step function that records its outputs to such a specification.
\<close>

inductive spec_trace :: "('p \<Rightarrow> 'o list \<Rightarrow> 'p \<Rightarrow> bool) \<Rightarrow> 'p \<Rightarrow> 'o list \<Rightarrow> 'p \<Rightarrow> bool"
  for spec :: "'p \<Rightarrow> 'o list \<Rightarrow> 'p \<Rightarrow> bool" where
  trace_refl: "spec_trace spec p [] p"
| trace_step: "spec p outs q \<Longrightarrow> spec_trace spec q outs' r \<Longrightarrow> spec_trace spec p (outs @ outs') r"

lemma spec_trace_append:
  "spec_trace spec p outs q \<Longrightarrow> spec_trace spec q outs' r \<Longrightarrow> spec_trace spec p (outs @ outs') r"
proof (induction rule: spec_trace.induct)
  case (trace_step p o1 q o2 r')
  then show ?case using spec_trace.trace_step [of spec p o1 q "o2 @ outs'"] by simp
qed simp

lemma spec_trace_single: "spec p outs q \<Longrightarrow> spec_trace spec p outs q"
  using trace_step [OF _ trace_refl, of spec p outs q] by simp

locale forward_simulation =
  fixes ok :: "'k \<Rightarrow> bool" and step :: "'k \<Rightarrow> 's \<Rightarrow> 'e \<Rightarrow> 's option" and guard :: "'s \<Rightarrow> 'e \<Rightarrow> bool"
    and outputs :: "'s \<Rightarrow> 'o list" and rel :: "'k \<Rightarrow> 's \<Rightarrow> 'p \<Rightarrow> bool"
    and spec :: "'k \<Rightarrow> 'p \<Rightarrow> 'o list \<Rightarrow> 'p \<Rightarrow> bool"
  assumes simulates: "ok k \<Longrightarrow> rel k s p \<Longrightarrow> guard s e \<Longrightarrow> step k s e = Some s' \<Longrightarrow>
    \<exists>outs q. outputs s' = outputs s @ outs \<and> spec k p outs q \<and> rel k s' q"
begin

lemma run_simulates:
  "ok k \<Longrightarrow> rel k s p \<Longrightarrow> guarded_run guard (step k) s es = Some s' \<Longrightarrow>
   \<exists>outs q. outputs s' = outputs s @ outs \<and> spec_trace (spec k) p outs q \<and> rel k s' q"
proof (induction es arbitrary: s p)
  case Nil
  then show ?case using trace_refl by fastforce
next
  case (Cons e es)
  from Cons.prems(3) obtain t where g: "guard s e" "step k s e = Some t"
    and r: "guarded_run guard (step k) t es = Some s'"
    by (auto split: if_splits option.splits)
  from simulates [OF Cons.prems(1,2) g] obtain o1 q where
    1: "outputs t = outputs s @ o1" "spec k p o1 q" "rel k t q" by blast
  from Cons.IH [OF Cons.prems(1) 1(3) r] obtain o2 u where
    "outputs s' = outputs t @ o2" "spec_trace (spec k) q o2 u" "rel k s' u" by blast
  then show ?case using 1 trace_step [of "spec k" p o1 q o2 u] by (intro exI [of _ "o1 @ o2"] exI [of _ u]) simp
qed

end

end
