(* ===== verification/Ledger_Sdk.thy ===== *)
theory Ledger_Sdk
  imports Prelude
begin

text \<open>
  The Ledger SDK as the application sees it. The SDK is not part of the repository, so its
  functions are parameters: a record of functions per SDK library (\<open>buffer_lib\<close>, \<open>crypto_lib\<close>,
  \<open>format_lib\<close>, \<open>io_lib\<close>, \<open>parser_lib\<close>, \<open>tlv_lib\<close>), which every definition that calls them takes as an argument. An out
  parameter is a component of the result, so the C call
  \<^verbatim>\<open>buffer_read_u8(buf, &len)\<close> is \<open>buffer_read_u8 B buf = (ok, len, buf')\<close>.

  What the application relies on is stated per library as a named hypothesis (\<open>buffer_ok\<close>,
  \<open>crypto_ok\<close>, \<open>format_ok\<close>, \<open>parser_ok\<close>, \<open>tlv_ok\<close>): the documented result of each call on the arguments the
  application passes. Nothing is assumed about a value the application does not use, such as the
  position of a buffer after a failed read.

  The last section has instances of the libraries on which the hypotheses hold, for evaluating
  the application on concrete inputs.
\<close>

section \<open>The interface\<close>

subsection \<open>Buffers (buffer.h)\<close>

record buffer_t =
  buf_ptr :: bytes
  buf_size :: nat
  buf_offset :: nat

datatype endianness = BE | LE

definition MAX_BIP32_PATH :: nat where "MAX_BIP32_PATH = 10"

record buffer_lib =
  buffer_read_u8 :: "buffer_t \<Rightarrow> bool \<times> u8 \<times> buffer_t"
  buffer_read_u16 :: "buffer_t \<Rightarrow> endianness \<Rightarrow> bool \<times> u16 \<times> buffer_t"
  buffer_read_u32 :: "buffer_t \<Rightarrow> endianness \<Rightarrow> bool \<times> u32 \<times> buffer_t"
  buffer_seek_cur :: "buffer_t \<Rightarrow> nat \<Rightarrow> bool \<times> buffer_t"
  buffer_read_bip32_path :: "buffer_t \<Rightarrow> nat \<Rightarrow> bool \<times> u32 list \<times> buffer_t"
  buffer_move :: "buffer_t \<Rightarrow> nat \<Rightarrow> bool \<times> bytes \<times> buffer_t"

text \<open>A buffer is well formed when its cursor is inside it and it lies inside its object.\<close>

definition buf_wf :: "buffer_t \<Rightarrow> bool" where
  "buf_wf b \<longleftrightarrow> buf_offset b \<le> buf_size b \<and> buf_size b \<le> length (buf_ptr b)"

definition buf_left :: "buffer_t \<Rightarrow> nat" where
  "buf_left b = buf_size b - buf_offset b"

definition advance :: "nat \<Rightarrow> buffer_t \<Rightarrow> buffer_t" where
  "advance n b = b\<lparr>buf_offset := buf_offset b + n\<rparr>"

text \<open>The bytes not read yet.\<close>

definition buf_rest :: "buffer_t \<Rightarrow> bytes" where
  "buf_rest b = slice (buf_ptr b) (buf_offset b) (buf_left b)"

definition buffer_ok :: "buffer_lib \<Rightarrow> bool" where
  "buffer_ok B \<longleftrightarrow>
     (\<forall>b. buf_wf b \<longrightarrow>
        (if 1 \<le> buf_left b
         then buffer_read_u8 B b = (True, buf_rest b ! 0, advance 1 b)
         else \<not> fst (buffer_read_u8 B b))) \<and>
     (\<forall>b. buf_wf b \<longrightarrow>
        (if 2 \<le> buf_left b
         then buffer_read_u16 B b BE = (True, be16_val (buf_rest b ! 0) (buf_rest b ! 1), advance 2 b)
         else \<not> fst (buffer_read_u16 B b BE))) \<and>
     (\<forall>b. buf_wf b \<longrightarrow>
        (if 4 \<le> buf_left b
         then buffer_read_u32 B b BE =
                (True, be32_val (buf_rest b ! 0) (buf_rest b ! 1) (buf_rest b ! 2) (buf_rest b ! 3),
                 advance 4 b)
         else \<not> fst (buffer_read_u32 B b BE))) \<and>
     (\<forall>b n. buf_wf b \<longrightarrow>
        (if n \<le> buf_left b then buffer_seek_cur B b n = (True, advance n b)
         else \<not> fst (buffer_seek_cur B b n))) \<and>
     (\<forall>b n. buf_wf b \<longrightarrow>
        (if 1 \<le> n \<and> n \<le> MAX_BIP32_PATH \<and> 4 * n \<le> buf_left b
         then buffer_read_bip32_path B b n = (True, be32_vals n (buf_rest b), advance (4 * n) b)
         else \<not> fst (buffer_read_bip32_path B b n)
              \<and> length (fst (snd (buffer_read_bip32_path B b n))) \<le> MAX_BIP32_PATH)) \<and>
     (\<forall>b n. buf_wf b \<longrightarrow> n = buf_left b \<longrightarrow> buffer_move B b n = (True, buf_rest b, advance n b))"

subsection \<open>Cryptography (cx.h, crypto\_helpers.h)\<close>

datatype curve = CX_CURVE_Ed25519 | CX_CURVE_256K1

text \<open>Identifiers of hashes; the application uses \<open>CX_SHA512\<close>, which Ed25519 is defined with.\<close>

datatype cx_md_t = CX_SHA256 | CX_SHA512

abbreviation CX_OK :: u32 where "CX_OK \<equiv> 0"

record crypto_lib =
  cx_hash_sha256 :: "bytes \<Rightarrow> nat \<Rightarrow> nat \<times> bytes"
  cx_keccak_256_hash :: "bytes \<Rightarrow> u32 \<times> bytes"
  bip32_derive_get_pubkey_256 :: "curve \<Rightarrow> u32 list \<Rightarrow> nat \<Rightarrow> cx_md_t \<Rightarrow> u32 \<times> bytes \<times> bytes"
  cx_edwards_compress_point_no_throw :: "curve \<Rightarrow> bytes \<Rightarrow> u32 \<times> bytes"
  bip32_derive_eddsa_sign_hash_256 ::
    "curve \<Rightarrow> u32 list \<Rightarrow> nat \<Rightarrow> cx_md_t \<Rightarrow> bytes \<Rightarrow> nat \<Rightarrow> nat \<Rightarrow> u32 \<times> bytes \<times> nat"

text \<open>
  Sizes only: a hash fills its output array, a key pair fills the two output arrays, compression
  works in place, and a signature fits the capacity the caller gives. Nothing is assumed about
  the values, so no theorem rests on a property of the cryptography.
\<close>

definition crypto_ok :: "crypto_lib \<Rightarrow> bool" where
  "crypto_ok C \<longleftrightarrow>
     (\<forall>m. length (snd (cx_hash_sha256 C m 32)) = 32) \<and>
     (\<forall>m. length (snd (cx_keccak_256_hash C m)) = 32) \<and>
     (\<forall>c p n md. length (fst (snd (bip32_derive_get_pubkey_256 C c p n md))) = 65
            \<and> length (snd (snd (bip32_derive_get_pubkey_256 C c p n md))) = 32) \<and>
     (\<forall>c q. length (snd (cx_edwards_compress_point_no_throw C c q)) = length q) \<and>
     (\<forall>c p n md h hlen cap.
        length (fst (snd (bip32_derive_eddsa_sign_hash_256 C c p n md h hlen cap))) \<le> cap \<and>
        (fst (bip32_derive_eddsa_sign_hash_256 C c p n md h hlen cap) = CX_OK \<longrightarrow>
           snd (snd (bip32_derive_eddsa_sign_hash_256 C c p n md h hlen cap))
           = length (fst (snd (bip32_derive_eddsa_sign_hash_256 C c p n md h hlen cap)))))"

subsection \<open>Formatting (format.h)\<close>

definition hex_digit :: "nat \<Rightarrow> u8" where
  "hex_digit d = of_nat (if d < 10 then 48 + d else 55 + d)"

definition hex_byte :: "u8 \<Rightarrow> bytes" where
  "hex_byte b = [hex_digit (unat b div 16), hex_digit (unat b mod 16)]"

definition hex_string :: "bytes \<Rightarrow> bytes" where
  "hex_string xs = concat (map hex_byte xs)"

record format_lib =
  format_hex :: "bytes \<Rightarrow> nat \<Rightarrow> int \<times> bytes"

definition format_ok :: "format_lib \<Rightarrow> bool" where
  "format_ok F \<longleftrightarrow>
     (\<forall>xs n. if 2 * length xs + 1 \<le> n
             then format_hex F xs n = (int (2 * length xs + 1), hex_string xs @ [0])
             else fst (format_hex F xs n) = -1 \<and> length (snd (format_hex F xs n)) \<le> n)"

subsection \<open>APDU transport (io.h, parser.h)\<close>

record apdu_response =
  resp_data :: bytes
  resp_sw :: u16

text \<open>\<open>io_status\<close> is the return value of the send that completes the given list of responses.\<close>

record io_lib =
  io_status :: "apdu_response list \<Rightarrow> int"

record command_t =
  cmd_cla :: u8
  cmd_ins :: u8
  cmd_p1 :: u8
  cmd_p2 :: u8
  cmd_lc :: u8
  cmd_data :: "bytes option"

record parser_lib =
  apdu_parser :: "bytes \<Rightarrow> command_t option"

text \<open>A parsed command carries at least \<open>lc\<close> bytes of data behind a non-NULL data pointer.\<close>

definition cmd_wf :: "command_t \<Rightarrow> bool" where
  "cmd_wf cmd \<longleftrightarrow> (\<forall>d. cmd_data cmd = Some d \<longrightarrow> unat (cmd_lc cmd) \<le> length d)"

definition parser_ok :: "parser_lib \<Rightarrow> bool" where
  "parser_ok P \<longleftrightarrow> (\<forall>raw cmd. apdu_parser P raw = Some cmd \<longrightarrow> cmd_wf cmd)"

subsection \<open>TLV (tlv\_library.h, tlv\_use\_case\_dynamic\_descriptor.h)\<close>

record tlv_data_t =
  tlv_tag :: u8
  tlv_value :: bytes

text \<open>A line of the tag table given to the parser generator \<^verbatim>\<open>DEFINE_TLV_PARSER\<close>: tag, handler, and
  whether the tag may occur once only. A handler gets the item and the output structure.\<close>

record 'o tlv_entry =
  tle_tag :: u8
  tle_handler :: "tlv_data_t \<Rightarrow> 'o \<Rightarrow> bool \<times> 'o"
  tle_unique :: bool

datatype tlv_dynamic_descriptor_status_t =
  TLV_DYNAMIC_DESCRIPTOR_SUCCESS | TLV_DYNAMIC_DESCRIPTOR_ERROR nat

record tlv_dynamic_descriptor_out_t =
  tdo_version :: u8
  tdo_coin_type :: u32
  tdo_ticker :: bytes
  tdo_magnitude :: u8
  tdo_TUID :: buffer_t

text \<open>\<open>tlv_parse\<close> is the generated parser: verdict, output structure, tags received.\<close>

record 'o tlv_lib =
  tlv_use_case_dynamic_descriptor ::
    "buffer_t \<Rightarrow> tlv_dynamic_descriptor_status_t \<times> tlv_dynamic_descriptor_out_t"
  tlv_parse :: "'o tlv_entry list \<Rightarrow> buffer_t \<Rightarrow> 'o \<Rightarrow> bool \<times> 'o \<times> u8 list"
  get_buffer_from_tlv_data :: "tlv_data_t \<Rightarrow> nat \<Rightarrow> nat \<Rightarrow> bool \<times> buffer_t"

fun tlv_handle_all :: "'o tlv_entry list \<Rightarrow> tlv_data_t list \<Rightarrow> 'o \<Rightarrow> 'o option" where
  "tlv_handle_all es [] out = Some out"
| "tlv_handle_all es (d # ds) out =
     (case List.find (\<lambda>e. tle_tag e = tlv_tag d) es of
        None \<Rightarrow> None
      | Some e \<Rightarrow> (case tle_handler e d out of
                     (ok, out') \<Rightarrow> if ok then tlv_handle_all es ds out' else None))"

definition tlv_unique_ok :: "'o tlv_entry list \<Rightarrow> tlv_data_t list \<Rightarrow> bool" where
  "tlv_unique_ok es ds \<longleftrightarrow>
     (\<forall>e \<in> set es. tle_unique e \<longrightarrow> length (filter (\<lambda>d. tlv_tag d = tle_tag e) ds) \<le> 1)"

text \<open>
  A verified descriptor has a ticker array of \<open>MAX_TICKER_SIZE + 1\<close> characters; a buffer taken from
  an item has a size in the range asked for; a parser that accepts has called, in order, the
  handler of each item, all with success, and reports the tags of those items.
\<close>

definition tlv_ok :: "'o tlv_lib \<Rightarrow> bool" where
  "tlv_ok T \<longleftrightarrow>
     (\<forall>b out. tlv_use_case_dynamic_descriptor T b = (TLV_DYNAMIC_DESCRIPTOR_SUCCESS, out) \<longrightarrow>
        length (tdo_ticker out) = 51 \<and> buf_wf (tdo_TUID out)) \<and>
     (\<forall>d lo hi b. get_buffer_from_tlv_data T d lo hi = (True, b) \<longrightarrow>
        b = \<lparr>buf_ptr = tlv_value d, buf_size = length (tlv_value d), buf_offset = 0\<rparr> \<and>
        lo \<le> length (tlv_value d) \<and> length (tlv_value d) \<le> hi) \<and>
     (\<forall>es b out out' received. tlv_parse T es b out = (True, out', received) \<longrightarrow>
        (\<exists>ds. tlv_handle_all es ds out = Some out' \<and> received = map tlv_tag ds \<and> tlv_unique_ok es ds))"

section \<open>Instances for evaluation\<close>

definition ref_buffer_lib :: buffer_lib where
  "ref_buffer_lib =
     \<lparr>buffer_read_u8 = (\<lambda>b. if 1 \<le> buf_left b then (True, buf_rest b ! 0, advance 1 b)
                            else (False, 0, b)),
      buffer_read_u16 = (\<lambda>b e. if 2 \<le> buf_left b
         then (True, (case e of BE \<Rightarrow> be16_val (buf_rest b ! 0) (buf_rest b ! 1)
                              | LE \<Rightarrow> be16_val (buf_rest b ! 1) (buf_rest b ! 0)), advance 2 b)
         else (False, 0, b)),
      buffer_read_u32 = (\<lambda>b e. if 4 \<le> buf_left b
         then (True, (case e of
                 BE \<Rightarrow> be32_val (buf_rest b ! 0) (buf_rest b ! 1) (buf_rest b ! 2) (buf_rest b ! 3)
               | LE \<Rightarrow> be32_val (buf_rest b ! 3) (buf_rest b ! 2) (buf_rest b ! 1) (buf_rest b ! 0)),
               advance 4 b)
         else (False, 0, b)),
      buffer_seek_cur = (\<lambda>b n. if n \<le> buf_left b then (True, advance n b) else (False, b)),
      buffer_read_bip32_path = (\<lambda>b n.
         if 1 \<le> n \<and> n \<le> MAX_BIP32_PATH \<and> 4 * n \<le> buf_left b
         then (True, be32_vals n (buf_rest b), advance (4 * n) b) else (False, [], b)),
      buffer_move = (\<lambda>b n. if buf_left b \<le> n then (True, buf_rest b, advance n b)
                           else (False, [], b))\<rparr>"

text \<open>A stand-in for the cryptography: a checksum in place of the hash, the hash repeated as the
  signature, the path length as the key. It only has the sizes of the real functions.\<close>

definition ref_digest :: "bytes \<Rightarrow> bytes" where
  "ref_digest m = take 32 (m @ zeros 32)"

definition ref_crypto_lib :: crypto_lib where
  "ref_crypto_lib =
     \<lparr>cx_hash_sha256 = (\<lambda>m n. (n, take n (ref_digest m @ zeros n))),
      cx_keccak_256_hash = (\<lambda>m. (CX_OK, ref_digest m)),
      bip32_derive_get_pubkey_256 = (\<lambda>c p n md. (CX_OK, 4 # replicate 64 (of_nat n), replicate 32 7)),
      cx_edwards_compress_point_no_throw = (\<lambda>c q. (CX_OK, q)),
      bip32_derive_eddsa_sign_hash_256 =
        (\<lambda>c p n md h hlen cap. if 64 \<le> cap then (CX_OK, take 64 (h @ h @ zeros 64), 64) else (1, [], 0))\<rparr>"

definition ref_format_lib :: format_lib where
  "ref_format_lib =
     \<lparr>format_hex = (\<lambda>xs n. if 2 * length xs + 1 \<le> n
                           then (int (2 * length xs + 1), hex_string xs @ [0]) else (-1, []))\<rparr>"

definition ref_io_lib :: io_lib where
  "ref_io_lib = \<lparr>io_status = (\<lambda>_. 0)\<rparr>"

definition ref_parser_lib :: parser_lib where
  "ref_parser_lib =
     \<lparr>apdu_parser = (\<lambda>raw.
        if length raw < 4 then None
        else if length raw = 4
        then Some \<lparr>cmd_cla = raw ! 0, cmd_ins = raw ! 1, cmd_p1 = raw ! 2, cmd_p2 = raw ! 3,
                   cmd_lc = 0, cmd_data = None\<rparr>
        else if length raw - 5 \<noteq> unat (raw ! 4) then None
        else Some \<lparr>cmd_cla = raw ! 0, cmd_ins = raw ! 1, cmd_p1 = raw ! 2, cmd_p2 = raw ! 3,
                   cmd_lc = raw ! 4,
                   cmd_data = (if raw ! 4 = 0 then None else Some (drop 5 raw))\<rparr>)\<rparr>"

text \<open>A stand-in for the descriptor check: the magnitude in the first byte, then the bytes of the
  TUID; no signature. The item parser reads one-byte tags and lengths.\<close>

fun ref_tlv_items :: "nat \<Rightarrow> bytes \<Rightarrow> tlv_data_t list option" where
  "ref_tlv_items n [] = Some []"
| "ref_tlv_items (Suc n) (t # l # r) =
     (if length r < unat l then None
      else map_option ((#) \<lparr>tlv_tag = t, tlv_value = take (unat l) r\<rparr>)
             (ref_tlv_items n (drop (unat l) r)))"
| "ref_tlv_items _ _ = None"

definition ref_tlv_lib :: "'o tlv_lib" where
  "ref_tlv_lib =
     \<lparr>tlv_use_case_dynamic_descriptor = (\<lambda>b.
        let tuid = drop 1 (buf_rest b);
            out = \<lparr>tdo_version = 1, tdo_coin_type = 0x8001,
                   tdo_ticker = ascii ''TKN'' @ zeros 48, tdo_magnitude = buf_rest b ! 0,
                   tdo_TUID = \<lparr>buf_ptr = tuid, buf_size = length tuid, buf_offset = 0\<rparr>\<rparr>
        in (if buf_rest b = [] then TLV_DYNAMIC_DESCRIPTOR_ERROR 1 else TLV_DYNAMIC_DESCRIPTOR_SUCCESS, out)),
      tlv_parse = (\<lambda>es b out.
        case ref_tlv_items (length (buf_rest b)) (buf_rest b) of
          None \<Rightarrow> (False, out, [])
        | Some ds \<Rightarrow>
            (case tlv_handle_all es ds out of
               None \<Rightarrow> (False, out, [])
             | Some out' \<Rightarrow> (tlv_unique_ok es ds, out', map tlv_tag ds))),
      get_buffer_from_tlv_data = (\<lambda>d lo hi.
        (lo \<le> length (tlv_value d) \<and> length (tlv_value d) \<le> hi,
         \<lparr>buf_ptr = tlv_value d, buf_size = length (tlv_value d), buf_offset = 0\<rparr>))\<rparr>"

section \<open>What the contracts give\<close>

lemma buf_wf_advance [simp]: "buf_wf b \<Longrightarrow> n \<le> buf_left b \<Longrightarrow> buf_wf (advance n b)"
  by (auto simp: buf_wf_def buf_left_def advance_def)

lemma advance_simps [simp]:
  "buf_ptr (advance n b) = buf_ptr b"
  "buf_size (advance n b) = buf_size b"
  "buf_offset (advance n b) = buf_offset b + n"
  "buf_left (advance n b) = buf_left b - n"
  by (simp_all add: advance_def buf_left_def)

lemma advance_advance [simp]: "advance m (advance n b) = advance (n + m) b"
  by (simp add: advance_def add.assoc)

lemma length_buf_rest [simp]: "buf_wf b \<Longrightarrow> length (buf_rest b) = buf_left b"
  by (simp add: buf_rest_def buf_wf_def buf_left_def)

lemma buf_rest_advance:
  "buf_wf b \<Longrightarrow> n \<le> buf_left b \<Longrightarrow> buf_rest (advance n b) = drop n (buf_rest b)"
  by (simp add: buf_rest_def slice_def buf_left_def drop_take add.commute)

lemma buf_slice_rest:
  "buf_wf b \<Longrightarrow> n \<le> buf_left b \<Longrightarrow> slice (buf_ptr b) (buf_offset b) n = take n (buf_rest b)"
  by (simp add: buf_rest_def slice_def min_def)

lemma buffer_read_u8_ok [sdk_rules]:
  "buffer_ok B \<Longrightarrow> buf_wf b \<Longrightarrow> 1 \<le> buf_left b \<Longrightarrow>
   buffer_read_u8 B b = (True, buf_rest b ! 0, advance 1 b)"
  by (simp add: buffer_ok_def)

lemma buffer_read_u8_fail:
  "buffer_ok B \<Longrightarrow> buf_wf b \<Longrightarrow> \<not> 1 \<le> buf_left b \<Longrightarrow> \<not> fst (buffer_read_u8 B b)"
  by (simp add: buffer_ok_def)

lemma buffer_read_u16_ok [sdk_rules]:
  "buffer_ok B \<Longrightarrow> buf_wf b \<Longrightarrow> 2 \<le> buf_left b \<Longrightarrow>
   buffer_read_u16 B b BE = (True, be16_val (buf_rest b ! 0) (buf_rest b ! 1), advance 2 b)"
  by (simp add: buffer_ok_def)

lemma buffer_read_u16_fail:
  "buffer_ok B \<Longrightarrow> buf_wf b \<Longrightarrow> \<not> 2 \<le> buf_left b \<Longrightarrow> \<not> fst (buffer_read_u16 B b BE)"
  by (simp add: buffer_ok_def)

lemma buffer_read_u32_ok [sdk_rules]:
  "buffer_ok B \<Longrightarrow> buf_wf b \<Longrightarrow> 4 \<le> buf_left b \<Longrightarrow>
   buffer_read_u32 B b BE =
     (True, be32_val (buf_rest b ! 0) (buf_rest b ! 1) (buf_rest b ! 2) (buf_rest b ! 3), advance 4 b)"
  by (simp add: buffer_ok_def)

lemma buffer_read_u32_fail:
  "buffer_ok B \<Longrightarrow> buf_wf b \<Longrightarrow> \<not> 4 \<le> buf_left b \<Longrightarrow> \<not> fst (buffer_read_u32 B b BE)"
  by (simp add: buffer_ok_def)

lemma buffer_seek_cur_ok [sdk_rules]:
  "buffer_ok B \<Longrightarrow> buf_wf b \<Longrightarrow> n \<le> buf_left b \<Longrightarrow> buffer_seek_cur B b n = (True, advance n b)"
  by (simp add: buffer_ok_def)

lemma buffer_seek_cur_fail:
  "buffer_ok B \<Longrightarrow> buf_wf b \<Longrightarrow> \<not> n \<le> buf_left b \<Longrightarrow> \<not> fst (buffer_seek_cur B b n)"
  by (simp add: buffer_ok_def)

lemma buffer_path_ok [sdk_rules]:
  "buffer_ok B \<Longrightarrow> buf_wf b \<Longrightarrow> 1 \<le> n \<Longrightarrow> n \<le> MAX_BIP32_PATH \<Longrightarrow> 4 * n \<le> buf_left b \<Longrightarrow>
   buffer_read_bip32_path B b n = (True, be32_vals n (buf_rest b), advance (4 * n) b)"
  by (simp add: buffer_ok_def)

lemma buffer_path_fail:
  "buffer_ok B \<Longrightarrow> buf_wf b \<Longrightarrow> \<not> (1 \<le> n \<and> n \<le> MAX_BIP32_PATH \<and> 4 * n \<le> buf_left b) \<Longrightarrow>
   \<not> fst (buffer_read_bip32_path B b n)
   \<and> length (fst (snd (buffer_read_bip32_path B b n))) \<le> MAX_BIP32_PATH"
  unfolding buffer_ok_def by metis

lemma buffer_move_ok [sdk_rules]:
  "buffer_ok B \<Longrightarrow> buf_wf b \<Longrightarrow> n = buf_left b \<Longrightarrow> buffer_move B b n = (True, buf_rest b, advance n b)"
  by (simp add: buffer_ok_def)

lemma length_be32_vals: "4 * n \<le> length xs \<Longrightarrow> length (be32_vals n xs) = n"
  by (induction n xs rule: be32_vals.induct) auto

lemma format_hex_ok [sdk_rules]:
  "format_ok F \<Longrightarrow> 2 * length xs + 1 \<le> n \<Longrightarrow>
   format_hex F xs n = (int (2 * length xs + 1), hex_string xs @ [0])"
  by (simp add: format_ok_def)

lemma length_hex_string [simp]: "length (hex_string xs) = 2 * length xs"
  by (induction xs) (simp_all add: hex_string_def hex_byte_def)

lemma hex_digit_val: "d < 16 \<Longrightarrow> unat (hex_digit d) = (if d < 10 then 48 + d else 55 + d)"
  using unat_of_nat_u8 [of "48 + d"] unat_of_nat_u8 [of "55 + d"] by (simp add: hex_digit_def)

lemma hex_digit_inject:
  assumes "d < 16" and "e < 16" and "hex_digit d = hex_digit e"
  shows "d = e"
proof -
  from assms have "(if d < 10 then 48 + d else 55 + d) = (if e < 10 then 48 + e else 55 + e)"
    by (metis hex_digit_val)
  then show ?thesis by (simp split: if_splits)
qed

lemma hex_byte_inject: "hex_byte a = hex_byte b \<Longrightarrow> a = b"
proof -
  assume "hex_byte a = hex_byte b"
  moreover have "unat x div 16 < 16" and "unat x mod 16 < 16" for x :: u8
    using unat_u8_bound [of x] by (simp_all add: less_mult_imp_div_less)
  ultimately have "unat a div 16 = unat b div 16" and "unat a mod 16 = unat b mod 16"
    using hex_digit_inject by (simp_all add: hex_byte_def)
  then have "unat a = unat b" by (metis div_mult_mod_eq)
  then show ?thesis by (simp add: word_unat_eq_iff)
qed

lemma hex_string_inject: "hex_string xs = hex_string ys \<Longrightarrow> xs = ys"
proof (induction xs arbitrary: ys)
  case Nil
  then show ?case by (cases ys) (simp_all add: hex_string_def hex_byte_def)
next
  case (Cons x xs)
  then obtain y zs where "ys = y # zs"
    by (cases ys) (simp_all add: hex_string_def hex_byte_def)
  with Cons show ?case
    using hex_byte_inject [of x y] by (auto simp: hex_string_def hex_byte_def)
qed

lemma hex_string_nul_free: "0 \<notin> set (hex_string xs)"
proof
  assume "0 \<in> set (hex_string xs)"
  then obtain b where "0 = hex_digit (unat b div 16) \<or> 0 = hex_digit (unat (b :: u8) mod 16)"
    by (auto simp: hex_string_def hex_byte_def)
  moreover have "unat (hex_digit d) \<noteq> 0" if "d < 16" for d
    using that by (simp add: hex_digit_val)
  moreover have "unat b div 16 < 16" and "unat b mod 16 < 16"
    using unat_u8_bound [of b] by (simp_all add: less_mult_imp_div_less)
  ultimately show False by (metis unsigned_0)
qed

section \<open>The instances satisfy the contracts\<close>

lemma ref_buffer_ok [simp]: "buffer_ok ref_buffer_lib"
  by (auto simp: buffer_ok_def ref_buffer_lib_def)

lemma ref_crypto_ok [simp]: "crypto_ok ref_crypto_lib"
  by (auto simp: crypto_ok_def ref_crypto_lib_def ref_digest_def)

lemma ref_format_ok [simp]: "format_ok ref_format_lib"
  by (auto simp: format_ok_def ref_format_lib_def)

lemma ref_parser_ok [simp]: "parser_ok ref_parser_lib"
  by (auto simp: parser_ok_def ref_parser_lib_def cmd_wf_def split: if_splits)

lemma ref_tlv_ok [simp]: "tlv_ok ref_tlv_lib"
  by (auto simp: tlv_ok_def ref_tlv_lib_def Let_def ascii_def buf_wf_def
        split: if_splits option.splits)

end
