(* ===== verification/App_Types.thy ===== *)
theory App_Types
  imports Ledger_Sdk
begin

text \<open>
  The data of the application, from \<^verbatim>\<open>constants.h\<close>, \<^verbatim>\<open>sw.h\<close>, \<^verbatim>\<open>types.h\<close>, \<^verbatim>\<open>globals.h\<close> and
  \<^verbatim>\<open>transaction/tx_types.h\<close>.

  The pointers of \<open>email_t\<close> point into the raw payload, so each is the offset in the payload's
  memory object (\<open>None\<close> for \<open>NULL\<close>); the fields are read back through the pointer, never copied.

  The union of \<open>pubkey_ctx_t\<close> and \<open>transaction_ctx_t\<close> in \<open>global_ctx_t\<close> is kept as a union:
  \<open>raw_tx\<close> is the first member of the one, and the other consists of two byte arrays, so the 65
  bytes of \<open>raw_public_key\<close> are the first 65 bytes of \<open>raw_tx\<close> and \<open>chain_code\<close> the 32 that
  follow. Reading or writing \<open>pk_info\<close> reads or writes \<open>raw_tx\<close>.
\<close>

section \<open>Constants\<close>

abbreviation (input) MAX_TX_LEN :: nat where "MAX_TX_LEN \<equiv> 2600"
abbreviation (input) MAX_TRANSACTION_LEN :: nat where "MAX_TRANSACTION_LEN \<equiv> 2600"
abbreviation (input) ADDRESS_LEN :: nat where "ADDRESS_LEN \<equiv> 20"
abbreviation (input) CHALLENGE_LEN :: nat where "CHALLENGE_LEN \<equiv> 16"
abbreviation (input) MAX_FROM_LEN :: nat where "MAX_FROM_LEN \<equiv> 128"
abbreviation (input) MAX_TO_LEN :: nat where "MAX_TO_LEN \<equiv> 128"
abbreviation (input) MAX_SUBJECT_LEN :: nat where "MAX_SUBJECT_LEN \<equiv> 200"
abbreviation (input) MAX_BODY_LEN :: nat where "MAX_BODY_LEN \<equiv> 2048"
abbreviation (input) MAX_ATT_NAME_LEN :: nat where "MAX_ATT_NAME_LEN \<equiv> 64"
abbreviation (input) ATT_HASH_LEN :: nat where "ATT_HASH_LEN \<equiv> 32"
definition MAX_MEMO_LEN :: nat where [simp]: "MAX_MEMO_LEN = 465"
definition MAX_DER_SIG_LEN :: nat where [simp]: "MAX_DER_SIG_LEN = 72"
abbreviation (input) TOKEN_ADDRESS_LEN :: nat where "TOKEN_ADDRESS_LEN \<equiv> 32"
abbreviation (input) PUBKEY_LEN :: nat where "PUBKEY_LEN \<equiv> 65"
abbreviation (input) CHAINCODE_LEN :: nat where "CHAINCODE_LEN \<equiv> 32"
definition EXPONENT_SMALLEST_UNIT :: u8 where [simp]: "EXPONENT_SMALLEST_UNIT = 3"
definition CLA :: u8 where [simp]: "CLA = 0xE0"

text \<open>Status words: the ones of \<^verbatim>\<open>sw.h\<close>, and the SDK's with the values that
  \<^verbatim>\<open>APP_SPECIFICATION.md\<close> lists.\<close>

abbreviation (input) SWO_SUCCESS :: u16 where "SWO_SUCCESS \<equiv> 0x9000"
abbreviation (input) SWO_CONDITIONS_NOT_SATISFIED :: u16 where "SWO_CONDITIONS_NOT_SATISFIED \<equiv> 0x6985"
abbreviation (input) SWO_INCORRECT_P1_P2 :: u16 where "SWO_INCORRECT_P1_P2 \<equiv> 0x6A86"
abbreviation (input) SWO_WRONG_DATA_LENGTH :: u16 where "SWO_WRONG_DATA_LENGTH \<equiv> 0x6A87"
abbreviation (input) SWO_INVALID_INS :: u16 where "SWO_INVALID_INS \<equiv> 0x6D00"
abbreviation (input) SWO_INVALID_CLA :: u16 where "SWO_INVALID_CLA \<equiv> 0x6E00"
abbreviation (input) SWO_INCORRECT_DATA :: u16 where "SWO_INCORRECT_DATA \<equiv> 0x6A80"
abbreviation (input) SWO_SECURITY_ISSUE :: u16 where "SWO_SECURITY_ISSUE \<equiv> 0x6600"
abbreviation (input) SW_INVALID_DYNAMIC_TOKEN :: u16 where "SW_INVALID_DYNAMIC_TOKEN \<equiv> 0xB009"
abbreviation (input) SW_SWAP_FAIL :: u16 where "SW_SWAP_FAIL \<equiv> 0xC000"

section \<open>Data\<close>

datatype parser_status_e =
    PARSING_OK
  | FROM_PARSING_ERROR
  | TO_PARSING_ERROR
  | SUBJECT_PARSING_ERROR
  | BODY_PARSING_ERROR
  | FIELD_ENCODING_ERROR
  | CHALLENGE_PARSING_ERROR
  | WRONG_LENGTH_ERROR
  | ATTACHMENT_PARSING_ERROR

record email_t =
  tx_challenge :: ptr
  tx_from :: ptr
  tx_from_len :: u8
  tx_to :: ptr
  tx_to_len :: u8
  tx_subject :: ptr
  tx_subject_len :: u8
  tx_body :: ptr
  tx_body_len :: u16
  tx_has_attachment :: u8
  tx_att_name :: ptr
  tx_att_name_len :: u8
  tx_att_size :: u32
  tx_att_hash :: ptr

datatype state_e = STATE_NONE | STATE_PARSED | STATE_APPROVED

datatype request_type_e = CONFIRM_ADDRESS | CONFIRM_TRANSACTION | CONFIRM_TOKEN_TRANSACTION

text \<open>The ticker of a \<open>token_info_t\<close> is a pointer, into an entry of the hardcoded table or into
  the dynamic slot; it is kept as a pointer since the slot changes.\<close>

datatype ticker_ptr = Ticker_null | Ticker_hardcoded nat | Ticker_dynamic

record token_info_t =
  ti_ticker :: ticker_ptr
  ti_decimals :: u8

record transaction_ctx_t =
  raw_tx :: bytes
  raw_tx_len :: nat
  transaction :: email_t
  is_token_tx :: bool
  token_info :: token_info_t
  m_hash :: bytes
  signature :: bytes
  signature_len :: u8
  sig_v :: u8

record global_ctx_t =
  gstate :: state_e
  tx_info :: transaction_ctx_t
  req_type :: request_type_e
  bip32_path :: "u32 list"
  bip32_path_len :: u8

record internal_storage_t =
  dummy1_allowed :: u8
  dummy2_allowed :: u8
  initialized :: u8

text \<open>The command codes of \<open>command_e\<close>.\<close>

abbreviation (input) GET_VERSION :: u8 where "GET_VERSION \<equiv> 0x03"
abbreviation (input) GET_APP_NAME :: u8 where "GET_APP_NAME \<equiv> 0x04"
abbreviation (input) GET_PUBLIC_KEY :: u8 where "GET_PUBLIC_KEY \<equiv> 0x05"
abbreviation (input) SIGN_TX :: u8 where "SIGN_TX \<equiv> 0x06"
abbreviation (input) SIGN_TOKEN_TX :: u8 where "SIGN_TOKEN_TX \<equiv> 0x07"
abbreviation (input) PROVIDE_TOKEN_INFO :: u8 where "PROVIDE_TOKEN_INFO \<equiv> 0x22"

text \<open>All-zero objects, what \<open>explicit_bzero\<close> leaves: null pointers, zero lengths, and the first
  value of each enumeration.\<close>

definition zero_email :: email_t where
  "zero_email =
     \<lparr>tx_challenge = None, tx_from = None, tx_from_len = 0, tx_to = None, tx_to_len = 0,
      tx_subject = None, tx_subject_len = 0, tx_body = None, tx_body_len = 0,
      tx_has_attachment = 0, tx_att_name = None, tx_att_name_len = 0, tx_att_size = 0,
      tx_att_hash = None\<rparr>"

definition zero_tx_info :: transaction_ctx_t where
  "zero_tx_info =
     \<lparr>raw_tx = zeros MAX_TRANSACTION_LEN, raw_tx_len = 0, transaction = zero_email,
      is_token_tx = False, token_info = \<lparr>ti_ticker = Ticker_null, ti_decimals = 0\<rparr>,
      m_hash = zeros 32, signature = zeros MAX_DER_SIG_LEN, signature_len = 0, sig_v = 0\<rparr>"

definition zero_context :: global_ctx_t where
  "zero_context =
     \<lparr>gstate = STATE_NONE, tx_info = zero_tx_info, req_type = CONFIRM_ADDRESS,
      bip32_path = replicate MAX_BIP32_PATH 0, bip32_path_len = 0\<rparr>"

text \<open>The other member of the union.\<close>

definition raw_public_key :: "global_ctx_t \<Rightarrow> bytes" where
  "raw_public_key G = slice (raw_tx (tx_info G)) 0 PUBKEY_LEN"

definition chain_code :: "global_ctx_t \<Rightarrow> bytes" where
  "chain_code G = slice (raw_tx (tx_info G)) PUBKEY_LEN CHAINCODE_LEN"

definition set_raw_public_key :: "bytes \<Rightarrow> global_ctx_t \<Rightarrow> global_ctx_t option" where
  "set_raw_public_key pk G = do {
     raw \<leftarrow> mem_write (raw_tx (tx_info G)) 0 pk;
     Some (G\<lparr>tx_info := (tx_info G)\<lparr>raw_tx := raw\<rparr>\<rparr>)
   }"

definition set_chain_code :: "bytes \<Rightarrow> global_ctx_t \<Rightarrow> global_ctx_t option" where
  "set_chain_code cc G = do {
     raw \<leftarrow> mem_write (raw_tx (tx_info G)) PUBKEY_LEN cc;
     Some (G\<lparr>tx_info := (tx_info G)\<lparr>raw_tx := raw\<rparr>\<rparr>)
   }"

text \<open>The shape of the context: every array has its declared size, and the lengths are in it.\<close>

definition context_wf :: "global_ctx_t \<Rightarrow> bool" where
  "context_wf G \<longleftrightarrow>
     length (raw_tx (tx_info G)) = MAX_TRANSACTION_LEN \<and>
     raw_tx_len (tx_info G) \<le> MAX_TRANSACTION_LEN \<and>
     length (m_hash (tx_info G)) = 32 \<and>
     length (signature (tx_info G)) = MAX_DER_SIG_LEN \<and>
     unat (signature_len (tx_info G)) \<le> MAX_DER_SIG_LEN \<and>
     length (bip32_path G) = MAX_BIP32_PATH"

section \<open>Lemmas\<close>

lemma context_wf_zero [simp]: "context_wf zero_context"
  by (simp add: context_wf_def zero_context_def zero_tx_info_def)

lemma zero_context_simps [simp]:
  "req_type zero_context = CONFIRM_ADDRESS" "gstate zero_context = STATE_NONE"
  "tx_info zero_context = zero_tx_info" "bip32_path_len zero_context = 0"
  "raw_tx_len zero_tx_info = 0" "m_hash zero_tx_info = zeros 32"
  by (simp_all add: zero_context_def zero_tx_info_def)

lemma pk_union_read_back:
  assumes "context_wf G" and "length pk = PUBKEY_LEN" and "length cc = CHAINCODE_LEN"
  shows "\<exists>G1 G2. set_raw_public_key pk G = Some G1 \<and> set_chain_code cc G1 = Some G2 \<and>
           context_wf G2 \<and> raw_public_key G2 = pk \<and> chain_code G2 = cc \<and>
           m_hash (tx_info G2) = m_hash (tx_info G)"
  using assms
  by (auto simp: set_raw_public_key_def set_chain_code_def mem_write_def context_wf_def
        raw_public_key_def chain_code_def slice_def)

end
