(* ===== verification/Tokens.thy ===== *)
theory Tokens
  imports App_Types
begin

text \<open>
  The token databases: the hardcoded table of \<^verbatim>\<open>token/token_db.c\<close> and the dynamic slot of
  \<^verbatim>\<open>token/dynamic_token_info.c\<close>, with the lookup that prefers the slot. Addresses are read with
  \<open>mem_slice\<close> (32 bytes, as \<open>memcmp\<close> and \<open>memcpy\<close> do).

  \<open>token_source\<close> is the interface of a database: which addresses it knows, and with which
  decimals. \<open>token_overlay\<close> combines two sources with priority; the lookup of the application is
  its interpretation on the slot and the table.
\<close>

section \<open>The code\<close>

text \<open>\<open>MAX_TICKER_SIZE\<close> of the SDK: a ticker has at most 50 characters
  (\<^verbatim>\<open>handler/provide_token_info.h\<close>).\<close>

abbreviation (input) MAX_TICKER_SIZE :: nat where "MAX_TICKER_SIZE \<equiv> 50"

subsection \<open>The hardcoded table\<close>

record token_entry_t =
  te_address :: bytes
  te_ticker :: bytes
  te_decimals :: u8

definition ticker_array :: "string \<Rightarrow> bytes" where
  "ticker_array s = ascii s @ zeros (MAX_TICKER_SIZE + 1 - length s)"

definition TOKENS :: "token_entry_t list" where
  "TOKENS =
    [\<lparr>te_address = [0x01, 0x23, 0x45, 0x67, 0x89, 0xab, 0xcd, 0xef, 0x01, 0x23, 0x45,
                    0x67, 0x89, 0xab, 0xcd, 0xef, 0x01, 0x23, 0x45, 0x67, 0x89, 0xab,
                    0xcd, 0xef, 0x01, 0x23, 0x45, 0x67, 0x89, 0xab, 0xcd, 0xef],
      te_ticker = ticker_array ''USDC'', te_decimals = 12\<rparr>,
     \<lparr>te_address = [0xfe, 0xdc, 0xba, 0x98, 0x76, 0x54, 0x32, 0x10, 0xfe, 0xdc, 0xba,
                    0x98, 0x76, 0x54, 0x32, 0x10, 0xfe, 0xdc, 0xba, 0x98, 0x76, 0x54,
                    0x32, 0x10, 0xfe, 0xdc, 0xba, 0x98, 0x76, 0x54, 0x32, 0x10],
      te_ticker = ticker_array ''WETH'', te_decimals = 14\<rparr>,
     \<lparr>te_address = [0xaa, 0xbb, 0xcc, 0xdd, 0xee, 0xff, 0x00, 0x11, 0x22, 0x33, 0x44,
                    0x55, 0x66, 0x77, 0x88, 0x99, 0xaa, 0xbb, 0xcc, 0xdd, 0xee, 0xff,
                    0x00, 0x11, 0x22, 0x33, 0x44, 0x55, 0x66, 0x77, 0x88, 0x99],
      te_ticker = ticker_array ''DAI'', te_decimals = 14\<rparr>,
     \<lparr>te_address = [0x11, 0x22, 0x33, 0x44, 0x55, 0x66, 0x77, 0x88, 0x99, 0xaa, 0xbb,
                    0xcc, 0xdd, 0xee, 0xff, 0x00, 0x11, 0x22, 0x33, 0x44, 0x55, 0x66,
                    0x77, 0x88, 0x99, 0xaa, 0xbb, 0xcc, 0xdd, 0xee, 0xff, 0x00],
      te_ticker = ticker_array ''BTC'', te_decimals = 12\<rparr>,
     \<lparr>te_address = [0xff, 0xee, 0xdd, 0xcc, 0xbb, 0xaa, 0x99, 0x88, 0x77, 0x66, 0x55,
                    0x44, 0x33, 0x22, 0x11, 0x00, 0xff, 0xee, 0xdd, 0xcc, 0xbb, 0xaa,
                    0x99, 0x88, 0x77, 0x66, 0x55, 0x44, 0x33, 0x22, 0x11, 0x00],
      te_ticker = ticker_array ''LINK'', te_decimals = 14\<rparr>]"

text \<open>The loop over the table, from entry \<open>i\<close>; \<open>token_info\<close> is the out parameter.\<close>

fun hardcoded_loop :: "token_entry_t list \<Rightarrow> nat \<Rightarrow> bytes \<Rightarrow> token_info_t \<Rightarrow> (bool \<times> token_info_t) option"
where
  "hardcoded_loop [] i token_address info = Some (False, info)"
| "hardcoded_loop (e # es) i token_address info =
     (case mem_slice token_address 0 TOKEN_ADDRESS_LEN of
        None \<Rightarrow> None
      | Some a \<Rightarrow>
          if a = te_address e
          then Some (True, info\<lparr>ti_ticker := Ticker_hardcoded i, ti_decimals := te_decimals e\<rparr>)
          else hardcoded_loop es (Suc i) token_address info)"

definition get_hardcoded_token_info :: "bytes \<Rightarrow> token_info_t \<Rightarrow> (bool \<times> token_info_t) option" where
  "get_hardcoded_token_info token_address info = hardcoded_loop TOKENS 0 token_address info"

subsection \<open>The dynamic slot\<close>

record dynamic_token_info_t =
  dt_received :: bool
  dt_address :: bytes
  dt_ticker :: bytes
  dt_decimals :: u8

definition init_dynamic_token_storage :: dynamic_token_info_t where
  "init_dynamic_token_storage =
     \<lparr>dt_received = False, dt_address = zeros TOKEN_ADDRESS_LEN,
      dt_ticker = zeros (MAX_TICKER_SIZE + 1), dt_decimals = 0\<rparr>"

text \<open>\<open>strncpy (dst, src, n)\<close>: the string at \<open>src\<close> up to its NUL or \<open>n\<close> characters, padded with
  NULs to \<open>n\<close>. Reading past the end of \<open>src\<close> is \<open>None\<close>.\<close>

definition strncpy_bytes :: "bytes \<Rightarrow> nat \<Rightarrow> bytes option" where
  "strncpy_bytes src n =
     (let s = cstring (take n src) in
      if length s = length src \<and> length src < n then None else Some (s @ zeros (n - length s)))"

definition set_token_info ::
  "u8 \<Rightarrow> bytes \<Rightarrow> buffer_t \<Rightarrow> dynamic_token_info_t \<Rightarrow> dynamic_token_info_t option" where
  "set_token_info decimals ticker token_address_buffer D = do {
     a \<leftarrow> mem_slice (buf_ptr token_address_buffer) 0 TOKEN_ADDRESS_LEN;
     addr \<leftarrow> mem_write (dt_address D) 0 a;
     s \<leftarrow> strncpy_bytes ticker MAX_TICKER_SIZE;
     t \<leftarrow> mem_write (dt_ticker D) 0 s;
     t \<leftarrow> mem_write t MAX_TICKER_SIZE [0];
     Some (D\<lparr>dt_address := addr, dt_ticker := t, dt_decimals := decimals, dt_received := True\<rparr>)
   }"

definition get_dynamic_token_info ::
  "dynamic_token_info_t \<Rightarrow> bytes \<Rightarrow> token_info_t \<Rightarrow> (bool \<times> token_info_t) option" where
  "get_dynamic_token_info D token_address info =
     (if \<not> dt_received D then Some (False, info)
      else (case mem_slice token_address 0 TOKEN_ADDRESS_LEN of
              None \<Rightarrow> None
            | Some a \<Rightarrow>
                if a \<noteq> dt_address D then Some (False, info)
                else Some (True, info\<lparr>ti_ticker := Ticker_dynamic, ti_decimals := dt_decimals D\<rparr>)))"

text \<open>\<open>get_token_info\<close>: \<open>None\<close> arguments are \<open>NULL\<close> pointers.\<close>

definition get_token_info ::
  "dynamic_token_info_t \<Rightarrow> bytes option \<Rightarrow> token_info_t option \<Rightarrow> (bool \<times> token_info_t option) option" where
  "get_token_info D token_address info =
     (case (token_address, info) of
        (Some a, Some ti) \<Rightarrow>
          (case get_dynamic_token_info D a ti of
             None \<Rightarrow> None
           | Some (found, ti) \<Rightarrow>
               if found then Some (True, Some ti)
               else (case get_hardcoded_token_info a ti of
                       None \<Rightarrow> None
                     | Some (found, ti) \<Rightarrow> Some (found, Some ti)))
      | _ \<Rightarrow> Some (False, info))"

text \<open>The characters a ticker pointer shows.\<close>

definition ticker_text :: "dynamic_token_info_t \<Rightarrow> ticker_ptr \<Rightarrow> bytes" where
  "ticker_text D p = (case p of
       Ticker_null \<Rightarrow> []
     | Ticker_hardcoded i \<Rightarrow> (if i < length TOKENS then cstring (te_ticker (TOKENS ! i)) else [])
     | Ticker_dynamic \<Rightarrow> cstring (dt_ticker D))"

definition dynamic_wf :: "dynamic_token_info_t \<Rightarrow> bool" where
  "dynamic_wf D \<longleftrightarrow>
     length (dt_address D) = TOKEN_ADDRESS_LEN \<and> length (dt_ticker D) = MAX_TICKER_SIZE + 1 \<and>
     dt_ticker D ! MAX_TICKER_SIZE = 0"

section \<open>The slot\<close>

lemma dynamic_wf_init [simp]: "dynamic_wf init_dynamic_token_storage"
  by (simp add: dynamic_wf_def init_dynamic_token_storage_def zeros_def)

lemma length_cstring: "length (cstring xs) \<le> length xs"
  by (simp add: cstring_def length_takeWhile_le)

lemma cstring_no_nul: "0 \<notin> set (cstring xs)"
  by (auto simp: cstring_def dest: set_takeWhileD)

lemma cstring_append_zeros: "0 \<notin> set xs \<Longrightarrow> 0 < n \<Longrightarrow> cstring (xs @ zeros n) = xs"
  by (cases n) (simp_all add: zeros_def cstring_nul_free)

text \<open>Storing a token: the call is in bounds, the slot keeps its shape, and holds the first 50
  characters of the ticker.\<close>

lemma set_token_info_ok:
  assumes D: "dynamic_wf D" and a: "TOKEN_ADDRESS_LEN \<le> length (buf_ptr ab)"
    and t: "length ticker = MAX_TICKER_SIZE + 1"
  shows "\<exists>D'. set_token_info decimals ticker ab D = Some D' \<and> dynamic_wf D' \<and> dt_received D' \<and>
           dt_address D' = take TOKEN_ADDRESS_LEN (buf_ptr ab) \<and> dt_decimals D' = decimals \<and>
           cstring (dt_ticker D') = cstring (take MAX_TICKER_SIZE ticker)"
proof -
  let ?s = "cstring (take 50 ticker)"
  have s: "length ?s \<le> 50" using length_cstring [of "take 50 ticker"] t by simp
  then have cp: "strncpy_bytes ticker 50 = Some (?s @ zeros (50 - length ?s))"
    using t by (simp add: strncpy_bytes_def Let_def)
  have "51 - length ?s = Suc (50 - length ?s)" using s by simp
  then have pad: "(?s @ zeros (50 - length ?s)) @ [0] = ?s @ zeros (51 - length ?s)"
    by (simp only: zeros_def replicate_Suc replicate_append_same append_assoc)
  from D t have "length (dt_ticker D) = 51" "length (dt_address D) = 32" by (simp_all add: dynamic_wf_def)
  then have "set_token_info decimals ticker ab D = Some (D\<lparr>dt_address := take 32 (buf_ptr ab),
      dt_ticker := ?s @ zeros (51 - length ?s), dt_decimals := decimals, dt_received := True\<rparr>)"
    using a s cp pad by (simp add: set_token_info_def mem_slice_def mem_write_def slice_def)
  moreover have "cstring (?s @ zeros (51 - length ?s)) = ?s"
    using s by (intro cstring_append_zeros cstring_no_nul) simp
  ultimately show ?thesis using s a by (simp add: dynamic_wf_def nth_append zeros_def)
qed

section \<open>Databases as sources\<close>

text \<open>
  The interface of a token database in state \<open>'d\<close>: \<open>find\<close> is the C lookup, \<open>entry\<close> what it means.
  A lookup of a readable address never faults, finds exactly the addresses with an entry, fills
  in that entry, and leaves the out parameter alone otherwise.
\<close>

locale token_source =
  fixes find :: "'d \<Rightarrow> bytes \<Rightarrow> token_info_t \<Rightarrow> (bool \<times> token_info_t) option"
    and entry :: "'d \<Rightarrow> bytes \<Rightarrow> (ticker_ptr \<times> u8) option"
  assumes find_entry: "TOKEN_ADDRESS_LEN \<le> length a \<Longrightarrow>
    find d a ti = Some (case entry d (take TOKEN_ADDRESS_LEN a) of
        None \<Rightarrow> (False, ti)
      | Some (p, n) \<Rightarrow> (True, ti\<lparr>ti_ticker := p, ti_decimals := n\<rparr>))"
begin

lemma found_iff: "TOKEN_ADDRESS_LEN \<le> length a \<Longrightarrow>
    (\<exists>ti'. find d a ti = Some (True, ti')) \<longleftrightarrow> entry d (take TOKEN_ADDRESS_LEN a) \<noteq> None"
  by (simp add: find_entry split: option.split)

end

text \<open>Two sources, the first with priority.\<close>

locale token_overlay =
  upper: token_source find1 entry1 + lower: token_source find2 entry2
  for find1 :: "'d \<Rightarrow> bytes \<Rightarrow> token_info_t \<Rightarrow> (bool \<times> token_info_t) option" and entry1
    and find2 :: "'e \<Rightarrow> bytes \<Rightarrow> token_info_t \<Rightarrow> (bool \<times> token_info_t) option" and entry2 +
  fixes both :: "'d \<Rightarrow> 'e \<Rightarrow> bytes \<Rightarrow> token_info_t \<Rightarrow> (bool \<times> token_info_t) option"
  assumes both_def: "both d e a ti = (case find1 d a ti of None \<Rightarrow> None | Some (found, ti) \<Rightarrow>
      if found then Some (True, ti) else find2 e a ti)"
begin

lemma both_entry: "TOKEN_ADDRESS_LEN \<le> length a \<Longrightarrow>
    both d e a ti = Some (case (case entry1 d (take TOKEN_ADDRESS_LEN a) of
                                  None \<Rightarrow> entry2 e (take TOKEN_ADDRESS_LEN a) | Some x \<Rightarrow> Some x) of
        None \<Rightarrow> (False, ti)
      | Some (p, n) \<Rightarrow> (True, ti\<lparr>ti_ticker := p, ti_decimals := n\<rparr>))"
  by (auto simp: both_def upper.find_entry lower.find_entry split: option.split)

end

fun table_entry :: "token_entry_t list \<Rightarrow> nat \<Rightarrow> bytes \<Rightarrow> (ticker_ptr \<times> u8) option" where
  "table_entry [] i a = None"
| "table_entry (e # es) i a =
     (if a = te_address e then Some (Ticker_hardcoded i, te_decimals e) else table_entry es (Suc i) a)"

definition slot_entry :: "dynamic_token_info_t \<Rightarrow> bytes \<Rightarrow> (ticker_ptr \<times> u8) option" where
  "slot_entry D a =
     (if dt_received D \<and> a = dt_address D then Some (Ticker_dynamic, dt_decimals D) else None)"

definition lookup_token ::
  "dynamic_token_info_t \<Rightarrow> unit \<Rightarrow> bytes \<Rightarrow> token_info_t \<Rightarrow> (bool \<times> token_info_t) option" where
  "lookup_token D u a ti =
     map_option (\<lambda>(found, i). (found, the i)) (get_token_info D (Some a) (Some ti))"

lemma hardcoded_loop_entry:
  "TOKEN_ADDRESS_LEN \<le> length a \<Longrightarrow>
   hardcoded_loop es i a ti = Some (case table_entry es i (take TOKEN_ADDRESS_LEN a) of
       None \<Rightarrow> (False, ti)
     | Some (p, n) \<Rightarrow> (True, ti\<lparr>ti_ticker := p, ti_decimals := n\<rparr>))"
  by (induction es i a ti rule: hardcoded_loop.induct) (simp_all add: mem_slice_def slice_def)

interpretation table: token_source "\<lambda>_ :: unit. get_hardcoded_token_info" "\<lambda>_. table_entry TOKENS 0"
  by unfold_locales (simp add: get_hardcoded_token_info_def hardcoded_loop_entry)

interpretation slot: token_source get_dynamic_token_info slot_entry
  by unfold_locales (simp add: get_dynamic_token_info_def slot_entry_def mem_slice_def slice_def)

interpretation tokens: token_overlay get_dynamic_token_info slot_entry
  "\<lambda>_ :: unit. get_hardcoded_token_info" "\<lambda>_. table_entry TOKENS 0" lookup_token
  by unfold_locales
     (auto simp: lookup_token_def get_token_info_def split: option.split)

text \<open>The addresses of the table are distinct and have 32 bytes, so each entry can be found.\<close>

lemma TOKENS_distinct: "distinct (map te_address TOKENS)"
  by code_simp

lemma TOKENS_wf: "list_all (\<lambda>e. length (te_address e) = TOKEN_ADDRESS_LEN) TOKENS"
  by code_simp

lemma table_entry_nth:
  "distinct (map te_address es) \<Longrightarrow> i < length es \<Longrightarrow>
   table_entry es k (te_address (es ! i)) = Some (Ticker_hardcoded (k + i), te_decimals (es ! i))"
proof (induction es arbitrary: i k)
  case Nil
  then show ?case by simp
next
  case (Cons e es)
  show ?case
  proof (cases i)
    case 0
    then show ?thesis by simp
  next
    case (Suc j)
    with Cons.prems have "es ! j \<in> set es" by simp
    then have "te_address (es ! j) \<noteq> te_address e" using Cons.prems by (auto simp: image_iff)
    then show ?thesis using Suc Cons by simp
  qed
qed

section \<open>Properties\<close>

text \<open>Every entry of the hardcoded table is found under its own address, with its own ticker and
  decimals, when the dynamic slot does not hold the same address.\<close>

theorem hardcoded_tokens_found:
  assumes "i < length TOKENS" and "\<not> dt_received D \<or> dt_address D \<noteq> te_address (TOKENS ! i)"
  shows "get_token_info D (Some (te_address (TOKENS ! i))) (Some ti) =
           Some (True, Some (ti\<lparr>ti_ticker := Ticker_hardcoded i, ti_decimals := te_decimals (TOKENS ! i)\<rparr>))"
proof -
  have len: "length (te_address (TOKENS ! i)) = 32" using TOKENS_wf assms(1) by (simp add: list_all_length)
  have "slot_entry D (te_address (TOKENS ! i)) = None" using assms(2) by (auto simp: slot_entry_def)
  then show ?thesis
    using slot.find_entry [of "te_address (TOKENS ! i)" D ti]
      table.find_entry [of "te_address (TOKENS ! i)" ti]
      table_entry_nth [OF TOKENS_distinct assms(1), of 0] len
    by (simp add: get_token_info_def)
qed

theorem hardcoded_tokens_found_witness:
  "get_token_info init_dynamic_token_storage (Some (te_address (TOKENS ! 4)))
     (Some \<lparr>ti_ticker = Ticker_null, ti_decimals = 0\<rparr>) =
   Some (True, Some \<lparr>ti_ticker = Ticker_hardcoded 4, ti_decimals = 14\<rparr>)"
  using hardcoded_tokens_found [of 4 init_dynamic_token_storage "\<lparr>ti_ticker = Ticker_null, ti_decimals = 0\<rparr>"]
  by (simp add: TOKENS_def init_dynamic_token_storage_def)

text \<open>C39. After a token is stored in the dynamic slot, looking its address up finds it, with the
  ticker (up to 50 characters) and the decimals that were stored, also when the hardcoded table
  has an entry for that address; every other address is answered by the table alone.\<close>

theorem dynamic_token_overrides:
  assumes "dynamic_wf D" and "length (buf_ptr ab) = TOKEN_ADDRESS_LEN"
    and "length ticker = MAX_TICKER_SIZE + 1" and "TOKEN_ADDRESS_LEN \<le> length a"
  shows "\<exists>D'. set_token_info decimals ticker ab D = Some D' \<and>
           (if take TOKEN_ADDRESS_LEN a = buf_ptr ab
            then get_token_info D' (Some a) (Some ti) =
                   Some (True, Some (ti\<lparr>ti_ticker := Ticker_dynamic, ti_decimals := decimals\<rparr>)) \<and>
                 ticker_text D' Ticker_dynamic = cstring (take MAX_TICKER_SIZE ticker)
            else get_token_info D' (Some a) (Some ti) =
                   map_option (\<lambda>(f, i). (f, Some i)) (get_hardcoded_token_info a ti))"
proof -
  obtain D' where set: "set_token_info decimals ticker ab D = Some D'" and D': "dt_received D'"
    "dt_address D' = buf_ptr ab" "dt_decimals D' = decimals"
    "cstring (dt_ticker D') = cstring (take 50 ticker)"
    using set_token_info_ok [OF assms(1) _ assms(3), of ab decimals] assms(2) by auto
  then have "slot_entry D' (take 32 a) = (if take 32 a = buf_ptr ab then Some (Ticker_dynamic, decimals) else None)"
    by (auto simp: slot_entry_def)
  then show ?thesis
    using set D'(4) slot.find_entry [OF assms(4), of D' ti]
    by (auto simp: get_token_info_def ticker_text_def split: option.split)
qed

theorem dynamic_token_overrides_witness:
  "\<exists>D'. set_token_info 6 (ticker_array ''USDT'')
          \<lparr>buf_ptr = te_address (TOKENS ! 0), buf_size = 32, buf_offset = 0\<rparr>
          init_dynamic_token_storage = Some D' \<and>
        get_token_info D' (Some (te_address (TOKENS ! 0))) (Some \<lparr>ti_ticker = Ticker_null, ti_decimals = 0\<rparr>) =
          Some (True, Some \<lparr>ti_ticker = Ticker_dynamic, ti_decimals = 6\<rparr>)"
proof -
  have "length (te_address (TOKENS ! 0)) = 32" "length (ticker_array ''USDT'') = 51"
    by (simp_all add: TOKENS_def ticker_array_def ascii_def)
  then show ?thesis
    using dynamic_token_overrides [of init_dynamic_token_storage
        "\<lparr>buf_ptr = te_address (TOKENS ! 0), buf_size = 32, buf_offset = 0\<rparr>" "ticker_array ''USDT''"
        "te_address (TOKENS ! 0)" 6 "\<lparr>ti_ticker = Ticker_null, ti_decimals = 0\<rparr>"]
    by auto
qed

end
