(* ===== verification/Email_Format.thy ===== *)
theory Email_Format
  imports App_Types
begin

text \<open>
  The wire format of \<^verbatim>\<open>tx_types.h\<close> as a specification, independent of how the code parses it:
  \<open>email\<close> is a message as values, \<open>wf_email\<close> the bounds and the character set of the format,
  \<open>encode_email\<close> the bytes of a message, \<open>parse_email\<close> the grammar read from left to right with
  the error of the first field that does not fit. The interface \<open>wire_codec\<close> says that an
  encoder and a decoder describe the same set of payloads, one message for each.
\<close>

section \<open>The format\<close>

record attachment =
  att_name :: bytes
  att_size :: u32
  att_hash :: bytes

record email =
  e_challenge :: bytes
  e_from :: bytes
  e_to :: bytes
  e_subject :: bytes
  e_body :: bytes
  e_attachment :: "attachment option"

definition printable :: "u8 \<Rightarrow> bool" where
  "printable c \<longleftrightarrow> 0x20 \<le> c \<and> c \<le> 0x7e"

definition body_char :: "u8 \<Rightarrow> bool" where
  "body_char c \<longleftrightarrow> printable c \<or> c = 10"

definition text_field_wf :: "nat \<Rightarrow> bytes \<Rightarrow> bool" where
  "text_field_wf n xs \<longleftrightarrow> xs \<noteq> [] \<and> length xs \<le> n \<and> list_all printable xs"

definition wf_attachment :: "attachment \<Rightarrow> bool" where
  "wf_attachment a \<longleftrightarrow> text_field_wf MAX_ATT_NAME_LEN (att_name a) \<and> length (att_hash a) = ATT_HASH_LEN"

definition wf_email :: "email \<Rightarrow> bool" where
  "wf_email e \<longleftrightarrow>
     length (e_challenge e) = CHALLENGE_LEN \<and>
     text_field_wf MAX_FROM_LEN (e_from e) \<and>
     text_field_wf MAX_TO_LEN (e_to e) \<and>
     text_field_wf MAX_SUBJECT_LEN (e_subject e) \<and>
     e_body e \<noteq> [] \<and> length (e_body e) \<le> MAX_BODY_LEN \<and> list_all body_char (e_body e) \<and>
     (case e_attachment e of None \<Rightarrow> True | Some a \<Rightarrow> wf_attachment a)"

definition encode_text :: "bytes \<Rightarrow> bytes" where
  "encode_text xs = of_nat (length xs) # xs"

definition encode_body :: "bytes \<Rightarrow> bytes" where
  "encode_body xs = be16_bytes (of_nat (length xs)) @ xs"

definition encode_attachment :: "attachment option \<Rightarrow> bytes" where
  "encode_attachment ao = (case ao of
       None \<Rightarrow> [0]
     | Some a \<Rightarrow> 1 # encode_text (att_name a) @ be32_bytes (att_size a) @ att_hash a)"

definition encode_email :: "email \<Rightarrow> bytes" where
  "encode_email e =
     e_challenge e @ encode_text (e_from e) @ encode_text (e_to e) @ encode_text (e_subject e)
     @ encode_body (e_body e) @ encode_attachment (e_attachment e)"

section \<open>The grammar, read from left to right\<close>

definition parse_text :: "nat \<Rightarrow> bytes \<Rightarrow> (bytes \<times> bytes) option" where
  "parse_text mx bs = (case bs of
       [] \<Rightarrow> None
     | l # r \<Rightarrow>
         (let n = unat l in
          if n = 0 \<or> n > mx \<or> length r < n \<or> \<not> list_all printable (take n r) then None
          else Some (take n r, drop n r)))"

definition parse_body :: "bytes \<Rightarrow> parser_status_e + bytes \<times> bytes" where
  "parse_body bs = (case bs of
       a # b # r \<Rightarrow>
         (let n = unat (be16_val a b) in
          if n = 0 \<or> n > MAX_BODY_LEN \<or> length r < n then Inl BODY_PARSING_ERROR
          else if \<not> list_all body_char (take n r) then Inl FIELD_ENCODING_ERROR
          else Inr (take n r, drop n r))
     | _ \<Rightarrow> Inl BODY_PARSING_ERROR)"

definition parse_attachment :: "bytes \<Rightarrow> (attachment option \<times> bytes) option" where
  "parse_attachment bs = (case bs of
       [] \<Rightarrow> None
     | c # r \<Rightarrow>
         if c > 1 then None
         else if c = 1 then
           (case parse_text MAX_ATT_NAME_LEN r of
              None \<Rightarrow> None
            | Some (name, r1) \<Rightarrow>
                if length r1 < 4 + ATT_HASH_LEN then None
                else Some (Some \<lparr>att_name = name,
                                 att_size = be32_val (r1 ! 0) (r1 ! 1) (r1 ! 2) (r1 ! 3),
                                 att_hash = take ATT_HASH_LEN (drop 4 r1)\<rparr>,
                           drop (4 + ATT_HASH_LEN) r1))
         else Some (None, r))"

definition parse_headers :: "bytes \<Rightarrow> parser_status_e + bytes \<times> bytes \<times> bytes \<times> bytes" where
  "parse_headers bs =
     (if length bs < CHALLENGE_LEN then Inl CHALLENGE_PARSING_ERROR else
      case parse_text MAX_FROM_LEN (drop CHALLENGE_LEN bs) of
        None \<Rightarrow> Inl FROM_PARSING_ERROR
      | Some (frm, r1) \<Rightarrow>
      (case parse_text MAX_TO_LEN r1 of
        None \<Rightarrow> Inl TO_PARSING_ERROR
      | Some (to, r2) \<Rightarrow>
      (case parse_text MAX_SUBJECT_LEN r2 of
        None \<Rightarrow> Inl SUBJECT_PARSING_ERROR
      | Some (subj, r3) \<Rightarrow> Inr (frm, to, subj, r3))))"

definition parse_email :: "bytes \<Rightarrow> parser_status_e + email" where
  "parse_email bs =
     (case parse_headers bs of
        Inl s \<Rightarrow> Inl s
      | Inr (frm, to, subj, r3) \<Rightarrow>
      (case parse_body r3 of
        Inl s \<Rightarrow> Inl s
      | Inr (body, r4) \<Rightarrow>
      (case parse_attachment r4 of
        None \<Rightarrow> Inl ATTACHMENT_PARSING_ERROR
      | Some (att, r5) \<Rightarrow>
        if r5 = []
        then Inr \<lparr>e_challenge = take CHALLENGE_LEN bs, e_from = frm, e_to = to, e_subject = subj,
                  e_body = body, e_attachment = att\<rparr>
        else Inl WRONG_LENGTH_ERROR)))"

text \<open>Two messages of the unit tests, used to evaluate the code: a short one, and one with an
  attachment.\<close>

definition sample_email :: email where
  "sample_email =
     \<lparr>e_challenge = [0x11, 0x22, 0x33, 0x44, 0x55, 0x66, 0x77, 0x88,
                     0x99, 0xaa, 0xbb, 0xcc, 0xdd, 0xee, 0xff, 0x00],
      e_from = ascii ''a@b.co'', e_to = ascii ''c@d.co'', e_subject = ascii ''Q3'',
      e_body = ascii ''Hi'' @ [10] @ ascii ''there'', e_attachment = None\<rparr>"

definition sample_attachment_email :: email where
  "sample_attachment_email = sample_email\<lparr>e_attachment :=
     Some \<lparr>att_name = ascii ''f.txt'', att_size = 300, att_hash = [0xde, 0xad] @ zeros 30\<rparr>\<rparr>"

text \<open>Another short message, and one with every field at its limit.\<close>

definition other_email :: email where
  "other_email = sample_email\<lparr>e_to := ascii ''x@y.zz'', e_body := ascii ''Pay''\<rparr>"

definition largest_email :: email where
  "largest_email =
     \<lparr>e_challenge = zeros 16, e_from = replicate 128 97, e_to = replicate 128 97, e_subject = replicate 200 97,
      e_body = replicate 2048 97,
      e_attachment = Some \<lparr>att_name = replicate 64 97, att_size = 0, att_hash = zeros 32\<rparr>\<rparr>"

section \<open>Encoder and decoder agree\<close>

lemma parse_text_Some:
  "mx \<le> 255 \<Longrightarrow> parse_text mx bs = Some (xs, r) \<longleftrightarrow> text_field_wf mx xs \<and> bs = encode_text xs @ r"
proof (cases bs)
  case Nil
  then show ?thesis by (simp add: parse_text_def encode_text_def)
next
  case (Cons l t)
  assume mx: "mx \<le> 255"
  show ?thesis
  proof
    assume p: "parse_text mx bs = Some (xs, r)"
    then have n: "unat l \<noteq> 0" "unat l \<le> mx" "unat l \<le> length t" "list_all printable (take (unat l) t)"
      and xs: "xs = take (unat l) t" "r = drop (unat l) t"
      by (auto simp: parse_text_def Cons Let_def split: if_splits)
    from xs n have len: "length xs = unat l" by simp
    then have "of_nat (length xs) = l" by simp
    with xs n len show "text_field_wf mx xs \<and> bs = encode_text xs @ r"
      by (auto simp: text_field_wf_def encode_text_def Cons)
  next
    assume h: "text_field_wf mx xs \<and> bs = encode_text xs @ r"
    then have "unat l = length xs" and "t = xs @ r"
      using mx by (auto simp: text_field_wf_def encode_text_def Cons)
    with h show "parse_text mx bs = Some (xs, r)"
      by (auto simp: parse_text_def text_field_wf_def Cons Let_def)
  qed
qed

lemma parse_body_Inr:
  "parse_body bs = Inr (xs, r) \<longleftrightarrow>
     xs \<noteq> [] \<and> length xs \<le> MAX_BODY_LEN \<and> list_all body_char xs \<and> bs = encode_body xs @ r"
proof
  assume p: "parse_body bs = Inr (xs, r)"
  then obtain a b t where bs: "bs = a # b # t"
    by (auto simp: parse_body_def split: list.splits)
  let ?n = "unat (be16_val a b)"
  from p have n: "?n \<noteq> 0" "?n \<le> MAX_BODY_LEN" "?n \<le> length t" "list_all body_char (take ?n t)"
    and xs: "xs = take ?n t" "r = drop ?n t"
    by (auto simp: parse_body_def bs Let_def split: if_splits)
  from xs n have len: "length xs = ?n" by simp
  then have "of_nat (length xs) = be16_val a b" by simp
  with xs n len show "xs \<noteq> [] \<and> length xs \<le> MAX_BODY_LEN \<and> list_all body_char xs \<and> bs = encode_body xs @ r"
    by (auto simp: encode_body_def bs)
next
  assume h: "xs \<noteq> [] \<and> length xs \<le> MAX_BODY_LEN \<and> list_all body_char xs \<and> bs = encode_body xs @ r"
  let ?w = "of_nat (length xs) :: u16"
  obtain a b where ab: "be16_bytes ?w = [a, b]" by (simp add: be16_bytes_def)
  from h have "unat ?w = length xs" by (intro of_nat_val16) linarith
  then have "unat (be16_val a b) = length xs" using be16_bytes_val [OF ab] by simp
  with h ab show "parse_body bs = Inr (xs, r)"
    by (auto simp: parse_body_def encode_body_def Let_def)
qed

lemma parse_attachment_sound:
  assumes "parse_attachment bs = Some (ao, r)"
  shows "(case ao of None \<Rightarrow> True | Some a \<Rightarrow> wf_attachment a) \<and> bs = encode_attachment ao @ r"
proof -
  from assms obtain c t where bs: "bs = c # t" by (cases bs) (auto simp: parse_attachment_def)
  have c: "c > 1 \<or> c = 1 \<or> c = 0"
    by (metis linorder_neqE_nat unat_0 unat_1 less_one word_less_nat_alt word_unat_eq_iff)
  show ?thesis
  proof (cases "c = 1")
    case False
    with assms c show ?thesis by (auto simp: parse_attachment_def encode_attachment_def bs)
  next
    case True
    with assms obtain name r1 where t: "parse_text MAX_ATT_NAME_LEN t = Some (name, r1)"
      and len: "36 \<le> length r1"
      and ao: "ao = Some \<lparr>att_name = name, att_size = be32_val (r1 ! 0) (r1 ! 1) (r1 ! 2) (r1 ! 3),
                         att_hash = take 32 (drop 4 r1)\<rparr>"
      and r: "r = drop 36 r1"
      by (auto simp: parse_attachment_def bs split: option.splits if_splits)
    from len obtain w x y z r2 where r1: "r1 = w # x # y # z # r2"
      by (metis Suc_le_length_iff numeral_eq_Suc pred_numeral_simps(2,3) BitM.simps(1,2))
    from t have "text_field_wf MAX_ATT_NAME_LEN name" "t = encode_text name @ r1"
      by (simp_all add: parse_text_Some)
    with True ao r r1 len show ?thesis by (simp add: encode_attachment_def wf_attachment_def bs)
  qed
qed

lemma parse_attachment_complete:
  assumes "case ao of None \<Rightarrow> True | Some a \<Rightarrow> wf_attachment a"
  shows "parse_attachment (encode_attachment ao @ r) = Some (ao, r)"
proof (cases ao)
  case None
  then show ?thesis by (simp add: parse_attachment_def encode_attachment_def)
next
  case (Some a)
  obtain w x y z where s: "be32_bytes (att_size a) = [w, x, y, z]" by (simp add: be32_bytes_def)
  let ?r1 = "w # x # y # z # att_hash a @ r"
  from assms Some have wf: "text_field_wf MAX_ATT_NAME_LEN (att_name a)" and hl: "length (att_hash a) = 32"
    by (simp_all add: wf_attachment_def)
  have "parse_text MAX_ATT_NAME_LEN (encode_text (att_name a) @ ?r1) = Some (att_name a, ?r1)"
    using wf by (simp add: parse_text_Some)
  then show ?thesis
    using hl Some s be32_bytes_val [OF s] by (simp add: parse_attachment_def encode_attachment_def)
qed

lemma parse_attachment_Some:
  "parse_attachment bs = Some (ao, r) \<longleftrightarrow>
     (case ao of None \<Rightarrow> True | Some a \<Rightarrow> wf_attachment a) \<and> bs = encode_attachment ao @ r"
  using parse_attachment_sound parse_attachment_complete by blast

lemma parse_headers_Inr:
  "parse_headers bs = Inr (frm, to, subj, r) \<longleftrightarrow>
     CHALLENGE_LEN \<le> length bs \<and> text_field_wf MAX_FROM_LEN frm \<and> text_field_wf MAX_TO_LEN to \<and>
     text_field_wf MAX_SUBJECT_LEN subj \<and>
     drop CHALLENGE_LEN bs = encode_text frm @ encode_text to @ encode_text subj @ r"
proof
  assume "parse_headers bs = Inr (frm, to, subj, r)"
  then show "CHALLENGE_LEN \<le> length bs \<and> text_field_wf MAX_FROM_LEN frm \<and>
      text_field_wf MAX_TO_LEN to \<and> text_field_wf MAX_SUBJECT_LEN subj \<and>
      drop CHALLENGE_LEN bs = encode_text frm @ encode_text to @ encode_text subj @ r"
    by (auto simp: parse_headers_def parse_text_Some split: if_splits option.splits)
next
  assume h: "CHALLENGE_LEN \<le> length bs \<and> text_field_wf MAX_FROM_LEN frm \<and>
      text_field_wf MAX_TO_LEN to \<and> text_field_wf MAX_SUBJECT_LEN subj \<and>
      drop CHALLENGE_LEN bs = encode_text frm @ encode_text to @ encode_text subj @ r"
  have p: "parse_text mx (encode_text xs @ ys) = Some (xs, ys)" if "mx \<le> 255" "text_field_wf mx xs"
    for mx xs ys using that by (simp add: parse_text_Some)
  from h show "parse_headers bs = Inr (frm, to, subj, r)" by (simp add: parse_headers_def p)
qed

text \<open>The reader accepts exactly the encodings of well-formed messages, and returns the message.\<close>

lemma parse_email_Inr: "parse_email bs = Inr e \<longleftrightarrow> wf_email e \<and> bs = encode_email e"
proof
  assume p: "parse_email bs = Inr e"
  then obtain frm to subj r3 body r4 att where
    h: "parse_headers bs = Inr (frm, to, subj, r3)"
    and b: "parse_body r3 = Inr (body, r4)"
    and a: "parse_attachment r4 = Some (att, [])"
    and e: "e = \<lparr>e_challenge = take CHALLENGE_LEN bs, e_from = frm, e_to = to, e_subject = subj,
                 e_body = body, e_attachment = att\<rparr>"
    by (auto simp: parse_email_def split: if_splits option.splits sum.splits)
  from h b a have rest: "drop CHALLENGE_LEN bs =
      encode_text frm @ encode_text to @ encode_text subj @ encode_body body @ encode_attachment att"
    by (simp add: parse_headers_Inr parse_body_Inr parse_attachment_Some)
  have "bs = take CHALLENGE_LEN bs @ drop CHALLENGE_LEN bs" by simp
  also have "\<dots> = encode_email e" unfolding rest by (simp add: encode_email_def e)
  finally have "bs = encode_email e" .
  moreover have "wf_email e"
    using h b a by (simp add: wf_email_def e parse_headers_Inr parse_body_Inr parse_attachment_Some)
  ultimately show "wf_email e \<and> bs = encode_email e" by simp
next
  assume h: "wf_email e \<and> bs = encode_email e"
  let ?att = "encode_attachment (e_attachment e)"
  from h have "parse_headers bs = Inr (e_from e, e_to e, e_subject e, encode_body (e_body e) @ ?att)"
    by (simp add: parse_headers_Inr wf_email_def encode_email_def)
  moreover from h have "parse_body (encode_body (e_body e) @ ?att) = Inr (e_body e, ?att)"
    by (simp add: parse_body_Inr wf_email_def)
  moreover from h have "parse_attachment ?att = Some (e_attachment e, [])"
    by (simp add: parse_attachment_Some wf_email_def)
  moreover from h have "take CHALLENGE_LEN bs = e_challenge e"
    by (simp add: wf_email_def encode_email_def)
  ultimately show "parse_email bs = Inr e" by (simp add: parse_email_def)
qed

section \<open>The codec interface\<close>

locale wire_codec =
  fixes ok :: "'k \<Rightarrow> bool" and wf :: "'m \<Rightarrow> bool" and fits :: "bytes \<Rightarrow> bool"
    and encode :: "'m \<Rightarrow> bytes" and decode :: "'k \<Rightarrow> bytes \<Rightarrow> 'm option"
  assumes decode_iff: "ok k \<Longrightarrow> fits bs \<Longrightarrow> decode k bs = Some m \<longleftrightarrow> wf m \<and> bs = encode m"
begin

lemma round_trip: "ok k \<Longrightarrow> wf m \<Longrightarrow> fits (encode m) \<Longrightarrow> decode k (encode m) = Some m"
  by (simp add: decode_iff)

lemma decode_injective:
  "ok k \<Longrightarrow> fits bs \<Longrightarrow> fits cs \<Longrightarrow> decode k bs = Some m \<Longrightarrow> decode k cs = Some m \<Longrightarrow> bs = cs"
  by (simp add: decode_iff)

lemma encode_injective:
  "ok k \<Longrightarrow> wf m \<Longrightarrow> wf n \<Longrightarrow> fits (encode m) \<Longrightarrow> encode m = encode n \<Longrightarrow> m = n"
  by (metis round_trip option.inject)

text \<open>Whatever is not the encoding of a well-formed message is refused.\<close>

lemma decode_refuses:
  "ok k \<Longrightarrow> fits bs \<Longrightarrow> (\<And>m. wf m \<Longrightarrow> bs \<noteq> encode m) \<Longrightarrow> decode k bs = None"
  by (metis decode_iff option.exhaust)

end

text \<open>The reference reader is a codec for the format, for payloads of any length.\<close>

interpretation spec_codec: wire_codec "\<lambda>_ :: unit. True" wf_email "\<lambda>_. True" encode_email
  "\<lambda>_ bs. (case parse_email bs of Inl _ \<Rightarrow> None | Inr e \<Rightarrow> Some e)"
  by unfold_locales (auto simp: parse_email_Inr [symmetric] split: sum.splits)

section \<open>Lengths\<close>

lemma length_encode_text [simp]: "length (encode_text xs) = Suc (length xs)"
  by (simp add: encode_text_def)

lemma length_encode_body [simp]: "length (encode_body xs) = 2 + length xs"
  by (simp add: encode_body_def be16_bytes_def)

lemma length_encode_attachment:
  "length (encode_attachment ao) =
     (case ao of None \<Rightarrow> 1 | Some a \<Rightarrow> 6 + length (att_name a) + length (att_hash a))"
  by (simp add: encode_attachment_def be32_bytes_def split: option.split)

lemma length_encode_email:
  "length (encode_email e) = length (e_challenge e) + length (e_from e) + length (e_to e)
     + length (e_subject e) + length (e_body e) + 5 + length (encode_attachment (e_attachment e))"
  by (simp add: encode_email_def)

lemma length_encode_no_attachment:
  "wf_email e \<Longrightarrow> e_attachment e = None \<Longrightarrow> length (encode_email e) \<le> 2526"
  by (simp add: length_encode_email length_encode_attachment wf_email_def text_field_wf_def)

section \<open>The sample messages\<close>

lemma wf_sample_email: "wf_email sample_email"
  by code_simp

lemma wf_sample_attachment_email: "wf_email sample_attachment_email"
  by code_simp

lemma length_sample_email: "length (encode_email sample_email) = 44"
  by code_simp

lemma length_sample_attachment_email: "length (encode_email sample_attachment_email) = 86"
  by code_simp

end
