(* ===== verification/Deserialize.thy ===== *)
theory Deserialize
  imports Email_Format
begin

text \<open>
  The payload parser, \<^verbatim>\<open>transaction/deserialize.c\<close>: \<open>text_ok\<close>, \<open>read_text_field\<close> and
  \<open>transaction_deserialize\<close>, over the buffer functions of the SDK. Every byte is read through
  \<open>mem_read\<close>, so a result \<open>Some\<close> says that no read left the payload. The buffer and the transaction
  are values here: the assertions that their pointers are not \<open>NULL\<close>, which hold at every call in
  the application, are not part of the model.

  The code is shown to refine the reference reader \<open>parse_email\<close>: same verdict on every payload,
  same error code, and on success pointers that read back the fields of the message. With it the
  C parser is a \<open>wire_codec\<close> for the format.
\<close>

section \<open>The code\<close>

text \<open>The loop of \<open>text_ok\<close>, from index \<open>i\<close>.\<close>

function text_ok_loop :: "bytes \<Rightarrow> nat \<Rightarrow> nat \<Rightarrow> nat \<Rightarrow> bool \<Rightarrow> bool option" where
  "text_ok_loop mem p i len allow_newline =
     (if i < len then
        (case mem_read mem (p + i) of
           None \<Rightarrow> None
         | Some c \<Rightarrow>
             if allow_newline \<and> c = 10 then text_ok_loop mem p (Suc i) len allow_newline
             else if c < 0x20 \<or> c > 0x7e then Some False
             else text_ok_loop mem p (Suc i) len allow_newline)
      else Some True)"
  by pat_completeness auto
termination
  by (relation "measure (\<lambda>(mem, p, i, len, nl). len - i)") auto

declare text_ok_loop.simps [simp del]

definition text_ok :: "bytes \<Rightarrow> ptr \<Rightarrow> nat \<Rightarrow> bool \<Rightarrow> bool option" where
  "text_ok mem p len allow_newline =
     (case p of
        None \<Rightarrow> (if len = 0 then Some True else None)
      | Some off \<Rightarrow> text_ok_loop mem off 0 len allow_newline)"

text \<open>\<open>read_text_field\<close> returns the verdict, the buffer, and the out parameters \<open>field\<close> and
  \<open>field_len\<close>, which keep their old values where the code returns before assigning them.\<close>

definition read_text_field ::
  "buffer_lib \<Rightarrow> buffer_t \<Rightarrow> ptr \<Rightarrow> u8 \<Rightarrow> u8 \<Rightarrow> (bool \<times> buffer_t \<times> ptr \<times> u8) option" where
  "read_text_field B buf field field_len max_len =
     (let (ok, len, buf) = buffer_read_u8 B buf in
      if \<not> ok then Some (False, buf, field, field_len)
      else if len = 0 \<or> len > max_len then Some (False, buf, field, field_len)
      else
        let field = Some (buf_offset buf);
            (ok, buf) = buffer_seek_cur B buf (unat len) in
        if \<not> ok then Some (False, buf, field, field_len)
        else (case text_ok (buf_ptr buf) field (unat len) False of
                None \<Rightarrow> None
              | Some t \<Rightarrow> if \<not> t then Some (False, buf, field, field_len)
                         else Some (True, buf, field, len)))"

text \<open>The optional attachment and the final length check.\<close>

definition deserialize_attachment ::
  "buffer_lib \<Rightarrow> buffer_t \<Rightarrow> email_t \<Rightarrow> (parser_status_e \<times> buffer_t \<times> email_t) option" where
  "deserialize_attachment B buf tx =
     (let tx = tx\<lparr>tx_has_attachment := 0, tx_att_name := None, tx_att_name_len := 0,
                  tx_att_size := 0, tx_att_hash := None\<rparr>;
          (ok, att_count, buf) = buffer_read_u8 B buf in
      if \<not> ok then Some (ATTACHMENT_PARSING_ERROR, buf, tx)
      else if att_count > 1 then Some (ATTACHMENT_PARSING_ERROR, buf, tx)
      else if att_count = 1 then
        (case read_text_field B buf (tx_att_name tx) (tx_att_name_len tx) (of_nat MAX_ATT_NAME_LEN) of
           None \<Rightarrow> None
         | Some (ok, buf, name, name_len) \<Rightarrow>
           let tx = tx\<lparr>tx_att_name := name, tx_att_name_len := name_len\<rparr> in
           if \<not> ok then Some (ATTACHMENT_PARSING_ERROR, buf, tx)
           else
             let (ok, att_sz, buf) = buffer_read_u32 B buf BE;
                 tx = tx\<lparr>tx_att_size := att_sz\<rparr> in
             if \<not> ok then Some (ATTACHMENT_PARSING_ERROR, buf, tx)
             else
               let tx = tx\<lparr>tx_att_hash := Some (buf_offset buf)\<rparr>;
                   (ok, buf) = buffer_seek_cur B buf ATT_HASH_LEN in
               if \<not> ok then Some (ATTACHMENT_PARSING_ERROR, buf, tx)
               else
                 let tx = tx\<lparr>tx_has_attachment := 1\<rparr> in
                 Some (if buf_offset buf = buf_size buf then PARSING_OK else WRONG_LENGTH_ERROR, buf, tx))
      else Some (if buf_offset buf = buf_size buf then PARSING_OK else WRONG_LENGTH_ERROR, buf, tx))"

definition deserialize_body ::
  "buffer_lib \<Rightarrow> buffer_t \<Rightarrow> email_t \<Rightarrow> (parser_status_e \<times> buffer_t \<times> email_t) option" where
  "deserialize_body B buf tx =
     (let (ok, body_len, buf) = buffer_read_u16 B buf BE in
      if \<not> ok then Some (BODY_PARSING_ERROR, buf, tx)
      else if body_len = 0 \<or> body_len > of_nat MAX_BODY_LEN then Some (BODY_PARSING_ERROR, buf, tx)
      else
        let tx = tx\<lparr>tx_body := Some (buf_offset buf)\<rparr>;
            (ok, buf) = buffer_seek_cur B buf (unat body_len) in
        if \<not> ok then Some (BODY_PARSING_ERROR, buf, tx)
        else (case text_ok (buf_ptr buf) (tx_body tx) (unat body_len) True of
                None \<Rightarrow> None
              | Some t \<Rightarrow>
                if \<not> t then Some (FIELD_ENCODING_ERROR, buf, tx)
                else deserialize_attachment B buf (tx\<lparr>tx_body_len := body_len\<rparr>)))"

definition transaction_deserialize ::
  "buffer_lib \<Rightarrow> buffer_t \<Rightarrow> email_t \<Rightarrow> bool \<Rightarrow> (parser_status_e \<times> buffer_t \<times> email_t) option" where
  "transaction_deserialize B buf tx is_token_transaction =
     (if buf_size buf > MAX_TX_LEN then Some (WRONG_LENGTH_ERROR, buf, tx)
      else
        let tx = tx\<lparr>tx_challenge := Some (buf_offset buf)\<rparr>;
            (ok, buf) = buffer_seek_cur B buf CHALLENGE_LEN in
        if \<not> ok then Some (CHALLENGE_PARSING_ERROR, buf, tx)
        else
        (case read_text_field B buf (tx_from tx) (tx_from_len tx) (of_nat MAX_FROM_LEN) of
           None \<Rightarrow> None
         | Some (ok, buf, f, l) \<Rightarrow>
           let tx = tx\<lparr>tx_from := f, tx_from_len := l\<rparr> in
           if \<not> ok then Some (FROM_PARSING_ERROR, buf, tx)
           else
        (case read_text_field B buf (tx_to tx) (tx_to_len tx) (of_nat MAX_TO_LEN) of
           None \<Rightarrow> None
         | Some (ok, buf, f, l) \<Rightarrow>
           let tx = tx\<lparr>tx_to := f, tx_to_len := l\<rparr> in
           if \<not> ok then Some (TO_PARSING_ERROR, buf, tx)
           else
        (case read_text_field B buf (tx_subject tx) (tx_subject_len tx) (of_nat MAX_SUBJECT_LEN) of
           None \<Rightarrow> None
         | Some (ok, buf, f, l) \<Rightarrow>
           let tx = tx\<lparr>tx_subject := f, tx_subject_len := l\<rparr> in
           if \<not> ok then Some (SUBJECT_PARSING_ERROR, buf, tx)
           else deserialize_body B buf tx))))"

section \<open>Reading the result\<close>

text \<open>The message a parsed \<open>email_t\<close> stands for, read through its pointers.\<close>

definition email_view :: "bytes \<Rightarrow> email_t \<Rightarrow> email" where
  "email_view mem tx =
     \<lparr>e_challenge = deref mem (tx_challenge tx) CHALLENGE_LEN,
      e_from = deref mem (tx_from tx) (unat (tx_from_len tx)),
      e_to = deref mem (tx_to tx) (unat (tx_to_len tx)),
      e_subject = deref mem (tx_subject tx) (unat (tx_subject_len tx)),
      e_body = deref mem (tx_body tx) (unat (tx_body_len tx)),
      e_attachment =
        (if tx_has_attachment tx \<noteq> 0
         then Some \<lparr>att_name = deref mem (tx_att_name tx) (unat (tx_att_name_len tx)),
                    att_size = tx_att_size tx,
                    att_hash = deref mem (tx_att_hash tx) ATT_HASH_LEN\<rparr>
         else None)\<rparr>"

definition ptr_in :: "nat \<Rightarrow> ptr \<Rightarrow> nat \<Rightarrow> bool" where
  "ptr_in n p len \<longleftrightarrow> (case p of None \<Rightarrow> False | Some off \<Rightarrow> off + len \<le> n)"

text \<open>All pointers of the message point into an object of \<open>n\<close> bytes, with their lengths.\<close>

definition tx_in :: "nat \<Rightarrow> email_t \<Rightarrow> bool" where
  "tx_in n tx \<longleftrightarrow>
     ptr_in n (tx_challenge tx) CHALLENGE_LEN \<and>
     ptr_in n (tx_from tx) (unat (tx_from_len tx)) \<and>
     ptr_in n (tx_to tx) (unat (tx_to_len tx)) \<and>
     ptr_in n (tx_subject tx) (unat (tx_subject_len tx)) \<and>
     ptr_in n (tx_body tx) (unat (tx_body_len tx)) \<and>
     (tx_has_attachment tx \<noteq> 0 \<longrightarrow>
        ptr_in n (tx_att_name tx) (unat (tx_att_name_len tx)) \<and>
        ptr_in n (tx_att_hash tx) ATT_HASH_LEN)"

text \<open>The verdict of the parser on a payload, as a decoder.\<close>

definition payload_buffer :: "bytes \<Rightarrow> buffer_t" where
  "payload_buffer bs = \<lparr>buf_ptr = bs, buf_size = length bs, buf_offset = 0\<rparr>"

definition deserialize_payload :: "buffer_lib \<Rightarrow> bytes \<Rightarrow> email option" where
  "deserialize_payload B bs =
     (case transaction_deserialize B (payload_buffer bs) zero_email False of
        None \<Rightarrow> None
      | Some (st, buf, tx) \<Rightarrow> if st = PARSING_OK then Some (email_view bs tx) else None)"

lemma ptr_in_Some [simp]: "ptr_in n (Some off) len \<longleftrightarrow> off + len \<le> n"
  by (simp add: ptr_in_def)

section \<open>Text fields\<close>

text \<open>The loop computes the character test on the bytes it covers, and never reads outside them.\<close>

lemma text_ok_loop_spec:
  "p + len \<le> length mem \<Longrightarrow> i \<le> len \<Longrightarrow>
   text_ok_loop mem p i len nl =
     Some (list_all (\<lambda>c. printable c \<or> (nl \<and> c = 10)) (slice mem (p + i) (len - i)))"
proof (induction mem p i len nl rule: text_ok_loop.induct)
  case (1 mem p i len nl)
  show ?case
  proof (cases "i < len")
    case False
    with "1.prems" show ?thesis by (subst text_ok_loop.simps) (simp add: slice_def)
  next
    case True
    let ?c = "mem ! (p + i)"
    from True "1.prems" have c: "mem_read mem (p + i) = Some ?c" by (simp add: mem_read_def)
    from True "1.prems" have sl: "slice mem (p + i) (len - i) = ?c # slice mem (p + Suc i) (len - Suc i)"
      using slice_Suc [of "p + i" mem "len - Suc i"] by (simp add: Suc_diff_Suc)
    have np: "printable ?c \<longleftrightarrow> \<not> (?c < 0x20 \<or> ?c > 0x7e)"
      by (auto simp: printable_def not_less)
    show ?thesis
      using True "1.prems" "1.IH" [OF True c]
      by (simp add: text_ok_loop.simps [of mem p i] c sl np)
  qed
qed

lemma text_ok_spec:
  "off + len \<le> length mem \<Longrightarrow>
   text_ok mem (Some off) len nl =
     Some (list_all (\<lambda>c. printable c \<or> (nl \<and> c = 10)) (slice mem off len))"
  using text_ok_loop_spec [of off len mem 0 nl] by (simp add: text_ok_def)

lemma read_text_field_ok:
  assumes B: "buffer_ok B" and wf: "buf_wf b"
    and p: "parse_text (unat mx) (buf_rest b) = Some (xs, r)"
  shows "read_text_field B b f fl mx =
           Some (True, advance (Suc (length xs)) b, Some (Suc (buf_offset b)), of_nat (length xs))"
    and "buf_wf (advance (Suc (length xs)) b)"
    and "buf_rest (advance (Suc (length xs)) b) = r"
    and "slice (buf_ptr b) (Suc (buf_offset b)) (length xs) = xs"
    and "Suc (buf_offset b) + length xs \<le> length (buf_ptr b)"
    and "unat (of_nat (length xs) :: u8) = length xs"
proof -
  from p have wfx: "text_field_wf (unat mx) xs" and rest: "buf_rest b = encode_text xs @ r"
    using parse_text_Some [of "unat mx"] by simp_all
  have left: "Suc (length xs) \<le> buf_left b"
    using arg_cong [OF rest, of length] wf by simp
  from wfx have "length xs \<le> unat mx" by (simp add: text_field_wf_def)
  then have l255: "length xs \<le> 255" using unat_u8_le by (rule order_trans)
  then show len: "unat (of_nat (length xs) :: u8) = length xs" by simp
  show wf': "buf_wf (advance (Suc (length xs)) b)" using wf left by simp
  show "buf_rest (advance (Suc (length xs)) b) = r"
    using wf left by (simp add: buf_rest_advance rest)
  have "slice (buf_ptr b) (Suc (buf_offset b)) (length xs) = take (length xs) (buf_rest (advance 1 b))"
    using buf_slice_rest [of "advance 1 b" "length xs"] wf left by simp
  then show sl: "slice (buf_ptr b) (Suc (buf_offset b)) (length xs) = xs"
    using wf left by (simp add: buf_rest_advance rest encode_text_def)
  show bnd: "Suc (buf_offset b) + length xs \<le> length (buf_ptr b)"
    using wf left by (auto simp: buf_wf_def buf_left_def)
  have t: "text_ok (buf_ptr b) (Some (Suc (buf_offset b))) (length xs) False = Some True"
    using text_ok_spec [OF bnd, of False] sl wfx by (simp add: text_field_wf_def)
  have hd: "buf_rest b ! 0 = of_nat (length xs)" by (simp add: rest encode_text_def)
  have "\<not> (of_nat (length xs) = (0 :: u8) \<or> of_nat (length xs) > mx)"
    using wfx len by (auto simp: text_field_wf_def word_less_nat_alt word_unat_eq_iff)
  then show "read_text_field B b f fl mx =
      Some (True, advance (Suc (length xs)) b, Some (Suc (buf_offset b)), of_nat (length xs))"
    using B wf left len t
    by (simp add: read_text_field_def sdk_rules hd Let_def)
qed

lemma read_text_field_fail:
  assumes B: "buffer_ok B" and wf: "buf_wf b"
    and p: "parse_text (unat mx) (buf_rest b) = None"
  shows "\<exists>b' f'. read_text_field B b f fl mx = Some (False, b', f', fl)"
proof (cases "1 \<le> buf_left b")
  case False
  then show ?thesis
    using buffer_read_u8_fail [OF B wf] by (auto simp: read_text_field_def split: prod.split)
next
  case True
  let ?l = "buf_rest b ! 0" and ?b1 = "advance 1 b"
  have u8: "buffer_read_u8 B b = (True, ?l, ?b1)" using B wf True by (simp add: sdk_rules)
  have wf1: "buf_wf ?b1" using wf True by simp
  have rest: "buf_rest b = ?l # buf_rest ?b1"
    using wf True length_buf_rest [OF wf]
    by (cases "buf_rest b") (auto simp: buf_rest_advance simp del: length_buf_rest)
  consider "?l = 0 \<or> ?l > mx" | "\<not> (?l = 0 \<or> ?l > mx)" "\<not> unat ?l \<le> buf_left ?b1"
    | "\<not> (?l = 0 \<or> ?l > mx)" "unat ?l \<le> buf_left ?b1" by blast
  then show ?thesis
  proof cases
    case 1
    then show ?thesis by (simp add: read_text_field_def u8)
  next
    case 2
    then show ?thesis
      using buffer_seek_cur_fail [OF B wf1 2(2)]
      by (auto simp: read_text_field_def u8 Let_def split: prod.split)
  next
    case 3
    have bnd: "buf_offset ?b1 + unat ?l \<le> length (buf_ptr b)"
      using wf1 3(2) by (auto simp: buf_wf_def buf_left_def)
    have "\<not> list_all printable (take (unat ?l) (buf_rest ?b1))"
      using p 3 wf1 rest
      by (auto simp: parse_text_def Let_def word_less_nat_alt word_unat_eq_iff
            split: list.splits if_splits)
    then have "text_ok (buf_ptr b) (Some (buf_offset ?b1)) (unat ?l) False = Some False"
      using text_ok_spec [OF bnd, of False] buf_slice_rest [OF wf1 3(2)] by simp
    then show ?thesis
      using 3 B wf1 by (simp add: read_text_field_def u8 sdk_rules)
  qed
qed

section \<open>Attachment and body\<close>

text \<open>A buffer is read to its end when nothing of its rest is left.\<close>

lemma at_end_iff:
  "buf_wf b \<Longrightarrow> n \<le> buf_left b \<Longrightarrow> buf_offset (advance n b) = buf_size (advance n b) \<longleftrightarrow> drop n (buf_rest b) = []"
  by (auto simp: buf_wf_def buf_left_def)

text \<open>Behind a present attachment's name are its size and hash.\<close>

lemma deserialize_attachment_present:
  assumes B: "buffer_ok B" and wf: "buf_wf b" and wfa: "wf_attachment a"
    and rest: "buf_rest b = encode_attachment (Some a) @ r"
  shows "\<exists>b' tx'. deserialize_attachment B b tx =
             Some (if r = [] then PARSING_OK else WRONG_LENGTH_ERROR, b', tx') \<and>
           tx_has_attachment tx' = 1 \<and> tx_to tx' = tx_to tx \<and>
           email_view (buf_ptr b) tx' = (email_view (buf_ptr b) tx)\<lparr>e_attachment := Some a\<rparr> \<and>
           (tx_in (length (buf_ptr b)) (tx\<lparr>tx_has_attachment := 0\<rparr>) \<longrightarrow> tx_in (length (buf_ptr b)) tx')"
proof -
  obtain w x y z where s: "be32_bytes (att_size a) = [w, x, y, z]" by (simp add: be32_bytes_def)
  let ?n = "length (att_name a)" and ?r1 = "w # x # y # z # att_hash a @ r" and ?b1 = "advance 1 b"
  from rest s have rest': "buf_rest b = 1 # encode_text (att_name a) @ ?r1" by (simp add: encode_attachment_def)
  from wfa have wfn: "text_field_wf MAX_ATT_NAME_LEN (att_name a)" and hl: "length (att_hash a) = 32"
    by (simp_all add: wf_attachment_def)
  have left1: "1 \<le> buf_left b" and wf1: "buf_wf ?b1" using arg_cong [OF rest', of length] wf by simp_all
  have "buf_rest ?b1 = encode_text (att_name a) @ ?r1" using wf left1 by (simp add: buf_rest_advance rest')
  then have "parse_text (unat (of_nat MAX_ATT_NAME_LEN :: u8)) (buf_rest ?b1) = Some (att_name a, ?r1)"
    using wfn by (simp add: parse_text_Some)
  note field = read_text_field_ok [OF B wf1 this]
  let ?b2 = "advance (Suc ?n) ?b1"
  have left2: "36 + length r \<le> buf_left ?b2" using arg_cong [OF field(3), of length] field(2) hl by simp
  then have left4: "4 \<le> buf_left ?b2" and left32: "32 \<le> buf_left (advance 4 ?b2)" by simp_all
  have wf3: "buf_wf (advance 4 ?b2)" using field(2) left4 by (rule buf_wf_advance)
  have "buf_rest (advance 4 ?b2) = att_hash a @ r" using buf_rest_advance [OF field(2) left4] field(3) by simp
  then have h: "slice (buf_ptr b) (buf_offset b + (6 + ?n)) 32 = att_hash a"
    using buf_slice_rest [OF wf3 left32] hl by (simp add: ac_simps)
  have hb: "buf_offset ?b2 + 4 + 32 \<le> length (buf_ptr b)"
    using field(2) left2 by (auto simp: buf_wf_def buf_left_def)
  have fin: "buf_offset b + (38 + ?n) = buf_size b \<longleftrightarrow> r = []"
    using at_end_iff [OF wf, of "38 + ?n"] left2 hl by (simp add: rest' encode_text_def)
  have u32: "buffer_read_u32 B ?b2 BE = (True, att_size a, advance 4 ?b2)"
    using B field(2,3) left2 be32_bytes_val [OF s] by (simp add: sdk_rules)
  have seek: "buffer_seek_cur B (advance 4 ?b2) 32 = (True, advance 32 (advance 4 ?b2))"
    using B wf3 left32 by (rule buffer_seek_cur_ok)
  have "buf_rest b ! 0 = 1" "Suc (Suc (buf_offset b)) + ?n \<le> length (buf_ptr b)"
    using field(5) by (simp_all add: rest')
  then show ?thesis
    using B wf left1 field(1) u32 seek fin h hb field(4,6)
    by (simp add: deserialize_attachment_def buffer_read_u8_ok Let_def email_view_def tx_in_def)
qed

lemma deserialize_attachment_ok:
  assumes B: "buffer_ok B" and wf: "buf_wf b"
    and p: "parse_attachment (buf_rest b) = Some (att, r)"
  shows "\<exists>b' tx'. deserialize_attachment B b tx =
             Some (if r = [] then PARSING_OK else WRONG_LENGTH_ERROR, b', tx') \<and>
           tx_has_attachment tx' = (case att of None \<Rightarrow> 0 | Some _ \<Rightarrow> 1) \<and> tx_to tx' = tx_to tx \<and>
           email_view (buf_ptr b) tx' = (email_view (buf_ptr b) tx)\<lparr>e_attachment := att\<rparr> \<and>
           (tx_in (length (buf_ptr b)) (tx\<lparr>tx_has_attachment := 0\<rparr>) \<longrightarrow> tx_in (length (buf_ptr b)) tx')"
proof (cases att)
  case None
  then have rest: "buf_rest b = 0 # r" using p by (simp add: parse_attachment_Some encode_attachment_def)
  have "1 \<le> buf_left b" using arg_cong [OF rest, of length] wf by simp
  with None B wf at_end_iff [OF wf this] rest show ?thesis
    by (auto simp: deserialize_attachment_def sdk_rules Let_def email_view_def tx_in_def)
next
  case (Some a)
  with p show ?thesis using deserialize_attachment_present [OF B wf, of a r tx] by (simp add: parse_attachment_Some)
qed

text \<open>Fewer bytes than a size and a hash behind the name.\<close>

lemma deserialize_attachment_cut:
  assumes B: "buffer_ok B" and u8: "buffer_read_u8 B b = (True, 1, b1)"
    and field: "read_text_field B b1 None 0 (of_nat MAX_ATT_NAME_LEN) = Some (True, b2, f, l)"
    and wf: "buf_wf b2" and short: "buf_left b2 < 36"
  shows "\<exists>b' tx'. deserialize_attachment B b tx = Some (ATTACHMENT_PARSING_ERROR, b', tx')"
proof (cases "4 \<le> buf_left b2")
  case False
  then show ?thesis
    using buffer_read_u32_fail [OF B wf] field
    by (auto simp: deserialize_attachment_def u8 Let_def split: prod.split)
next
  case True
  have "buf_wf (advance 4 b2)" using wf True by (rule buf_wf_advance)
  then have "\<not> fst (buffer_seek_cur B (advance 4 b2) 32)"
    using short by (intro buffer_seek_cur_fail [OF B]) simp_all
  then show ?thesis
    using buffer_read_u32_ok [OF B wf True] field
    by (auto simp: deserialize_attachment_def u8 Let_def split: prod.split)
qed

lemma deserialize_attachment_fail:
  assumes B: "buffer_ok B" and wf: "buf_wf b"
    and p: "parse_attachment (buf_rest b) = None"
  shows "\<exists>b' tx'. deserialize_attachment B b tx = Some (ATTACHMENT_PARSING_ERROR, b', tx')"
proof (cases "1 \<le> buf_left b")
  case False
  then show ?thesis
    using buffer_read_u8_fail [OF B wf] by (auto simp: deserialize_attachment_def Let_def split: prod.split)
next
  case True
  let ?b1 = "advance 1 b"
  have u8: "buffer_read_u8 B b = (True, buf_rest b ! 0, ?b1)" using B wf True by (simp add: sdk_rules)
  have wf1: "buf_wf ?b1" using wf True by simp
  have rest: "buf_rest b = buf_rest b ! 0 # buf_rest ?b1"
    using wf True length_buf_rest [OF wf]
    by (cases "buf_rest b") (auto simp: buf_rest_advance simp del: length_buf_rest)
  consider "buf_rest b ! 0 \<noteq> 1"
    | "buf_rest b ! 0 = 1" "parse_text (unat (of_nat MAX_ATT_NAME_LEN :: u8)) (buf_rest ?b1) = None"
    | name r1 where "buf_rest b ! 0 = 1" "parse_text (unat (of_nat MAX_ATT_NAME_LEN :: u8)) (buf_rest ?b1) = Some (name, r1)"
    by (metis option.exhaust surj_pair)
  then show ?thesis
  proof cases
    case 1
    then have "buf_rest b ! 0 > 1"
      using p rest by (auto simp: parse_attachment_def split: list.splits if_splits)
    then show ?thesis by (simp add: deserialize_attachment_def u8)
  next
    case 2
    from read_text_field_fail [OF B wf1 2(2)] obtain b' f' where
      "read_text_field B ?b1 None 0 (of_nat MAX_ATT_NAME_LEN) = Some (False, b', f', 0)" by blast
    then show ?thesis by (simp add: deserialize_attachment_def u8 2(1))
  next
    case 3
    note field = read_text_field_ok [OF B wf1 3(2)]
    have "buf_left (advance (Suc (length name)) ?b1) < 36"
      using p 3 rest arg_cong [OF field(3), of length] field(2)
      by (auto simp: parse_attachment_def split: list.splits option.splits if_splits)
    then show ?thesis by (rule deserialize_attachment_cut [OF B u8 [unfolded 3(1)] field(1,2)])
  qed
qed

lemma deserialize_body_ok:
  assumes B: "buffer_ok B" and wf: "buf_wf b" and p: "parse_body (buf_rest b) = Inr (xs, r)"
  shows "deserialize_body B b tx =
           deserialize_attachment B (advance (2 + length xs) b)
             (tx\<lparr>tx_body := Some (buf_offset b + 2), tx_body_len := of_nat (length xs)\<rparr>)"
    and "buf_wf (advance (2 + length xs) b)"
    and "buf_rest (advance (2 + length xs) b) = r"
    and "slice (buf_ptr b) (buf_offset b + 2) (length xs) = xs"
    and "buf_offset b + 2 + length xs \<le> length (buf_ptr b)"
    and "unat (of_nat (length xs) :: u16) = length xs"
proof -
  from p have x: "xs \<noteq> []" "length xs \<le> MAX_BODY_LEN" "list_all body_char xs"
    and rest: "buf_rest b = encode_body xs @ r" by (simp_all add: parse_body_Inr)
  obtain a c where ac: "be16_bytes (of_nat (length xs)) = [a, c]" by (simp add: be16_bytes_def)
  have rest': "buf_rest b = a # c # xs @ r" by (simp add: rest encode_body_def ac)
  have left: "2 + length xs \<le> buf_left b" using arg_cong [OF rest', of length] wf by simp
  show len: "unat (of_nat (length xs) :: u16) = length xs" using x(2) by (intro of_nat_val16) simp
  show "buf_wf (advance (2 + length xs) b)" using wf left by simp
  show "buf_rest (advance (2 + length xs) b) = r"
    using buf_rest_advance [OF wf left] by (simp add: rest')
  have wf2: "buf_wf (advance 2 b)" and left2: "length xs \<le> buf_left (advance 2 b)"
    using wf left by simp_all
  have "buf_rest (advance 2 b) = xs @ r" using buf_rest_advance [OF wf, of 2] left by (simp add: rest')
  then show sl: "slice (buf_ptr b) (buf_offset b + 2) (length xs) = xs"
    using buf_slice_rest [OF wf2 left2] by simp
  show bnd: "buf_offset b + 2 + length xs \<le> length (buf_ptr b)"
    using wf left by (auto simp: buf_wf_def buf_left_def)
  have "list_all (\<lambda>c. printable c \<or> c = 10) xs" using x(3) by (simp add: body_char_def [abs_def])
  then have t: "text_ok (buf_ptr b) (Some (buf_offset b + 2)) (length xs) True = Some True"
    using text_ok_spec [OF bnd, of True] sl by simp
  have "\<not> (of_nat (length xs) = (0 :: u16) \<or> of_nat (length xs) > (of_nat MAX_BODY_LEN :: u16))"
    using x len by (simp add: word_less_nat_alt word_unat_eq_iff)
  moreover have "buffer_read_u16 B b BE = (True, of_nat (length xs), advance 2 b)"
    using B wf left be16_bytes_val [OF ac] by (simp add: sdk_rules rest')
  moreover have "buffer_seek_cur B (advance 2 b) (length xs) = (True, advance (2 + length xs) b)"
    using buffer_seek_cur_ok [OF B wf2 left2] by simp
  ultimately show "deserialize_body B b tx =
      deserialize_attachment B (advance (2 + length xs) b)
        (tx\<lparr>tx_body := Some (buf_offset b + 2), tx_body_len := of_nat (length xs)\<rparr>)"
    using len t by (simp add: deserialize_body_def Let_def)
qed

lemma deserialize_body_fail:
  assumes B: "buffer_ok B" and wf: "buf_wf b" and p: "parse_body (buf_rest b) = Inl s"
  shows "\<exists>b' tx'. deserialize_body B b tx = Some (s, b', tx')"
proof (cases "2 \<le> buf_left b")
  case False
  then have "length (buf_rest b) < 2" using wf by simp
  then have "s = BODY_PARSING_ERROR" using p by (auto simp: parse_body_def split: list.splits)
  then show ?thesis
    using buffer_read_u16_fail [OF B wf False] by (auto simp: deserialize_body_def split: prod.split)
next
  case True
  let ?b1 = "advance 2 b"
  have wf1: "buf_wf ?b1" using wf True by simp
  have "2 \<le> length (buf_rest b)" using wf True by simp
  then obtain a c t where rest: "buf_rest b = a # c # t"
    by (metis Suc_le_length_iff numeral_2_eq_2)
  let ?n = "be16_val a c"
  have t: "buf_rest ?b1 = t" using buf_rest_advance [OF wf True] by (simp add: rest)
  then have lt: "length t = buf_left ?b1" using length_buf_rest [OF wf1] by simp
  have u16: "buffer_read_u16 B b BE = (True, ?n, ?b1)" using B wf True by (simp add: sdk_rules rest)
  have big: "?n > of_nat MAX_BODY_LEN \<longleftrightarrow> unat ?n > MAX_BODY_LEN"
    by (simp add: word_less_nat_alt)
  consider "?n = 0 \<or> ?n > of_nat MAX_BODY_LEN"
    | "\<not> (?n = 0 \<or> ?n > of_nat MAX_BODY_LEN)" "\<not> unat ?n \<le> buf_left ?b1"
    | "\<not> (?n = 0 \<or> ?n > of_nat MAX_BODY_LEN)" "unat ?n \<le> buf_left ?b1" by blast
  then show ?thesis
  proof cases
    case 1
    then have "s = BODY_PARSING_ERROR"
      using p big by (auto simp: parse_body_def rest Let_def split: if_splits)
    with 1 show ?thesis by (auto simp: deserialize_body_def u16)
  next
    case 2
    then have "s = BODY_PARSING_ERROR"
      using p lt by (auto simp: parse_body_def rest Let_def split: if_splits)
    then show ?thesis
      using 2 buffer_seek_cur_fail [OF B wf1 2(2)]
      by (auto simp: deserialize_body_def u16 Let_def split: prod.split)
  next
    case 3
    then have s: "s = FIELD_ENCODING_ERROR" and bad: "\<not> list_all body_char (take (unat ?n) t)"
      using p lt big by (auto simp: parse_body_def rest Let_def word_unat_eq_iff split: if_splits)
    have bnd: "buf_offset ?b1 + unat ?n \<le> length (buf_ptr b)"
      using wf1 3(2) by (auto simp: buf_wf_def buf_left_def)
    have "text_ok (buf_ptr b) (Some (buf_offset ?b1)) (unat ?n) True = Some False"
      using text_ok_spec [OF bnd, of True] buf_slice_rest [OF wf1 3(2)] bad t
      by (simp add: body_char_def [abs_def])
    then show ?thesis
      using 3(1) buffer_seek_cur_ok [OF B wf1 3(2)] s
      by (auto simp: deserialize_body_def u16 Let_def)
  qed
qed

section \<open>The whole parser\<close>

text \<open>A payload that is too long is refused before anything is read.\<close>

lemma deserialize_too_long:
  "buf_size b > MAX_TX_LEN \<Longrightarrow> transaction_deserialize B b tx t = Some (WRONG_LENGTH_ERROR, b, tx)"
  by (simp add: transaction_deserialize_def)

text \<open>The three header fields.\<close>

lemma deserialize_headers_fail:
  assumes B: "buffer_ok B" and wf: "buf_wf b" and size: "buf_size b \<le> MAX_TX_LEN"
    and p: "parse_headers (buf_rest b) = Inl s"
  shows "\<exists>b' tx'. transaction_deserialize B b tx t = Some (s, b', tx')"
proof (cases "CHALLENGE_LEN \<le> buf_left b")
  case False
  then show ?thesis
    using size buffer_seek_cur_fail [OF B wf False] wf p
    by (auto simp: transaction_deserialize_def parse_headers_def Let_def split: prod.split if_splits)
next
  case True
  let ?b0 = "advance 16 b" and ?u = "\<lambda>n. unat (of_nat n :: u8)"
  have wf0: "buf_wf ?b0" and rest0: "buf_rest ?b0 = drop 16 (buf_rest b)"
    using wf True by (simp_all add: buf_rest_advance)
  have seek: "buffer_seek_cur B b 16 = (True, ?b0)" using B wf True by (rule buffer_seek_cur_ok)
  have long: "\<not> length (buf_rest b) < 16" using wf True by simp
  note defs = transaction_deserialize_def Let_def
  show ?thesis
  proof (cases "parse_text (?u 128) (buf_rest ?b0)")
    case None
    from read_text_field_fail [OF B wf0 None, of "tx_from tx" "tx_from_len tx"] obtain b' f' where
      "read_text_field B ?b0 (tx_from tx) (tx_from_len tx) (of_nat 128) = Some (False, b', f', tx_from_len tx)"
      by blast
    moreover have "s = FROM_PARSING_ERROR" using p long None by (simp add: parse_headers_def rest0)
    ultimately show ?thesis using size seek by (simp add: defs)
  next
    case (Some q1)
    then obtain frm r1 where q1: "parse_text (?u 128) (buf_rest ?b0) = Some (frm, r1)" by (cases q1) auto
    note f = read_text_field_ok [OF B wf0 q1]
    let ?b1 = "advance (Suc (length frm)) ?b0"
    show ?thesis
    proof (cases "parse_text (?u 128) (buf_rest ?b1)")
      case None
      from read_text_field_fail [OF B f(2) None, of "tx_to tx" "tx_to_len tx"] obtain b' f' where
        "read_text_field B ?b1 (tx_to tx) (tx_to_len tx) (of_nat 128) = Some (False, b', f', tx_to_len tx)"
        by blast
      moreover have "s = TO_PARSING_ERROR"
        using p long q1 f(3) None by (simp add: parse_headers_def rest0 del: advance_advance)
      ultimately show ?thesis using size seek f(1) by (simp add: defs del: advance_advance)
    next
      case (Some q2)
      then obtain to r2 where q2: "parse_text (?u 128) (buf_rest ?b1) = Some (to, r2)" by (cases q2) auto
      note g = read_text_field_ok [OF B f(2) q2]
      let ?b2 = "advance (Suc (length to)) ?b1"
      have q3: "parse_text (?u 200) (buf_rest ?b2) = None" and "s = SUBJECT_PARSING_ERROR"
        using p long q1 q2 f(3) g(3)
        by (auto simp: parse_headers_def rest0 split: option.splits simp del: advance_advance)
      moreover from read_text_field_fail [OF B g(2) q3, of "tx_subject tx" "tx_subject_len tx"]
      obtain b' f' where "read_text_field B ?b2 (tx_subject tx) (tx_subject_len tx) (of_nat 200)
          = Some (False, b', f', tx_subject_len tx)" by blast
      ultimately show ?thesis using size seek f(1) g(1) by (simp add: defs del: advance_advance)
    qed
  qed
qed

lemma deserialize_headers_ok:
  assumes B: "buffer_ok B" and wf: "buf_wf b" and size: "buf_size b \<le> MAX_TX_LEN"
    and p: "parse_headers (buf_rest b) = Inr (frm, to, sb, r)"
  shows "\<exists>b3 tx3. transaction_deserialize B b tx t = deserialize_body B b3 tx3 \<and>
           buf_ptr b3 = buf_ptr b \<and> buf_wf b3 \<and> buf_rest b3 = r \<and>
           deref (buf_ptr b) (tx_challenge tx3) CHALLENGE_LEN = take CHALLENGE_LEN (buf_rest b) \<and>
           deref (buf_ptr b) (tx_from tx3) (unat (tx_from_len tx3)) = frm \<and>
           deref (buf_ptr b) (tx_to tx3) (unat (tx_to_len tx3)) = to \<and>
           tx_to tx3 = Some (buf_offset b + (18 + length frm)) \<and>
           deref (buf_ptr b) (tx_subject tx3) (unat (tx_subject_len tx3)) = sb \<and>
           ptr_in (length (buf_ptr b)) (tx_challenge tx3) CHALLENGE_LEN \<and>
           ptr_in (length (buf_ptr b)) (tx_from tx3) (unat (tx_from_len tx3)) \<and>
           ptr_in (length (buf_ptr b)) (tx_to tx3) (unat (tx_to_len tx3)) \<and>
           ptr_in (length (buf_ptr b)) (tx_subject tx3) (unat (tx_subject_len tx3))"
proof -
  let ?b0 = "advance 16 b" and ?u = "\<lambda>n. unat (of_nat n :: u8)"
  from p have h: "16 \<le> length (buf_rest b)" "text_field_wf 128 frm" "text_field_wf 128 to"
    "text_field_wf 200 sb" "drop 16 (buf_rest b) = encode_text frm @ encode_text to @ encode_text sb @ r"
    by (simp_all add: parse_headers_Inr)
  have left: "16 \<le> buf_left b" using h(1) wf by simp
  have wf0: "buf_wf ?b0" and rest0: "buf_rest ?b0 = drop 16 (buf_rest b)"
    using wf left by (simp_all add: buf_rest_advance)
  have chal: "slice (buf_ptr b) (buf_offset b) 16 = take 16 (buf_rest b)"
    and chalb: "buf_offset b + 16 \<le> length (buf_ptr b)"
    using buf_slice_rest [OF wf left] wf left by (auto simp: buf_wf_def buf_left_def)
  have "parse_text (?u 128) (buf_rest ?b0) = Some (frm, encode_text to @ encode_text sb @ r)"
    using h rest0 by (simp add: parse_text_Some)
  note f = read_text_field_ok [OF B wf0 this]
  let ?b1 = "advance (Suc (length frm)) ?b0"
  have "parse_text (?u 128) (buf_rest ?b1) = Some (to, encode_text sb @ r)"
    using h(3) f(3) by (simp add: parse_text_Some)
  note g = read_text_field_ok [OF B f(2) this]
  let ?b2 = "advance (Suc (length to)) ?b1"
  have "parse_text (?u 200) (buf_rest ?b2) = Some (sb, r)"
    using h(4) g(3) by (simp add: parse_text_Some)
  note k = read_text_field_ok [OF B g(2) this]
  define tx3 where "tx3 = tx\<lparr>tx_challenge := Some (buf_offset b),
    tx_from := Some (Suc (buf_offset ?b0)), tx_from_len := of_nat (length frm),
    tx_to := Some (Suc (buf_offset ?b1)), tx_to_len := of_nat (length to),
    tx_subject := Some (Suc (buf_offset ?b2)), tx_subject_len := of_nat (length sb)\<rparr>"
  let ?b3 = "advance (Suc (length sb)) ?b2"
  have "transaction_deserialize B b tx t = deserialize_body B ?b3 tx3"
    using size buffer_seek_cur_ok [OF B wf left] f(1) g(1) k(1)
    by (simp add: transaction_deserialize_def Let_def tx3_def del: advance_advance)
  then show ?thesis
    by (intro exI [of _ ?b3] exI [of _ tx3] conjI)
       (use chal chalb f(4-6) g(4-6) k(2-6) in \<open>simp_all add: tx3_def\<close>)
qed

text \<open>Where the recipient starts in the encoding of a message: after the challenge, the sender with
  its length, and its own length.\<close>

definition recipient_offset :: "email \<Rightarrow> nat" where
  "recipient_offset e = 18 + length (e_from e)"

text \<open>Body and attachment, behind headers whose pointers are inside the payload.\<close>

definition headers_in :: "nat \<Rightarrow> email_t \<Rightarrow> bool" where
  "headers_in n tx \<longleftrightarrow> ptr_in n (tx_challenge tx) CHALLENGE_LEN \<and> ptr_in n (tx_from tx) (unat (tx_from_len tx)) \<and>
     ptr_in n (tx_to tx) (unat (tx_to_len tx)) \<and> ptr_in n (tx_subject tx) (unat (tx_subject_len tx))"

lemma deserialize_body_refines:
  assumes B: "buffer_ok B" and wf: "buf_wf b" and inb: "headers_in (length (buf_ptr b)) tx"
  shows "\<exists>b' tx'. deserialize_body B b tx =
             Some (case parse_body (buf_rest b) of
                     Inl s \<Rightarrow> s
                   | Inr (body, r) \<Rightarrow>
                       (case parse_attachment r of
                          None \<Rightarrow> ATTACHMENT_PARSING_ERROR
                        | Some (att, r') \<Rightarrow> if r' = [] then PARSING_OK else WRONG_LENGTH_ERROR), b', tx') \<and>
           (\<forall>body r att r'. parse_body (buf_rest b) = Inr (body, r) \<and> parse_attachment r = Some (att, r') \<longrightarrow>
              email_view (buf_ptr b) tx' = (email_view (buf_ptr b) tx)\<lparr>e_body := body, e_attachment := att\<rparr> \<and>
              tx_in (length (buf_ptr b)) tx' \<and> tx_to tx' = tx_to tx \<and>
              tx_has_attachment tx' = (case att of None \<Rightarrow> 0 | Some _ \<Rightarrow> 1))"
proof (cases "parse_body (buf_rest b)")
  case (Inl s)
  then show ?thesis using deserialize_body_fail [OF B wf Inl, of tx] by auto
next
  case (Inr q)
  then obtain body r where bd: "parse_body (buf_rest b) = Inr (body, r)" by (cases q) auto
  note k = deserialize_body_ok [OF B wf bd]
  let ?tx = "tx\<lparr>tx_body := Some (buf_offset b + 2), tx_body_len := of_nat (length body)\<rparr>"
  have view: "(email_view (buf_ptr b) ?tx)\<lparr>e_attachment := a\<rparr> = (email_view (buf_ptr b) tx)\<lparr>e_body := body, e_attachment := a\<rparr>" for a
    using k(4,6) by (simp add: email_view_def)
  have inb': "tx_in (length (buf_ptr b)) (?tx\<lparr>tx_has_attachment := 0\<rparr>)"
    using inb k(5,6) by (simp add: tx_in_def headers_in_def)
  show ?thesis
  proof (cases "parse_attachment r")
    case None
    then show ?thesis using deserialize_attachment_fail [OF B k(2), of ?tx] k(1,3) bd by auto
  next
    case (Some q)
    then obtain att r' where at: "parse_attachment (buf_rest (advance (2 + length body) b)) = Some (att, r')"
      using k(3) by (cases q) auto
    from deserialize_attachment_ok [OF B k(2) at, of ?tx] inb' k(1,3) view bd at show ?thesis by auto
  qed
qed

text \<open>Refinement: the verdict is the one of the reference reader, whatever the state of the
  buffer, of the output structure and of the token flag.\<close>

lemma deserialize_refines_parse_email:
  assumes B: "buffer_ok B" and wf: "buf_wf b" and size: "buf_size b \<le> MAX_TX_LEN"
  shows "\<exists>b' tx'. transaction_deserialize B b tx t =
             Some (case parse_email (buf_rest b) of Inl s \<Rightarrow> s | Inr _ \<Rightarrow> PARSING_OK, b', tx') \<and>
           (\<forall>e. parse_email (buf_rest b) = Inr e \<longrightarrow>
              email_view (buf_ptr b) tx' = e \<and> tx_in (length (buf_ptr b)) tx' \<and>
              tx_to tx' = Some (buf_offset b + recipient_offset e) \<and>
              tx_has_attachment tx' = (case e_attachment e of None \<Rightarrow> 0 | Some _ \<Rightarrow> 1))"
proof (cases "parse_headers (buf_rest b)")
  case (Inl s)
  then show ?thesis
    using deserialize_headers_fail [OF B wf size Inl, of tx t] by (auto simp: parse_email_def)
next
  case (Inr q)
  then obtain frm to sb r where hd: "parse_headers (buf_rest b) = Inr (frm, to, sb, r)" by (cases q) auto
  from deserialize_headers_ok [OF B wf size hd, of tx t] obtain b3 tx3 where
    run: "transaction_deserialize B b tx t = deserialize_body B b3 tx3"
    and b3: "buf_ptr b3 = buf_ptr b" "buf_wf b3" "buf_rest b3 = r" "headers_in (length (buf_ptr b3)) tx3"
    and view: "deref (buf_ptr b) (tx_challenge tx3) 16 = take 16 (buf_rest b)"
      "deref (buf_ptr b) (tx_from tx3) (unat (tx_from_len tx3)) = frm"
      "deref (buf_ptr b) (tx_to tx3) (unat (tx_to_len tx3)) = to"
      "deref (buf_ptr b) (tx_subject tx3) (unat (tx_subject_len tx3)) = sb"
    and at_to: "tx_to tx3 = Some (buf_offset b + (18 + length frm))" by (auto simp: headers_in_def)
  have "(email_view (buf_ptr b) tx3)\<lparr>e_body := body, e_attachment := a\<rparr> =
      \<lparr>e_challenge = take 16 (buf_rest b), e_from = frm, e_to = to, e_subject = sb, e_body = body, e_attachment = a\<rparr>" for body a
    using view by (simp add: email_view_def)
  with deserialize_body_refines [OF B b3(2,4)] run hd b3(1,3) at_to show ?thesis
    by (fastforce simp: parse_email_def recipient_offset_def split: sum.splits option.splits prod.splits)
qed

section \<open>The parser as a codec\<close>

lemma payload_buffer_simps [simp]:
  "buf_wf (payload_buffer bs)" "buf_rest (payload_buffer bs) = bs"
  "buf_ptr (payload_buffer bs) = bs" "buf_size (payload_buffer bs) = length bs"
  "buf_offset (payload_buffer bs) = 0"
  by (simp_all add: payload_buffer_def buf_wf_def buf_rest_def buf_left_def)

lemma parse_email_never_ok: "parse_email bs \<noteq> Inl PARSING_OK"
  by (auto simp: parse_email_def parse_headers_def parse_body_def Let_def
        split: option.splits sum.splits list.splits if_splits)

lemma deserialize_payload_parse:
  "buffer_ok B \<Longrightarrow> length bs \<le> MAX_TX_LEN \<Longrightarrow>
   deserialize_payload B bs = (case parse_email bs of Inl _ \<Rightarrow> None | Inr e \<Rightarrow> Some e)"
proof -
  assume "buffer_ok B" "length bs \<le> MAX_TX_LEN"
  then show ?thesis
    using deserialize_refines_parse_email [of B "payload_buffer bs" zero_email False]
      parse_email_never_ok [of bs]
    by (auto simp: deserialize_payload_def split: sum.splits)
qed

interpretation c_codec: wire_codec buffer_ok wf_email "\<lambda>bs. length bs \<le> MAX_TX_LEN" encode_email
  deserialize_payload
  by unfold_locales (auto simp: deserialize_payload_parse parse_email_Inr [symmetric] split: sum.splits)

section \<open>Properties of the parser\<close>

lemma deserialize_sound:
  assumes "buffer_ok B" and "buf_wf b"
    and "transaction_deserialize B b tx t = Some (PARSING_OK, b', tx')"
  shows "buf_size b \<le> MAX_TX_LEN" and "wf_email (email_view (buf_ptr b) tx')"
    and "buf_rest b = encode_email (email_view (buf_ptr b) tx')"
    and "tx_in (length (buf_ptr b)) tx'"
proof -
  show size: "buf_size b \<le> MAX_TX_LEN"
    using assms(3) deserialize_too_long [of b B tx t] by (cases "buf_size b > MAX_TX_LEN") auto
  obtain e where e: "parse_email (buf_rest b) = Inr e"
    using deserialize_refines_parse_email [OF assms(1,2) size, of tx t] assms(3)
      parse_email_never_ok [of "buf_rest b"]
    by (cases "parse_email (buf_rest b)") auto
  have view: "email_view (buf_ptr b) tx' = e" "tx_in (length (buf_ptr b)) tx'"
    using deserialize_refines_parse_email [OF assms(1,2) size, of tx t] assms(3) e by auto
  then show "wf_email (email_view (buf_ptr b) tx')" "buf_rest b = encode_email (email_view (buf_ptr b) tx')"
    "tx_in (length (buf_ptr b)) tx'"
    using e by (simp_all add: parse_email_Inr)
qed

lemma deserialize_complete:
  assumes "buffer_ok B" and "buf_wf b" and "buf_size b \<le> MAX_TX_LEN"
    and "wf_email e" and "buf_rest b = encode_email e"
  shows "\<exists>b' tx'. transaction_deserialize B b tx t = Some (PARSING_OK, b', tx') \<and>
           email_view (buf_ptr b) tx' = e \<and> tx_in (length (buf_ptr b)) tx'"
proof -
  have "parse_email (buf_rest b) = Inr e" using assms(4,5) by (simp add: parse_email_Inr)
  then show ?thesis
    using deserialize_refines_parse_email [OF assms(1-3), of tx t] by auto
qed

lemma deserialize_sample:
  obtains b' tx' where "transaction_deserialize ref_buffer_lib
      (payload_buffer (encode_email sample_attachment_email)) zero_email False = Some (PARSING_OK, b', tx')"
    and "email_view (encode_email sample_attachment_email) tx' = sample_attachment_email"
  using deserialize_complete [of ref_buffer_lib "payload_buffer (encode_email sample_attachment_email)"
      sample_attachment_email zero_email False] wf_sample_attachment_email length_sample_attachment_email
  by auto

lemma email_fields_clean:
  assumes "wf_email e" and "c \<in> set (e_from e) \<union> set (e_to e) \<union> set (e_subject e)
      \<union> (case e_attachment e of None \<Rightarrow> {} | Some a \<Rightarrow> set (att_name a))"
  shows "printable c"
  using assms
  by (auto simp: wf_email_def text_field_wf_def wf_attachment_def list_all_iff split: option.splits)

text \<open>C6. The parser accepts a payload exactly when it is the encoding of a well-formed message,
  and then its pointers read back that message. In particular one payload has one reading, and
  every well-formed message that fits the buffer is accepted.\<close>

theorem deserialize_accepts_exactly_the_format:
  assumes "buffer_ok B" and "length bs \<le> MAX_TX_LEN"
  shows "(\<exists>b' tx'. transaction_deserialize B (payload_buffer bs) tx t = Some (PARSING_OK, b', tx')
            \<and> email_view bs tx' = e)
         \<longleftrightarrow> wf_email e \<and> bs = encode_email e"
proof
  assume "\<exists>b' tx'. transaction_deserialize B (payload_buffer bs) tx t = Some (PARSING_OK, b', tx')
            \<and> email_view bs tx' = e"
  then show "wf_email e \<and> bs = encode_email e"
    using deserialize_sound [OF assms(1), of "payload_buffer bs" tx t] by auto
next
  assume "wf_email e \<and> bs = encode_email e"
  then show "\<exists>b' tx'. transaction_deserialize B (payload_buffer bs) tx t = Some (PARSING_OK, b', tx')
            \<and> email_view bs tx' = e"
    using deserialize_complete [OF assms(1), of "payload_buffer bs" e tx t] assms(2) by auto
qed

theorem deserialize_accepts_exactly_the_format_witness:
  "\<exists>b' tx'. transaction_deserialize ref_buffer_lib (payload_buffer (encode_email sample_attachment_email))
       zero_email False = Some (PARSING_OK, b', tx')
     \<and> email_view (encode_email sample_attachment_email) tx' = sample_attachment_email"
  using deserialize_accepts_exactly_the_format
    [of ref_buffer_lib "encode_email sample_attachment_email" zero_email False sample_attachment_email]
    wf_sample_attachment_email length_sample_attachment_email by simp

text \<open>C12. On any well-formed buffer, at any cursor position, whatever the output structure held
  before: the parser performs no read outside the payload (it returns), its status is the one of
  the left-to-right grammar of the format, with the error code of the first field that does not
  fit, and an oversized payload is refused with the length error.\<close>

theorem deserialize_refines_grammar:
  assumes "buffer_ok B" and "buf_wf b"
  shows "\<exists>b' tx'. transaction_deserialize B b tx t =
           Some (if buf_size b > MAX_TX_LEN then WRONG_LENGTH_ERROR
                 else (case parse_email (buf_rest b) of Inl s \<Rightarrow> s | Inr _ \<Rightarrow> PARSING_OK), b', tx')"
proof (cases "buf_size b > MAX_TX_LEN")
  case True
  then show ?thesis by (simp add: deserialize_too_long)
next
  case False
  then show ?thesis using deserialize_refines_parse_email [OF assms, of tx t] by auto
qed

theorem deserialize_refines_grammar_witness:
  "\<exists>b' tx'. transaction_deserialize ref_buffer_lib (payload_buffer (replicate 17 0)) zero_email True =
     Some (FROM_PARSING_ERROR, b', tx')"
proof -
  have "parse_email (replicate 17 0) = Inl FROM_PARSING_ERROR" by code_simp
  then show ?thesis
    using deserialize_refines_grammar [of ref_buffer_lib "payload_buffer (replicate 17 0)" zero_email True]
    by simp
qed

text \<open>No header injection and no hidden control characters: in an accepted message every byte
  of From, To, Subject and of the attachment name is printable ASCII, so none is a line break or
  a NUL, and every byte of the body is printable ASCII or a line feed, never a carriage return.\<close>

theorem accepted_fields_are_printable:
  assumes "buffer_ok B"
    and ok: "transaction_deserialize B (payload_buffer bs) tx t = Some (PARSING_OK, b', tx')"
  shows "(\<forall>c \<in> set (deref bs (tx_from tx') (unat (tx_from_len tx')))
             \<union> set (deref bs (tx_to tx') (unat (tx_to_len tx')))
             \<union> set (deref bs (tx_subject tx') (unat (tx_subject_len tx'))). 0x20 \<le> c \<and> c \<le> 0x7e) \<and>
         (tx_has_attachment tx' \<noteq> 0 \<longrightarrow>
            (\<forall>c \<in> set (deref bs (tx_att_name tx') (unat (tx_att_name_len tx'))). 0x20 \<le> c \<and> c \<le> 0x7e)) \<and>
         (\<forall>c \<in> set (deref bs (tx_body tx') (unat (tx_body_len tx'))). 0x20 \<le> c \<and> c \<le> 0x7e \<or> c = 10)"
proof -
  let ?e = "email_view bs tx'"
  have wf: "wf_email ?e" using deserialize_sound(2) [OF assms(1) _ ok] by simp
  then have "\<forall>c \<in> set (e_body ?e). body_char c" by (simp add: wf_email_def list_all_iff)
  then show ?thesis
    using email_fields_clean [OF wf] by (auto simp: email_view_def printable_def body_char_def)
qed

theorem accepted_fields_are_printable_witness:
  "\<exists>b' tx'. transaction_deserialize ref_buffer_lib (payload_buffer (encode_email sample_attachment_email))
       zero_email False = Some (PARSING_OK, b', tx')
     \<and> (\<forall>c \<in> set (deref (encode_email sample_attachment_email) (tx_from tx') (unat (tx_from_len tx'))).
          0x20 \<le> c \<and> c \<le> 0x7e)"
proof -
  obtain b' tx' where "transaction_deserialize ref_buffer_lib
      (payload_buffer (encode_email sample_attachment_email)) zero_email False = Some (PARSING_OK, b', tx')"
    by (rule deserialize_sample)
  then show ?thesis
    using accepted_fields_are_printable [of ref_buffer_lib "encode_email sample_attachment_email"
        zero_email False b' tx'] length_sample_attachment_email by auto
qed

end
