(* ===== verification/App_State.thy ===== *)
theory App_State
  imports Tokens Deserialize
begin

text \<open>
  The state of the running application: the globals of \<^verbatim>\<open>app_main.c\<close> and \<^verbatim>\<open>token/\<close>, the static
  display buffers of \<^verbatim>\<open>ui/\<close>, the page the device shows, and the responses sent so far. Operations
  take the SDK and the state, and return the new state, \<open>None\<close> being an access outside an object.

  A review page keeps pointers to the static buffers and is rendered while the user turns its
  pages, so what it shows is computed from the buffers of the current state (\<open>shown\<close>).
\<close>

section \<open>Data\<close>

datatype text_buffer =
  Buf_from | Buf_to | Buf_subject | Buf_body | Buf_request | Buf_attachment | Buf_att_hash

record nbgl_contentTagValue_t =
  item :: string
  "value" :: text_buffer

text \<open>A switch of the settings page; a text is \<open>None\<close> while its pointer is \<open>NULL\<close>.\<close>

record nbgl_contentSwitch_t =
  switch_text :: "string option"
  switch_subText :: "string option"
  switch_initState :: u8
  switch_token :: int

definition zero_switch :: nbgl_contentSwitch_t where
  "zero_switch = \<lparr>switch_text = None, switch_subText = None, switch_initState = 0, switch_token = 0\<rparr>"

datatype nbgl_reviewStatusType_t =
    STATUS_TYPE_TRANSACTION_SIGNED
  | STATUS_TYPE_TRANSACTION_REJECTED
  | STATUS_TYPE_ADDRESS_VERIFIED
  | STATUS_TYPE_ADDRESS_REJECTED

datatype init_page = INIT_HOME_PAGE | Setting_page u8

text \<open>The page on the screen, with the callback it is waiting to call. \<open>Page_review\<close> and
  \<open>Page_address\<close> wait for the answer of the user.\<close>

datatype page =
    Page_none
  | Page_home init_page
  | Page_warning
  | Page_review
  | Page_address
  | Page_status nbgl_reviewStatusType_t

record app_state =
  G_context :: global_ctx_t
  N_storage :: internal_storage_t
  g_dynamic_token_info :: dynamic_token_info_t
  g_address :: bytes
  g_from :: bytes
  g_to :: bytes
  g_subject :: bytes
  g_body :: bytes
  g_request :: bytes
  g_attachment :: bytes
  g_att_hash :: bytes
  pairs :: "nbgl_contentTagValue_t option list"
  nbPairs :: nat
  switches :: "nbgl_contentSwitch_t list"
  initSettingPage :: u8
  screen :: page
  sent :: "apdu_response list"
  exited :: bool

text \<open>The output structure of the TUID parser of \<^verbatim>\<open>handler/provide_token_info.c\<close>; the tags received
  are returned by the parser.\<close>

record tlv_TUID_data_t =
  token_address_buffer :: buffer_t

record sdk =
  sdk_buffer :: buffer_lib
  sdk_crypto :: crypto_lib
  sdk_format :: format_lib
  sdk_io :: io_lib
  sdk_parser :: parser_lib
  sdk_tlv :: "tlv_TUID_data_t tlv_lib"
  FIRST_USER_TOKEN :: int

definition sdk_ok :: "sdk \<Rightarrow> bool" where
  "sdk_ok k \<longleftrightarrow> buffer_ok (sdk_buffer k) \<and> crypto_ok (sdk_crypto k) \<and> format_ok (sdk_format k)
     \<and> parser_ok (sdk_parser k) \<and> tlv_ok (sdk_tlv k)"

definition ref_sdk :: sdk where
  "ref_sdk = \<lparr>sdk_buffer = ref_buffer_lib, sdk_crypto = ref_crypto_lib, sdk_format = ref_format_lib,
     sdk_io = ref_io_lib, sdk_parser = ref_parser_lib, sdk_tlv = ref_tlv_lib,
     FIRST_USER_TOKEN = 20\<rparr>"

text \<open>The same SDK with another signing function.\<close>

definition with_signer ::
  "(curve \<Rightarrow> u32 list \<Rightarrow> nat \<Rightarrow> cx_md_t \<Rightarrow> bytes \<Rightarrow> nat \<Rightarrow> nat \<Rightarrow> u32 \<times> bytes \<times> nat) \<Rightarrow> sdk \<Rightarrow> sdk" where
  "with_signer f k = k\<lparr>sdk_crypto := (sdk_crypto k)\<lparr>bip32_derive_eddsa_sign_hash_256 := f\<rparr>\<rparr>"

text \<open>A step of the application: the C return value and the new state.\<close>

type_synonym result = "(int \<times> app_state) option"

text \<open>Statically allocated objects are zero when the application starts; the settings are in
  non-volatile memory.\<close>

definition boot_state :: "internal_storage_t \<Rightarrow> app_state" where
  "boot_state nvm =
     \<lparr>G_context = zero_context, N_storage = nvm, g_dynamic_token_info = init_dynamic_token_storage,
      g_address = zeros 43, g_from = zeros (MAX_FROM_LEN + 1), g_to = zeros (MAX_TO_LEN + 1),
      g_subject = zeros (MAX_SUBJECT_LEN + 1), g_body = zeros (MAX_BODY_LEN + 1),
      g_request = zeros (2 * CHALLENGE_LEN + 1), g_attachment = zeros (MAX_ATT_NAME_LEN + 40),
      g_att_hash = zeros (2 * ATT_HASH_LEN + 1), pairs = replicate 7 None, nbPairs = 0,
      switches = replicate 2 zero_switch, initSettingPage = 0, screen = Page_none, sent = [], exited = False\<rparr>"

section \<open>Sending\<close>

definition io_send_response_pointer :: "sdk \<Rightarrow> bytes \<Rightarrow> u16 \<Rightarrow> app_state \<Rightarrow> result" where
  "io_send_response_pointer k data sw s =
     (let out = sent s @ [\<lparr>resp_data = data, resp_sw = sw\<rparr>]
      in Some (io_status (sdk_io k) out, s\<lparr>sent := out\<rparr>))"

definition io_send_sw :: "sdk \<Rightarrow> u16 \<Rightarrow> app_state \<Rightarrow> result" where
  "io_send_sw k sw s = io_send_response_pointer k [] sw s"

section \<open>What the screen shows\<close>

definition buffer_of :: "app_state \<Rightarrow> text_buffer \<Rightarrow> bytes" where
  "buffer_of s b = (case b of
       Buf_from \<Rightarrow> g_from s
     | Buf_to \<Rightarrow> g_to s
     | Buf_subject \<Rightarrow> g_subject s
     | Buf_body \<Rightarrow> g_body s
     | Buf_request \<Rightarrow> g_request s
     | Buf_attachment \<Rightarrow> g_attachment s
     | Buf_att_hash \<Rightarrow> g_att_hash s)"

definition shown_pair :: "app_state \<Rightarrow> nbgl_contentTagValue_t option \<Rightarrow> string \<times> bytes" where
  "shown_pair s p = (case p of None \<Rightarrow> ([], []) | Some q \<Rightarrow> (item q, cstring (buffer_of s (value q))))"

definition shown :: "app_state \<Rightarrow> (string \<times> bytes) list" where
  "shown s = map (shown_pair s) (take (nbPairs s) (pairs s))"

section \<open>Shape of the state\<close>

definition statics_wf :: "app_state \<Rightarrow> bool" where
  "statics_wf s \<longleftrightarrow>
     length (g_address s) = 43 \<and> length (g_from s) = MAX_FROM_LEN + 1 \<and>
     length (g_to s) = MAX_TO_LEN + 1 \<and> length (g_subject s) = MAX_SUBJECT_LEN + 1 \<and>
     length (g_body s) = MAX_BODY_LEN + 1 \<and> length (g_request s) = 2 * CHALLENGE_LEN + 1 \<and>
     length (g_attachment s) = MAX_ATT_NAME_LEN + 40 \<and> length (g_att_hash s) = 2 * ATT_HASH_LEN + 1 \<and>
     length (pairs s) = 7 \<and> length (switches s) = 2"

definition state_wf :: "app_state \<Rightarrow> bool" where
  "state_wf s \<longleftrightarrow> context_wf (G_context s) \<and> dynamic_wf (g_dynamic_token_info s) \<and> statics_wf s"

lemma boot_state_wf [simp]: "state_wf (boot_state nvm)" "statics_wf (boot_state nvm)"
  by (simp_all add: boot_state_def state_wf_def statics_wf_def)

lemma boot_state_simps [simp]:
  "G_context (boot_state nvm) = zero_context" "sent (boot_state nvm) = []" "exited (boot_state nvm) = False"
  "screen (boot_state nvm) = Page_none" "g_dynamic_token_info (boot_state nvm) = init_dynamic_token_storage"
  by (simp_all add: boot_state_def)

text \<open>The settings of a device on which the application has run.\<close>

definition default_nvm :: internal_storage_t where
  "default_nvm = \<lparr>dummy1_allowed = 0, dummy2_allowed = 0, initialized = 1\<rparr>"

lemma ref_sdk_ok [simp]: "sdk_ok ref_sdk"
  by (simp add: sdk_ok_def ref_sdk_def)

lemma ref_sdk_simps [simp]:
  "sdk_buffer ref_sdk = ref_buffer_lib" "sdk_crypto ref_sdk = ref_crypto_lib"
  "sdk_format ref_sdk = ref_format_lib" "sdk_io ref_sdk = ref_io_lib"
  "sdk_parser ref_sdk = ref_parser_lib" "sdk_tlv ref_sdk = ref_tlv_lib"
  by (simp_all add: ref_sdk_def)

lemma state_wf_sent [simp]: "state_wf (s\<lparr>sent := x\<rparr>) = state_wf s"
  by (simp add: state_wf_def statics_wf_def)

lemma state_wf_screen [simp]: "state_wf (s\<lparr>screen := x\<rparr>) = state_wf s"
  by (simp add: state_wf_def statics_wf_def)

lemma state_wf_exited [simp]: "state_wf (s\<lparr>exited := x\<rparr>) = state_wf s"
  by (simp add: state_wf_def statics_wf_def)

lemma state_wf_context:
  "state_wf s \<Longrightarrow> context_wf G \<Longrightarrow> state_wf (s\<lparr>G_context := G\<rparr>)"
  by (simp add: state_wf_def statics_wf_def)

lemma shown_cong [simp]:
  "shown (s\<lparr>sent := x\<rparr>) = shown s"
  "shown (s\<lparr>G_context := G\<rparr>) = shown s"
  "shown (s\<lparr>screen := p\<rparr>) = shown s"
  "shown (s\<lparr>g_dynamic_token_info := D\<rparr>) = shown s"
  "shown (s\<lparr>exited := x'\<rparr>) = shown s"
  "shown (s\<lparr>N_storage := n\<rparr>) = shown s"
  "shown (s\<lparr>switches := sw\<rparr>) = shown s"
  "shown (s\<lparr>initSettingPage := i\<rparr>) = shown s"
  by (simp_all add: shown_def shown_pair_def buffer_of_def split: option.split text_buffer.split)

end
