(* ===== verification/Send_Response.thy ===== *)
theory Send_Response
  imports App_State
begin

text \<open>
  Responses with data, \<^verbatim>\<open>helper/send_reponse.c\<close>, and the answers to a review,
  \<^verbatim>\<open>ui/action/validate.c\<close>: sending the public key, signing the digest of the context and sending
  the signature, or refusing.

  \<open>sign_answer\<close> says what an approval sends: the signature over the digest in the context, behind
  its length and before the parity byte, or the error of a failed signature.
\<close>

section \<open>The code\<close>

definition helper_send_response_pubkey :: "sdk \<Rightarrow> app_state \<Rightarrow> result" where
  "helper_send_response_pubkey k s = do {
     let resp = zeros (1 + PUBKEY_LEN + 1 + CHAINCODE_LEN);
     resp \<leftarrow> mem_write resp 0 [of_nat PUBKEY_LEN];
     resp \<leftarrow> mem_write resp 1 (raw_public_key (G_context s));
     resp \<leftarrow> mem_write resp (1 + PUBKEY_LEN) [of_nat CHAINCODE_LEN];
     resp \<leftarrow> mem_write resp (1 + PUBKEY_LEN + 1) (chain_code (G_context s));
     out \<leftarrow> mem_slice resp 0 (1 + PUBKEY_LEN + 1 + CHAINCODE_LEN);
     io_send_response_pointer k out SWO_SUCCESS s
   }"

definition helper_send_response_sig :: "sdk \<Rightarrow> app_state \<Rightarrow> result" where
  "helper_send_response_sig k s = do {
     let t = tx_info (G_context s);
     let n = unat (signature_len t);
     let resp = zeros (1 + MAX_DER_SIG_LEN + 1);
     resp \<leftarrow> mem_write resp 0 [signature_len t];
     sig \<leftarrow> mem_slice (signature t) 0 n;
     resp \<leftarrow> mem_write resp 1 sig;
     resp \<leftarrow> mem_write resp (1 + n) [sig_v t];
     out \<leftarrow> mem_slice resp 0 (1 + n + 1);
     io_send_response_pointer k out SWO_SUCCESS s
   }"

definition validate_pubkey :: "sdk \<Rightarrow> bool \<Rightarrow> app_state \<Rightarrow> app_state option" where
  "validate_pubkey k choice s = do {
     (_, s) \<leftarrow> (if choice then helper_send_response_pubkey k s
                else io_send_sw k SWO_CONDITIONS_NOT_SATISFIED s);
     Some s
   }"

text \<open>The SDK reads the path from the array of \<open>MAX_BIP32_PATH\<close> elements, up to the length stored
  beside it. The function of the SDK takes the elements it reads as a list, so that a length that
  leads past the array is a fault here, at the call, and not inside the SDK.\<close>

definition crypto_sign_message :: "sdk \<Rightarrow> app_state \<Rightarrow> result" where
  "crypto_sign_message k s = do {
     let G = G_context s;
     let t = tx_info G;
     path \<leftarrow> mem_slice (bip32_path G) 0 (unat (bip32_path_len G));
     let (error, sig, sig_len) = bip32_derive_eddsa_sign_hash_256 (sdk_crypto k) CX_CURVE_Ed25519 path
                                   (unat (bip32_path_len G)) CX_SHA512 (m_hash t) 32 MAX_DER_SIG_LEN;
     sig \<leftarrow> mem_write (signature t) 0 sig;
     let t = t\<lparr>signature := sig\<rparr>;
     if error \<noteq> CX_OK then Some (-1, s\<lparr>G_context := G\<lparr>tx_info := t\<rparr>\<rparr>)
     else Some (0, s\<lparr>G_context := G\<lparr>tx_info := t\<lparr>signature_len := of_nat sig_len, sig_v := 0\<rparr>\<rparr>\<rparr>)
   }"

definition set_gstate :: "state_e \<Rightarrow> app_state \<Rightarrow> app_state" where
  "set_gstate x s = s\<lparr>G_context := (G_context s)\<lparr>gstate := x\<rparr>\<rparr>"

definition validate_transaction :: "sdk \<Rightarrow> bool \<Rightarrow> app_state \<Rightarrow> app_state option" where
  "validate_transaction k choice s = do {
     (_, s) \<leftarrow> (if choice then do {
                  let s = set_gstate STATE_APPROVED s;
                  (r, s) \<leftarrow> crypto_sign_message k s;
                  if r \<noteq> 0 then io_send_sw k SWO_SECURITY_ISSUE (set_gstate STATE_NONE s)
                  else helper_send_response_sig k s
                }
                else io_send_sw k SWO_CONDITIONS_NOT_SATISFIED (set_gstate STATE_NONE s));
     Some s
   }"

section \<open>What an answer sends\<close>

definition pubkey_answer :: "global_ctx_t \<Rightarrow> apdu_response" where
  "pubkey_answer G =
     \<lparr>resp_data = 65 # raw_public_key G @ 32 # chain_code G, resp_sw = SWO_SUCCESS\<rparr>"

definition sign_answer :: "sdk \<Rightarrow> u32 list \<Rightarrow> bytes \<Rightarrow> apdu_response" where
  "sign_answer k path h =
     (let (error, sig, _) = bip32_derive_eddsa_sign_hash_256 (sdk_crypto k) CX_CURVE_Ed25519 path
                              (length path) CX_SHA512 h 32 MAX_DER_SIG_LEN
      in if error = CX_OK
         then \<lparr>resp_data = of_nat (length sig) # sig @ [0], resp_sw = SWO_SUCCESS\<rparr>
         else \<lparr>resp_data = [], resp_sw = SWO_SECURITY_ISSUE\<rparr>)"

definition signing_path :: "global_ctx_t \<Rightarrow> u32 list" where
  "signing_path G = take (unat (bip32_path_len G)) (bip32_path G)"

text \<open>Two states that differ only in what an answer changes: the state field and the signature of
  the context, and the responses.\<close>

definition same_review :: "app_state \<Rightarrow> app_state \<Rightarrow> bool" where
  "same_review s s' \<longleftrightarrow>
     s'\<lparr>G_context := G_context s, sent := sent s\<rparr> = s \<and>
     raw_tx (tx_info (G_context s')) = raw_tx (tx_info (G_context s)) \<and>
     raw_tx_len (tx_info (G_context s')) = raw_tx_len (tx_info (G_context s)) \<and>
     m_hash (tx_info (G_context s')) = m_hash (tx_info (G_context s)) \<and>
     transaction (tx_info (G_context s')) = transaction (tx_info (G_context s)) \<and>
     req_type (G_context s') = req_type (G_context s) \<and>
     bip32_path (G_context s') = bip32_path (G_context s) \<and>
     bip32_path_len (G_context s') = bip32_path_len (G_context s)"

section \<open>Lemmas\<close>

lemma same_review_fields:
  assumes "same_review s s'"
  shows "s' = s\<lparr>G_context := G_context s', sent := sent s'\<rparr>"
proof -
  have "s'\<lparr>G_context := G_context s, sent := sent s\<rparr>\<lparr>G_context := G_context s', sent := sent s'\<rparr> = s'" by simp
  then show ?thesis using assms by (metis same_review_def)
qed

lemma io_send_sw_eq: "io_send_sw k sw s = Some (io_status (sdk_io k) (sent s @ [\<lparr>resp_data = [], resp_sw = sw\<rparr>]),
    s\<lparr>sent := sent s @ [\<lparr>resp_data = [], resp_sw = sw\<rparr>]\<rparr>)"
  by (simp add: io_send_sw_def io_send_response_pointer_def Let_def)

lemma send_pubkey_ok:
  assumes "context_wf (G_context s)"
  shows "\<exists>r. helper_send_response_pubkey k s = Some (r, s\<lparr>sent := sent s @ [pubkey_answer (G_context s)]\<rparr>)"
proof -
  have "length (raw_public_key (G_context s)) = 65" "length (chain_code (G_context s)) = 32"
    using assms by (simp_all add: raw_public_key_def chain_code_def context_wf_def)
  then show ?thesis
    by (simp add: helper_send_response_pubkey_def mem_write_def mem_slice_def slice_def
        io_send_response_pointer_def pubkey_answer_def Let_def)
qed

lemma send_sig_ok:
  assumes "context_wf (G_context s)"
  shows "\<exists>r. helper_send_response_sig k s = Some (r, s\<lparr>sent := sent s @
     [\<lparr>resp_data = signature_len (tx_info (G_context s))
         # take (unat (signature_len (tx_info (G_context s)))) (signature (tx_info (G_context s)))
         @ [sig_v (tx_info (G_context s))], resp_sw = SWO_SUCCESS\<rparr>]\<rparr>)"
proof -
  have "unat (signature_len (tx_info (G_context s))) \<le> 72" "length (signature (tx_info (G_context s))) = 72"
    using assms by (simp_all add: context_wf_def)
  then show ?thesis
    by (simp add: helper_send_response_sig_def mem_write_def mem_slice_def slice_def
        io_send_response_pointer_def Let_def min_def)
qed

lemma sign_length:
  assumes "crypto_ok C" and "bip32_derive_eddsa_sign_hash_256 C c p n md h hlen cap = (error, sig, l)"
  shows "length sig \<le> cap" and "error = CX_OK \<Longrightarrow> l = length sig"
  using assms unfolding crypto_ok_def by (metis fst_conv snd_conv)+

lemma validate_transaction_reject:
  "validate_transaction k False s = Some
     (s\<lparr>G_context := (G_context s)\<lparr>gstate := STATE_NONE\<rparr>,
       sent := sent s @ [\<lparr>resp_data = [], resp_sw = SWO_CONDITIONS_NOT_SATISFIED\<rparr>]\<rparr>)"
  by (simp add: validate_transaction_def io_send_sw_eq set_gstate_def)

lemma crypto_sign_message_fault:
  assumes "context_wf (G_context s)" and "MAX_BIP32_PATH < unat (bip32_path_len (G_context s))"
  shows "crypto_sign_message k s = None"
  using assms by (simp add: crypto_sign_message_def context_wf_def mem_slice_def Let_def)

lemma validate_transaction_long_path:
  assumes "context_wf (G_context s)" and "MAX_BIP32_PATH < unat (bip32_path_len (G_context s))"
  shows "validate_transaction k True s = None"
proof -
  have "context_wf (G_context (set_gstate STATE_APPROVED s))"
    using assms(1) by (simp add: set_gstate_def context_wf_def)
  then have "crypto_sign_message k (set_gstate STATE_APPROVED s) = None"
    using assms(2) by (intro crypto_sign_message_fault) (simp_all add: set_gstate_def)
  then show ?thesis by (simp add: validate_transaction_def)
qed

lemma validate_transaction_approve:
  assumes C: "crypto_ok (sdk_crypto k)" and wf: "context_wf (G_context s)"
    and path: "unat (bip32_path_len (G_context s)) \<le> MAX_BIP32_PATH"
  shows "\<exists>s'. validate_transaction k True s = Some s' \<and> same_review s s' \<and>
           sent s' = sent s @ [sign_answer k (signing_path (G_context s)) (m_hash (tx_info (G_context s)))] \<and>
           context_wf (G_context s') \<and>
           gstate (G_context s') =
             (if resp_sw (sign_answer k (signing_path (G_context s)) (m_hash (tx_info (G_context s)))) = SWO_SUCCESS
              then STATE_APPROVED else STATE_NONE)"
proof -
  let ?G = "G_context s"
  let ?t = "tx_info ?G"
  let ?path = "signing_path ?G"
  from wf have lens: "length (bip32_path ?G) = MAX_BIP32_PATH" "length (signature ?t) = 72"
    by (simp_all add: context_wf_def)
  have pl: "length ?path = unat (bip32_path_len ?G)" using lens path by (simp add: signing_path_def)
  obtain error sig l where call:
    "bip32_derive_eddsa_sign_hash_256 (sdk_crypto k) CX_CURVE_Ed25519 ?path (length ?path) CX_SHA512 (m_hash ?t) 32 72 = (error, sig, l)"
    by (metis prod_cases3)
  note len = sign_length [OF C call]
  have rd: "mem_slice (bip32_path ?G) 0 (unat (bip32_path_len ?G)) = Some ?path"
    using lens path by (simp add: mem_slice_def slice_def signing_path_def)
  show ?thesis
  proof (cases "error = CX_OK")
    case True
    then have l: "l = length sig" "unat (of_nat (length sig) :: u8) = length sig" using len by simp_all
    let ?s1 = "s\<lparr>G_context := ?G\<lparr>gstate := STATE_APPROVED, tx_info := ?t\<lparr>signature := sig @ drop (length sig) (signature ?t),
        signature_len := of_nat l, sig_v := 0\<rparr>\<rparr>\<rparr>"
    have "crypto_sign_message k (set_gstate STATE_APPROVED s) = Some (0, ?s1)"
      using call rd pl len(1) lens True
      by (simp add: crypto_sign_message_def set_gstate_def mem_write_start Let_def)
    moreover have wf1: "context_wf (G_context ?s1)" using wf len(1) l by (simp add: context_wf_def)
    moreover obtain r where "helper_send_response_sig k ?s1 = Some (r, ?s1\<lparr>sent := sent s @
        [\<lparr>resp_data = of_nat (length sig) # sig @ [0], resp_sw = SWO_SUCCESS\<rparr>]\<rparr>)"
      using send_sig_ok [OF wf1, of k] l by (simp del: of_nat_id) blast
    ultimately show ?thesis using call True
      by (auto simp: validate_transaction_def sign_answer_def same_review_def)
  next
    case False
    then have "crypto_sign_message k (set_gstate STATE_APPROVED s) = Some (-1,
        s\<lparr>G_context := ?G\<lparr>gstate := STATE_APPROVED, tx_info := ?t\<lparr>signature := sig @ drop (length sig) (signature ?t)\<rparr>\<rparr>\<rparr>)"
      using call rd pl len(1) lens
      by (simp add: crypto_sign_message_def set_gstate_def mem_write_start Let_def)
    then show ?thesis using call False wf len(1)
      by (auto simp: validate_transaction_def sign_answer_def io_send_sw_eq set_gstate_def context_wf_def
          same_review_def)
  qed
qed

text \<open>Signing or refusing touches the context and the responses only.\<close>

lemma validate_transaction_frame:
  assumes C: "crypto_ok (sdk_crypto k)" and G: "context_wf (G_context s)" and run: "validate_transaction k c s = Some s'"
  shows "s' = s\<lparr>G_context := G_context s', sent := sent s'\<rparr>"
proof (cases c)
  case True
  then have "unat (bip32_path_len (G_context s)) \<le> MAX_BIP32_PATH"
    using run validate_transaction_long_path [OF G, of k] by (cases "unat (bip32_path_len (G_context s)) \<le> MAX_BIP32_PATH") auto
  from validate_transaction_approve [OF C G this] run True have "same_review s s'" by auto
  then show ?thesis by (rule same_review_fields)
next
  case False
  then show ?thesis using run by (auto simp: validate_transaction_reject)
qed

section \<open>Properties\<close>

text \<open>C20. An approval signs the digest of the context with the path of the context and nothing
  else: it makes one call to the signing function, with the curve Ed25519, the path, SHA-512 as the
  hash of the scheme, the 32-byte digest with its length, and room for 72 bytes, and answers with the length of the signature, the signature and a
  zero byte under status 9000, or with status 6600 and no data when the signature fails; the
  state of the context becomes approved or none accordingly.\<close>

theorem approval_sends_signature:
  assumes "crypto_ok (sdk_crypto k)" and "context_wf (G_context s)"
    and "unat (bip32_path_len (G_context s)) \<le> MAX_BIP32_PATH"
    and "bip32_derive_eddsa_sign_hash_256 (sdk_crypto k) CX_CURVE_Ed25519
           (take (unat (bip32_path_len (G_context s))) (bip32_path (G_context s)))
           (unat (bip32_path_len (G_context s))) CX_SHA512 (m_hash (tx_info (G_context s))) 32 MAX_DER_SIG_LEN = (error, sig, sig_len)"
  shows "\<exists>s'. validate_transaction k True s = Some s' \<and>
     (if error = CX_OK
      then sent s' = sent s @ [\<lparr>resp_data = of_nat (length sig) # sig @ [0], resp_sw = SWO_SUCCESS\<rparr>] \<and>
           gstate (G_context s') = STATE_APPROVED
      else sent s' = sent s @ [\<lparr>resp_data = [], resp_sw = SWO_SECURITY_ISSUE\<rparr>] \<and>
           gstate (G_context s') = STATE_NONE)"
proof -
  have "length (signing_path (G_context s)) = unat (bip32_path_len (G_context s))"
    using assms(2,3) by (simp add: signing_path_def context_wf_def)
  then have "sign_answer k (signing_path (G_context s)) (m_hash (tx_info (G_context s))) =
      (if error = CX_OK then \<lparr>resp_data = of_nat (length sig) # sig @ [0], resp_sw = SWO_SUCCESS\<rparr>
       else \<lparr>resp_data = [], resp_sw = SWO_SECURITY_ISSUE\<rparr>)"
    using assms(4) by (simp add: sign_answer_def signing_path_def)
  then show ?thesis using validate_transaction_approve [OF assms(1-3)] by auto
qed

theorem approval_sends_signature_witness:
  "\<exists>s'. validate_transaction ref_sdk True (boot_state default_nvm) = Some s' \<and>
     sent s' = [\<lparr>resp_data = 64 # zeros 64 @ [0], resp_sw = SWO_SUCCESS\<rparr>]"
proof -
  have c: "bip32_derive_eddsa_sign_hash_256 (sdk_crypto ref_sdk) CX_CURVE_Ed25519
           (take (unat (bip32_path_len zero_context)) (bip32_path zero_context))
           (unat (bip32_path_len zero_context)) CX_SHA512 (m_hash (tx_info zero_context)) 32 72 = (CX_OK, zeros 64, 64)"
    by (simp add: ref_crypto_lib_def zero_context_def zero_tx_info_def zeros_def take_replicate
        flip: replicate_add)
  have l: "unat (bip32_path_len zero_context) \<le> MAX_BIP32_PATH" by (simp add: zero_context_def)
  show ?thesis
    using approval_sends_signature [of ref_sdk "boot_state default_nvm" CX_OK "zeros 64" 64] c l by auto
qed

end
