(* ===== verification/Address_Ui.thy ===== *)
theory Address_Ui
  imports Send_Response
begin

text \<open>
  The address of a public key (\<^verbatim>\<open>address.c\<close>) and its review (\<^verbatim>\<open>ui/nbgl_display_address.c\<close>).
\<close>

section \<open>The code\<close>

text \<open>The out parameter of \<open>out_len\<close> bytes is returned beside the verdict.\<close>

definition address_from_pubkey :: "sdk \<Rightarrow> bytes \<Rightarrow> bytes \<Rightarrow> nat \<Rightarrow> (bool \<times> bytes) option" where
  "address_from_pubkey k public_key out out_len =
     (if out_len < ADDRESS_LEN then Some (False, out)
      else do {
        key \<leftarrow> mem_slice public_key 1 64;
        let (error, address) = cx_keccak_256_hash (sdk_crypto k) key;
        if error \<noteq> CX_OK then Some (False, out)
        else do {
          a \<leftarrow> mem_slice address (32 - ADDRESS_LEN) ADDRESS_LEN;
          out \<leftarrow> mem_write out 0 a;
          Some (True, out)
        }
      })"

definition ui_display_address :: "sdk \<Rightarrow> app_state \<Rightarrow> result" where
  "ui_display_address k s =
     (if req_type (G_context s) \<noteq> CONFIRM_ADDRESS \<or> gstate (G_context s) \<noteq> STATE_NONE
      then io_send_sw k SWO_CONDITIONS_NOT_SATISFIED (set_gstate STATE_NONE s)
      else do {
        let s = s\<lparr>g_address := zeros 43\<rparr>;
        (ok, address) \<leftarrow> address_from_pubkey k (raw_public_key (G_context s)) (zeros ADDRESS_LEN) ADDRESS_LEN;
        if \<not> ok then io_send_sw k SWO_INCORRECT_DATA s
        else do {
          let (r, out) = format_hex (sdk_format k) address 43;
          b \<leftarrow> mem_write (g_address s) 0 out;
          let s = s\<lparr>g_address := b\<rparr>;
          if r = -1 then io_send_sw k SWO_INCORRECT_DATA s
          else Some (0, s\<lparr>screen := Page_address\<rparr>)
        }
      })"

section \<open>Lemmas\<close>

text \<open>The address: the last 20 bytes of the Keccak hash of the 64 bytes behind the first byte of
  the key.\<close>

lemma address_from_pubkey_ok:
  assumes C: "crypto_ok (sdk_crypto k)" and pk: "length pk = PUBKEY_LEN" and out: "length out = ADDRESS_LEN"
    and call: "cx_keccak_256_hash (sdk_crypto k) (tl pk) = (err, h)"
  shows "address_from_pubkey k pk out ADDRESS_LEN =
           Some (if err = CX_OK then (True, drop 12 h) else (False, out))"
proof -
  have h: "length h = 32" using C call unfolding crypto_ok_def by (metis snd_conv)
  have "slice pk 1 64 = tl pk" using pk by (simp add: slice_def drop_Suc)
  then show ?thesis using pk out call h
    by (simp add: address_from_pubkey_def mem_slice_def mem_write_def slice_def Let_def)
qed

text \<open>A review of an address that is allowed: shows the address of the key in the context, or
  refuses when the hash fails; the context is not changed.\<close>

lemma ui_display_address_ok:
  assumes k: "crypto_ok (sdk_crypto k)" "format_ok (sdk_format k)" and wf: "state_wf s"
    and "req_type (G_context s) = CONFIRM_ADDRESS" and "gstate (G_context s) = STATE_NONE"
    and call: "cx_keccak_256_hash (sdk_crypto k) (tl (raw_public_key (G_context s))) = (err, h)"
  shows "\<exists>r b out. length b = 43 \<and>
     (if err = CX_OK
      then cstring b = hex_string (drop 12 h) \<and>
           ui_display_address k s = Some (0, s\<lparr>g_address := b, screen := Page_address\<rparr>)
      else ui_display_address k s = Some (r, s\<lparr>g_address := b,
             sent := sent s @ [\<lparr>resp_data = [], resp_sw = SWO_INCORRECT_DATA\<rparr>]\<rparr>))"
proof -
  have h: "length h = 32" using k(1) call unfolding crypto_ok_def by (metis snd_conv)
  have pk: "length (raw_public_key (G_context s)) = 65"
    using wf by (simp add: state_wf_def context_wf_def raw_public_key_def)
  note a = address_from_pubkey_ok [OF k(1) pk length_zeros call]
  have "mem_write (zeros 43) 0 (hex_string (drop 12 h) @ [0]) = Some (hex_string (drop 12 h) @ 0 # zeros 2)"
    using h by (simp add: mem_write_def)
  moreover have "cstring (hex_string (drop 12 h) @ 0 # zeros 2) = hex_string (drop 12 h)"
    by (rule cstring_nul_free) (rule hex_string_nul_free)
  moreover have "format_hex (sdk_format k) (drop 12 h) 43 = (41, hex_string (drop 12 h) @ [0])"
    using format_hex_ok [OF k(2), of "drop 12 h" 43] h by simp
  ultimately show ?thesis using assms(4,5) a h
    by (cases "err = CX_OK")
       (force simp: ui_display_address_def Let_def io_send_sw_eq)+
qed

section \<open>Properties\<close>

text \<open>C37. The address review shows the address of the key in the context: the upper-case
  hexadecimal of the last 20 bytes of the Keccak-256 hash of the 64 bytes behind the first byte of
  the key, uncut. It sends nothing and does not change the context.\<close>

theorem address_review_shows_address:
  assumes "crypto_ok (sdk_crypto k)" and "format_ok (sdk_format k)" and "state_wf s"
    and "req_type (G_context s) = CONFIRM_ADDRESS" and "gstate (G_context s) = STATE_NONE"
    and "cx_keccak_256_hash (sdk_crypto k) (tl (raw_public_key (G_context s))) = (CX_OK, h)"
  shows "\<exists>s'. ui_display_address k s = Some (0, s') \<and> screen s' = Page_address \<and>
     cstring (g_address s') = hex_string (drop 12 h) \<and> length (cstring (g_address s')) = 40 \<and>
     sent s' = sent s \<and> G_context s' = G_context s"
proof -
  have "length h = 32" using assms(1,6) unfolding crypto_ok_def by (metis snd_conv)
  then show ?thesis using ui_display_address_ok [OF assms] by auto
qed

theorem address_review_shows_address_witness:
  "\<exists>s'. ui_display_address ref_sdk (boot_state default_nvm) = Some (0, s') \<and> screen s' = Page_address \<and>
     cstring (g_address s') = hex_string (zeros 20)"
proof -
  have "cx_keccak_256_hash (sdk_crypto ref_sdk) (tl (raw_public_key zero_context)) = (CX_OK, zeros 32)"
    by (simp add: ref_crypto_lib_def ref_digest_def raw_public_key_def zero_context_def zero_tx_info_def
        slice_def zeros_def take_replicate flip: replicate_add replicate_Suc)
  moreover have "req_type zero_context = CONFIRM_ADDRESS" "gstate zero_context = STATE_NONE"
    by (simp_all add: zero_context_def)
  ultimately show ?thesis
    using address_review_shows_address [of ref_sdk "boot_state default_nvm" "zeros 32"] by auto
qed

end
