(* ===== verification/Transaction_Ui.thy ===== *)
theory Transaction_Ui
  imports App_State
begin

text \<open>
  The review of an email, \<^verbatim>\<open>ui/nbgl_display_transaction.c\<close>: the fields are copied from the payload
  into static buffers, the pairs of the review are filled in, and the review page is opened.

  \<open>email_pairs\<close> is what a review of a message has to show. The code is shown to fill the buffers
  so that exactly this is shown, with nothing cut off, and two different messages never show the
  same review.
\<close>

section \<open>The code\<close>

definition copy_field :: "bytes \<Rightarrow> nat \<Rightarrow> bytes \<Rightarrow> ptr \<Rightarrow> nat \<Rightarrow> bytes option" where
  "copy_field dst dst_sz mem src len = do {
     dst \<leftarrow> mem_write dst 0 (zeros dst_sz);
     let n = (if len < dst_sz - 1 then len else dst_sz - 1);
     field \<leftarrow> ptr_slice mem src n;
     dst \<leftarrow> mem_write dst 0 field;
     mem_write dst n [0]
   }"

text \<open>\<open>pairs[n].item = ...; pairs[n++].value = ...\<close>\<close>

definition push_pair :: "string \<Rightarrow> text_buffer \<Rightarrow> nat \<times> app_state \<Rightarrow> (nat \<times> app_state) option" where
  "push_pair i v ns = (case ns of (n, s) \<Rightarrow> do {
     ps \<leftarrow> mem_write (pairs s) n [Some \<lparr>item = i, value = v\<rparr>];
     Some (n + 1, s\<lparr>pairs := ps\<rparr>)
   })"

text \<open>The label of the attachment, the output of \<^verbatim>\<open>"%s (%u bytes)"\<close>.\<close>

definition attachment_label :: "bytes \<Rightarrow> u32 \<Rightarrow> bytes" where
  "attachment_label name sz = name @ ascii '' ('' @ dec_digits (unat sz) @ ascii '' bytes)''"

text \<open>The five copies at the start of the function; the flag is the result of \<open>format_hex\<close>.\<close>

definition display_fields :: "sdk \<Rightarrow> app_state \<Rightarrow> (bool \<times> app_state) option" where
  "display_fields k s = do {
     let mem = raw_tx (tx_info (G_context s));
     let email = transaction (tx_info (G_context s));
     b \<leftarrow> copy_field (g_from s) (MAX_FROM_LEN + 1) mem (tx_from email) (unat (tx_from_len email));
     let s = s\<lparr>g_from := b\<rparr>;
     b \<leftarrow> copy_field (g_to s) (MAX_TO_LEN + 1) mem (tx_to email) (unat (tx_to_len email));
     let s = s\<lparr>g_to := b\<rparr>;
     b \<leftarrow> copy_field (g_subject s) (MAX_SUBJECT_LEN + 1) mem (tx_subject email) (unat (tx_subject_len email));
     let s = s\<lparr>g_subject := b\<rparr>;
     b \<leftarrow> copy_field (g_body s) (MAX_BODY_LEN + 1) mem (tx_body email) (unat (tx_body_len email));
     let s = s\<lparr>g_body := b\<rparr>;
     c \<leftarrow> ptr_slice mem (tx_challenge email) CHALLENGE_LEN;
     let (r, out) = format_hex (sdk_format k) c (2 * CHALLENGE_LEN + 1);
     b \<leftarrow> mem_write (g_request s) 0 out;
     Some (r \<noteq> -1, s\<lparr>g_request := b\<rparr>)
   }"

text \<open>The attachment block.\<close>

definition display_attachment :: "sdk \<Rightarrow> nat \<times> app_state \<Rightarrow> (bool \<times> nat \<times> app_state) option" where
  "display_attachment k ns = (case ns of (n, s) \<Rightarrow> do {
     let mem = raw_tx (tx_info (G_context s));
     let email = transaction (tx_info (G_context s));
     if tx_has_attachment email \<noteq> 0 then do {
       name \<leftarrow> copy_field (zeros (MAX_ATT_NAME_LEN + 1)) (MAX_ATT_NAME_LEN + 1) mem
                 (tx_att_name email) (unat (tx_att_name_len email));
       b \<leftarrow> snprintf_into (g_attachment s) (MAX_ATT_NAME_LEN + 40)
              (attachment_label (cstring name) (tx_att_size email));
       let s = s\<lparr>g_attachment := b\<rparr>;
       h \<leftarrow> ptr_slice mem (tx_att_hash email) ATT_HASH_LEN;
       let (r, out) = format_hex (sdk_format k) h (2 * ATT_HASH_LEN + 1);
       b \<leftarrow> mem_write (g_att_hash s) 0 out;
       let s = s\<lparr>g_att_hash := b\<rparr>;
       if r = -1 then Some (False, n, s) else do {
         ns \<leftarrow> push_pair ''Attachment'' Buf_attachment (n, s);
         (n, s) \<leftarrow> push_pair ''Attachment SHA-256'' Buf_att_hash ns;
         Some (True, n, s)
       }
     } else Some (True, n, s)
   })"

definition ui_display_transaction :: "sdk \<Rightarrow> app_state \<Rightarrow> result" where
  "ui_display_transaction k s =
     (if req_type (G_context s) \<noteq> CONFIRM_TRANSACTION \<or> gstate (G_context s) \<noteq> STATE_PARSED
      then io_send_sw k SWO_CONDITIONS_NOT_SATISFIED (s\<lparr>G_context := (G_context s)\<lparr>gstate := STATE_NONE\<rparr>\<rparr>)
      else do {
        (ok, s) \<leftarrow> display_fields k s;
        if \<not> ok then io_send_sw k SWO_INCORRECT_DATA s else do {
          ns \<leftarrow> push_pair ''From'' Buf_from (0, s);
          ns \<leftarrow> push_pair ''To'' Buf_to ns;
          ns \<leftarrow> push_pair ''Subject'' Buf_subject ns;
          ns \<leftarrow> push_pair ''Message'' Buf_body ns;
          (ok, ns) \<leftarrow> display_attachment k ns;
          if \<not> ok then io_send_sw k SWO_INCORRECT_DATA (snd ns) else do {
            (n, s) \<leftarrow> push_pair ''Request ID'' Buf_request ns;
            Some (0, s\<lparr>nbPairs := n, screen := Page_review\<rparr>)
          }
        }
      })"

definition ui_display_blind_signed_transaction :: "sdk \<Rightarrow> app_state \<Rightarrow> result" where
  "ui_display_blind_signed_transaction k s = ui_display_transaction k s"

definition ui_display_token_transaction :: "sdk \<Rightarrow> app_state \<Rightarrow> result" where
  "ui_display_token_transaction k s = ui_display_transaction k s"

section \<open>What a review has to show\<close>

definition email_pairs :: "email \<Rightarrow> (string \<times> bytes) list" where
  "email_pairs e =
     [(''From'', e_from e), (''To'', e_to e), (''Subject'', e_subject e), (''Message'', e_body e)]
     @ (case e_attachment e of
          None \<Rightarrow> []
        | Some a \<Rightarrow> [(''Attachment'', attachment_label (att_name a) (att_size a)),
                      (''Attachment SHA-256'', hex_string (att_hash a))])
     @ [(''Request ID'', hex_string (e_challenge e))]"

section \<open>Copies\<close>

lemma ptr_slice_in: "ptr_in (length mem) p n \<Longrightarrow> ptr_slice mem p n = Some (deref mem p n)"
  by (auto simp: ptr_in_def ptr_slice_def mem_slice_Some split: option.splits)

lemma length_deref: "ptr_in (length mem) p n \<Longrightarrow> length (deref mem p n) = n"
  by (auto simp: ptr_in_def split: option.splits)

lemma copy_field_ok:
  assumes "length dst = Suc m" and "ptr_in (length mem) p n" and "n \<le> m"
  shows "copy_field dst (Suc m) mem p n = Some (deref mem p n @ zeros (Suc m - n))"
proof -
  have len: "length (deref mem p n) = n" using assms(2) by (rule length_deref)
  have "(if n < Suc m - 1 then n else Suc m - 1) = n" using assms(3) by simp
  moreover have "mem_write dst 0 (zeros (Suc m)) = Some (zeros (Suc m))"
    using assms(1) by (simp add: mem_write_def)
  moreover have "mem_write (zeros (Suc m)) 0 (deref mem p n) = Some (deref mem p n @ zeros (Suc m - n))"
    using assms(3) len by (simp add: mem_write_def)
  moreover have "mem_write (deref mem p n @ zeros (Suc m - n)) n [0] = Some (deref mem p n @ zeros (Suc m - n))"
    using assms(3) len by (simp add: mem_write_def zeros_def Suc_diff_le)
  ultimately show ?thesis
    by (simp only: copy_field_def ptr_slice_in [OF assms(2)] Let_def bind.bind_lunit)
qed

lemma snprintf_into_fits:
  assumes "length dst = n" and "length txt < n"
  shows "snprintf_into dst n txt = Some (txt @ 0 # drop (Suc (length txt)) dst)"
  using assms by (simp add: snprintf_into_def mem_write_def)

lemma printable_not_nul: "list_all printable xs \<Longrightarrow> 0 \<notin> set xs"
  by (auto simp: list_all_iff printable_def word_le_nat_alt)

lemma body_not_nul: "list_all body_char xs \<Longrightarrow> 0 \<notin> set xs"
  by (auto simp: list_all_iff body_char_def printable_def word_le_nat_alt)

lemma digits_not_nul: "0 \<notin> set (dec_digits n)"
  using dec_digits_are_digits by (force simp: is_digit_def word_le_nat_alt)

lemma ascii_not_nul [simp]: "0 \<notin> set (ascii '' ('')" "0 \<notin> set (ascii '' bytes)'')"
  by (simp_all add: ascii_def)

lemma attachment_label_not_nul: "0 \<notin> set name \<Longrightarrow> 0 \<notin> set (attachment_label name sz)"
  by (simp add: attachment_label_def digits_not_nul)

lemma attachment_label_length: "length name \<le> 64 \<Longrightarrow> length (attachment_label name sz) \<le> 83"
  using dec_digits_u32_length [of sz] by (simp add: attachment_label_def ascii_def)

lemma attachment_label_inject:
  assumes "attachment_label n1 s1 = attachment_label n2 s2"
  shows "n1 = n2 \<and> s1 = s2"
proof -
  have "(n1 @ [32]) @ 40 # dec_digits (unat s1) = (n2 @ [32]) @ 40 # dec_digits (unat s2)"
    using assms by (simp add: attachment_label_def ascii_def)
  then have "n1 @ [32] = n2 @ [32] \<and> dec_digits (unat s1) = dec_digits (unat s2)"
    by (rule digit_suffix_unique) (simp_all add: dec_digits_are_digits, simp_all add: is_digit_def word_le_nat_alt)
  then show ?thesis by (simp add: dec_digits_inject word_unat_eq_iff)
qed

section \<open>The review shows the message\<close>

lemma push_pair_ok [simp]:
  "n < length (pairs s) \<Longrightarrow>
   push_pair i v (n, s) = Some (n + 1, s\<lparr>pairs := (pairs s)[n := Some \<lparr>item = i, value = v\<rparr>]\<rparr>)"
  by (simp add: push_pair_def mem_write_def upd_conv_take_nth_drop)

lemma display_fields_ok:
  fixes s :: app_state
  defines "mem \<equiv> raw_tx (tx_info (G_context s))"
  defines "e \<equiv> email_view mem (transaction (tx_info (G_context s)))"
  assumes F: "format_ok (sdk_format k)" and st: "statics_wf s"
    and wf: "wf_email e" and inb: "tx_in (length mem) (transaction (tx_info (G_context s)))"
  shows "display_fields k s = Some (True,
     s\<lparr>g_from := e_from e @ zeros (129 - length (e_from e)),
       g_to := e_to e @ zeros (129 - length (e_to e)),
       g_subject := e_subject e @ zeros (201 - length (e_subject e)),
       g_body := e_body e @ zeros (2049 - length (e_body e)),
       g_request := hex_string (e_challenge e) @ [0]\<rparr>)"
proof -
  let ?t = "transaction (tx_info (G_context s))"
  note ptrs = inb [unfolded tx_in_def]
  have len: "length (e_from e) = unat (tx_from_len ?t)" "length (e_to e) = unat (tx_to_len ?t)"
    "length (e_subject e) = unat (tx_subject_len ?t)" "length (e_body e) = unat (tx_body_len ?t)"
    "length (e_challenge e) = 16"
    using ptrs by (simp_all add: e_def email_view_def length_deref)
  have max: "unat (tx_from_len ?t) \<le> 128" "unat (tx_to_len ?t) \<le> 128"
    "unat (tx_subject_len ?t) \<le> 200" "unat (tx_body_len ?t) \<le> 2048"
    using wf len by (simp_all add: wf_email_def text_field_wf_def)
  have "copy_field (g_from s) 129 mem (tx_from ?t) (unat (tx_from_len ?t)) =
          Some (e_from e @ zeros (129 - length (e_from e)))"
    using copy_field_ok [of "g_from s" 128 mem "tx_from ?t" "unat (tx_from_len ?t)"] st ptrs max len
    by (simp add: statics_wf_def e_def email_view_def)
  moreover have "copy_field (g_to s) 129 mem (tx_to ?t) (unat (tx_to_len ?t)) =
          Some (e_to e @ zeros (129 - length (e_to e)))"
    using copy_field_ok [of "g_to s" 128 mem "tx_to ?t" "unat (tx_to_len ?t)"] st ptrs max len
    by (simp add: statics_wf_def e_def email_view_def)
  moreover have "copy_field (g_subject s) 201 mem (tx_subject ?t) (unat (tx_subject_len ?t)) =
          Some (e_subject e @ zeros (201 - length (e_subject e)))"
    using copy_field_ok [of "g_subject s" 200 mem "tx_subject ?t" "unat (tx_subject_len ?t)"] st ptrs max len
    by (simp add: statics_wf_def e_def email_view_def)
  moreover have "copy_field (g_body s) 2049 mem (tx_body ?t) (unat (tx_body_len ?t)) =
          Some (e_body e @ zeros (2049 - length (e_body e)))"
    using copy_field_ok [of "g_body s" 2048 mem "tx_body ?t" "unat (tx_body_len ?t)"] st ptrs max len
    by (simp add: statics_wf_def e_def email_view_def)
  moreover have "ptr_slice mem (tx_challenge ?t) 16 = Some (e_challenge e)"
    using ptrs by (simp add: ptr_slice_in e_def email_view_def)
  moreover have "format_hex (sdk_format k) (e_challenge e) 33 = (33, hex_string (e_challenge e) @ [0])"
    using format_hex_ok [OF F, of "e_challenge e" 33] len by simp
  moreover have "mem_write (g_request s) 0 (hex_string (e_challenge e) @ [0]) = Some (hex_string (e_challenge e) @ [0])"
    using st len by (simp add: mem_write_def statics_wf_def)
  ultimately show ?thesis by (simp add: display_fields_def Let_def mem_def)
qed

lemma display_attachment_ok:
  fixes s :: app_state
  defines "mem \<equiv> raw_tx (tx_info (G_context s))"
  defines "e \<equiv> email_view mem (transaction (tx_info (G_context s)))"
  assumes F: "format_ok (sdk_format k)" and st: "statics_wf s"
    and wf: "wf_email e" and inb: "tx_in (length mem) (transaction (tx_info (G_context s)))"
    and att: "e_attachment e = Some a"
  shows "display_attachment k (4, s) = Some (True, 6,
     s\<lparr>g_attachment := attachment_label (att_name a) (att_size a) @
          0 # drop (Suc (length (attachment_label (att_name a) (att_size a)))) (g_attachment s),
       g_att_hash := hex_string (att_hash a) @ [0],
       pairs := (pairs s)[4 := Some \<lparr>item = ''Attachment'', value = Buf_attachment\<rparr>,
                          5 := Some \<lparr>item = ''Attachment SHA-256'', value = Buf_att_hash\<rparr>]\<rparr>)"
proof -
  let ?t = "transaction (tx_info (G_context s))"
  let ?l = "attachment_label (att_name a) (att_size a)"
  from att have has: "tx_has_attachment ?t \<noteq> 0" and sz: "att_size a = tx_att_size ?t"
    and nm: "att_name a = deref mem (tx_att_name ?t) (unat (tx_att_name_len ?t))"
    and hs: "att_hash a = deref mem (tx_att_hash ?t) 32"
    by (auto simp: e_def email_view_def split: if_splits)
  then have ptrs: "ptr_in (length mem) (tx_att_name ?t) (unat (tx_att_name_len ?t))"
    "ptr_in (length mem) (tx_att_hash ?t) 32"
    using inb by (simp_all add: tx_in_def)
  from wf att have name: "list_all printable (att_name a)" "length (att_name a) \<le> 64"
    and hl: "length (att_hash a) = 32"
    by (simp_all add: wf_email_def wf_attachment_def text_field_wf_def)
  have nl: "unat (tx_att_name_len ?t) = length (att_name a)" using nm length_deref [OF ptrs(1)] by simp
  have nm': "deref mem (tx_att_name ?t) (length (att_name a)) = att_name a" using nm nl by metis
  have "copy_field (zeros 65) 65 mem (tx_att_name ?t) (unat (tx_att_name_len ?t)) =
      Some (att_name a @ zeros (65 - length (att_name a)))"
    using copy_field_ok [of "zeros 65" 64 mem "tx_att_name ?t" "unat (tx_att_name_len ?t)"] ptrs name nl
    by (simp add: nm')
  moreover have "cstring (att_name a @ zeros (65 - length (att_name a))) = att_name a"
    using name by (simp add: cstring_append_zeros printable_not_nul)
  moreover have "snprintf_into (g_attachment s) 104 ?l = Some (?l @ 0 # drop (Suc (length ?l)) (g_attachment s))"
    using attachment_label_length [OF name(2), of "att_size a"] st
    by (intro snprintf_into_fits) (simp_all add: statics_wf_def)
  moreover have "ptr_slice mem (tx_att_hash ?t) 32 = Some (att_hash a)"
    using ptrs hs by (simp add: ptr_slice_in)
  moreover have "format_hex (sdk_format k) (att_hash a) 65 = (65, hex_string (att_hash a) @ [0])"
    using format_hex_ok [OF F, of "att_hash a" 65] hl by simp
  moreover have "mem_write (g_att_hash s) 0 (hex_string (att_hash a) @ [0]) = Some (hex_string (att_hash a) @ [0])"
    using st hl by (simp add: mem_write_def statics_wf_def)
  moreover have "length (pairs s) = 7" using st by (simp add: statics_wf_def)
  ultimately show ?thesis
    using has sz by (simp add: display_attachment_def Let_def mem_def)
qed

text \<open>The whole function on a parsed message: it opens the review page, the review shows exactly
  the message, and the rest of the state is as it was.\<close>

definition displayed :: "app_state \<Rightarrow> app_state \<Rightarrow> email \<Rightarrow> bool" where
  "displayed s s' e \<longleftrightarrow>
     shown s' = email_pairs e \<and> screen s' = Page_review \<and> statics_wf s' \<and>
     G_context s' = G_context s \<and> N_storage s' = N_storage s \<and>
     g_dynamic_token_info s' = g_dynamic_token_info s \<and> g_address s' = g_address s \<and>
     switches s' = switches s \<and> initSettingPage s' = initSettingPage s \<and>
     sent s' = sent s \<and> exited s' = exited s"

lemma ui_display_refuses:
  "req_type (G_context s) \<noteq> CONFIRM_TRANSACTION \<or> gstate (G_context s) \<noteq> STATE_PARSED \<Longrightarrow>
   ui_display_transaction k s = io_send_sw k SWO_CONDITIONS_NOT_SATISFIED
     (s\<lparr>G_context := (G_context s)\<lparr>gstate := STATE_NONE\<rparr>\<rparr>)"
  by (auto simp: ui_display_transaction_def)

lemma email_no_nul:
  assumes "wf_email e"
  shows "0 \<notin> set (e_from e)" "0 \<notin> set (e_to e)" "0 \<notin> set (e_subject e)" "0 \<notin> set (e_body e)"
    "e_attachment e = Some a \<Longrightarrow> 0 \<notin> set (att_name a)"
  using assms
  by (auto simp: wf_email_def wf_attachment_def text_field_wf_def dest: printable_not_nul body_not_nul)

lemma seven: "length xs = 7 \<Longrightarrow> \<exists>a b c d e f g. xs = [a, b, c, d, e, f, g]"
  by (auto simp: eval_nat_numeral length_Suc_conv)

lemma ui_display_transaction_ok:
  assumes F: "format_ok (sdk_format k)" and st: "statics_wf s"
    and "req_type (G_context s) = CONFIRM_TRANSACTION" and "gstate (G_context s) = STATE_PARSED"
    and wf: "wf_email e" and e: "email_view (raw_tx (tx_info (G_context s))) (transaction (tx_info (G_context s))) = e"
    and inb: "tx_in (length (raw_tx (tx_info (G_context s)))) (transaction (tx_info (G_context s)))"
  shows "\<exists>s'. ui_display_transaction k s = Some (0, s') \<and> displayed s s' e"
proof -
  let ?s1 = "s\<lparr>g_from := e_from e @ zeros (129 - length (e_from e)),
       g_to := e_to e @ zeros (129 - length (e_to e)),
       g_subject := e_subject e @ zeros (201 - length (e_subject e)),
       g_body := e_body e @ zeros (2049 - length (e_body e)),
       g_request := hex_string (e_challenge e) @ [0]\<rparr>"
  let ?p4 = "(pairs s)[0 := Some \<lparr>item = ''From'', value = Buf_from\<rparr>, 1 := Some \<lparr>item = ''To'', value = Buf_to\<rparr>,
       2 := Some \<lparr>item = ''Subject'', value = Buf_subject\<rparr>, 3 := Some \<lparr>item = ''Message'', value = Buf_body\<rparr>]"
  have len: "length (e_from e) \<le> 128" "length (e_to e) \<le> 128" "length (e_subject e) \<le> 200"
    "length (e_body e) \<le> 2048" "length (e_challenge e) = 16"
    using wf by (simp_all add: wf_email_def text_field_wf_def)
  have st1: "statics_wf (?s1\<lparr>pairs := ?p4\<rparr>)" using st len by (simp add: statics_wf_def)
  have pl: "length (pairs s) = 7" using st by (simp add: statics_wf_def)
  note str = cstring_append_zeros email_no_nul [OF wf] cstring_nul_free hex_string_nul_free
  have run: "ui_display_transaction k s = do {
      (ok, ns) \<leftarrow> display_attachment k (4, ?s1\<lparr>pairs := ?p4\<rparr>);
      if \<not> ok then io_send_sw k SWO_INCORRECT_DATA (snd ns) else do {
        (n, s) \<leftarrow> push_pair ''Request ID'' Buf_request ns;
        Some (0, s\<lparr>nbPairs := n, screen := Page_review\<rparr>)}}"
    using display_fields_ok [OF F st] e wf inb assms(3,4) pl
    by (simp add: ui_display_transaction_def numeral_2_eq_2 [symmetric])
  show ?thesis
  proof (cases "e_attachment e")
    case None
    then have "display_attachment k (4, ?s1\<lparr>pairs := ?p4\<rparr>) = Some (True, 4, ?s1\<lparr>pairs := ?p4\<rparr>)"
      using e by (auto simp: display_attachment_def email_view_def split: if_splits)
    then show ?thesis using run pl seven [OF pl] st len None
      by (auto simp: displayed_def statics_wf_def shown_def shown_pair_def buffer_of_def email_pairs_def str)
  next
    case (Some a)
    then have a: "list_all printable (att_name a)" "length (att_name a) \<le> 64" "length (att_hash a) = 32"
      using wf by (auto simp: wf_email_def wf_attachment_def text_field_wf_def)
    note al = attachment_label_length [OF a(2), of "att_size a"]
    let ?l = "attachment_label (att_name a) (att_size a)"
    have ln: "0 \<notin> set ?l" by (rule attachment_label_not_nul) (rule printable_not_nul [OF a(1)])
    have "display_attachment k (4, ?s1\<lparr>pairs := ?p4\<rparr>) = Some (True, 6, ?s1\<lparr>
        g_attachment := ?l @ 0 # drop (Suc (length ?l)) (g_attachment s),
        g_att_hash := hex_string (att_hash a) @ [0],
        pairs := ?p4[4 := Some \<lparr>item = ''Attachment'', value = Buf_attachment\<rparr>,
                     5 := Some \<lparr>item = ''Attachment SHA-256'', value = Buf_att_hash\<rparr>]\<rparr>)"
      using display_attachment_ok [OF F st1, of a] wf inb e Some by simp
    then show ?thesis using run pl seven [OF pl] st len al Some a(3) ln
      by (auto simp: displayed_def statics_wf_def shown_def shown_pair_def buffer_of_def email_pairs_def str)
  qed
qed

lemma email_pairs_inject:
  assumes "email_pairs e1 = email_pairs e2"
  shows "e1 = e2"
proof -
  have "e_attachment e1 = e_attachment e2"
  proof (cases "e_attachment e1"; cases "e_attachment e2")
    fix a1 a2 assume a: "e_attachment e1 = Some a1" "e_attachment e2 = Some a2"
    with assms have "att_name a1 = att_name a2 \<and> att_size a1 = att_size a2" "att_hash a1 = att_hash a2"
      by (auto simp: email_pairs_def dest: attachment_label_inject hex_string_inject)
    with a show ?thesis by simp
  qed (use assms in \<open>auto simp: email_pairs_def\<close>)
  moreover from this assms have "e_from e1 = e_from e2" "e_to e1 = e_to e2" "e_subject e1 = e_subject e2"
    "e_body e1 = e_body e2" "e_challenge e1 = e_challenge e2"
    by (auto simp: email_pairs_def dest: hex_string_inject split: option.splits)
  ultimately show ?thesis by simp
qed

section \<open>Properties\<close>

text \<open>C9. The review shows the whole message: from a parsed message in the context, the display
  function writes inside its buffers, opens the review page, and what the page shows is every
  field in full, with its label, in the order From, To, Subject, Message, the attachment's name,
  size and hash when there is one, and the request id. It sends nothing and leaves the context as
  it was.\<close>

theorem review_shows_whole_message:
  assumes "format_ok (sdk_format k)" and "statics_wf s"
    and "req_type (G_context s) = CONFIRM_TRANSACTION" and "gstate (G_context s) = STATE_PARSED"
    and "email_view (raw_tx (tx_info (G_context s))) (transaction (tx_info (G_context s))) = e"
    and "wf_email e"
    and "tx_in (length (raw_tx (tx_info (G_context s)))) (transaction (tx_info (G_context s)))"
  shows "\<exists>s'. ui_display_transaction k s = Some (0, s') \<and> screen s' = Page_review \<and>
           shown s' = [(''From'', e_from e), (''To'', e_to e), (''Subject'', e_subject e), (''Message'', e_body e)]
             @ (case e_attachment e of None \<Rightarrow> []
                | Some a \<Rightarrow> [(''Attachment'', att_name a @ ascii '' ('' @ dec_digits (unat (att_size a)) @ ascii '' bytes)''),
                              (''Attachment SHA-256'', hex_string (att_hash a))])
             @ [(''Request ID'', hex_string (e_challenge e))] \<and>
           sent s' = sent s \<and> G_context s' = G_context s"
  using ui_display_transaction_ok [OF assms(1-4,6,5,7)]
  by (auto simp: displayed_def email_pairs_def attachment_label_def split: option.split)

text \<open>A context with the sample message of the unit tests, parsed.\<close>

lemma sample_parsed:
  obtains tx where "email_view (encode_email sample_attachment_email) tx = sample_attachment_email"
    and "tx_in (length (encode_email sample_attachment_email)) tx"
  using deserialize_complete [of ref_buffer_lib "payload_buffer (encode_email sample_attachment_email)"
      sample_attachment_email zero_email False] wf_sample_attachment_email length_sample_attachment_email
  by auto

theorem review_shows_whole_message_witness:
  "\<exists>s s'. ui_display_transaction ref_sdk s = Some (0, s') \<and> screen s' = Page_review \<and>
     shown s' = [(''From'', ascii ''a@b.co''), (''To'', ascii ''c@d.co''), (''Subject'', ascii ''Q3''),
       (''Message'', ascii ''Hi'' @ [10] @ ascii ''there''), (''Attachment'', ascii ''f.txt (300 bytes)''),
       (''Attachment SHA-256'', hex_string ([0xde, 0xad] @ zeros 30)),
       (''Request ID'', ascii ''112233445566778899AABBCCDDEEFF00'')]"
proof -
  obtain tx where tx: "email_view (encode_email sample_attachment_email) tx = sample_attachment_email"
    "tx_in (length (encode_email sample_attachment_email)) tx" by (rule sample_parsed)
  define s where "s = (boot_state default_nvm)\<lparr>G_context := zero_context\<lparr>req_type := CONFIRM_TRANSACTION,
      gstate := STATE_PARSED, tx_info := zero_tx_info\<lparr>raw_tx := encode_email sample_attachment_email, transaction := tx\<rparr>\<rparr>\<rparr>"
  have s: "statics_wf s" using boot_state_wf(2) [of default_nvm] by (simp add: s_def statics_wf_def)
  have d: "dec_digits 300 = ascii ''300''" by (simp add: dec_digits.simps digit_char_def ascii_def)
  have h: "hex_string (e_challenge sample_email) = ascii ''112233445566778899AABBCCDDEEFF00''"
    by (simp add: sample_email_def hex_string_def hex_byte_def hex_digit_def ascii_def)
  have "\<exists>s'. ui_display_transaction ref_sdk s = Some (0, s') \<and> screen s' = Page_review \<and>
     shown s' = email_pairs sample_attachment_email"
    using review_shows_whole_message [of ref_sdk s sample_attachment_email] s tx wf_sample_attachment_email
    unfolding email_pairs_def attachment_label_def by (auto simp: s_def)
  then show ?thesis
    using d h by (auto simp: email_pairs_def attachment_label_def sample_attachment_email_def sample_email_def ascii_def)
qed

end
