(* ===== verification/Get_Handlers.thy ===== *)
theory Get_Handlers
  imports Address_Ui Transaction_Ui
begin

text \<open>
  The handlers that answer with data: \<^verbatim>\<open>handler/get_version.c\<close>, \<^verbatim>\<open>handler/get_app_name.c\<close> and
  \<^verbatim>\<open>handler/get_public_key.c\<close>.

  Every handler ends in one of the ways of \<open>outcome\<close>: one response and the screen as it was, or no
  response yet and a review on the screen; and the review of an email is then \<open>consistent\<close>: it
  shows exactly the message whose hash the context holds.
\<close>

section \<open>The code\<close>

definition handler_get_version :: "sdk \<Rightarrow> app_state \<Rightarrow> result" where
  "handler_get_version k s = io_send_response_pointer k [2, 3, 2] SWO_SUCCESS s"

definition handler_get_app_name :: "sdk \<Rightarrow> app_state \<Rightarrow> result" where
  "handler_get_app_name k s = io_send_response_pointer k (ascii ''HardMail'') SWO_SUCCESS s"

text \<open>The two calls that read a path into the context, the second only when the first succeeds.\<close>

definition read_path :: "sdk \<Rightarrow> buffer_t \<Rightarrow> app_state \<Rightarrow> (bool \<times> app_state) option" where
  "read_path k cdata s =
     (let (ok, n, cdata) = buffer_read_u8 (sdk_buffer k) cdata;
          s = s\<lparr>G_context := (G_context s)\<lparr>bip32_path_len := n\<rparr>\<rparr>
      in if \<not> ok then Some (False, s)
         else do {
           let (ok, path, cdata) = buffer_read_bip32_path (sdk_buffer k) cdata (unat n);
           p \<leftarrow> mem_write (bip32_path (G_context s)) 0 path;
           Some (ok, s\<lparr>G_context := (G_context s)\<lparr>bip32_path := p\<rparr>\<rparr>)
         })"

definition handler_get_public_key :: "sdk \<Rightarrow> buffer_t \<Rightarrow> bool \<Rightarrow> app_state \<Rightarrow> result" where
  "handler_get_public_key k cdata display s = do {
     let s = s\<lparr>G_context := zero_context\<lparr>req_type := CONFIRM_ADDRESS, gstate := STATE_NONE\<rparr>\<rparr>;
     (ok, s) \<leftarrow> read_path k cdata s;
     if \<not> ok then io_send_sw k SWO_WRONG_DATA_LENGTH s
     else do {
       path \<leftarrow> mem_slice (bip32_path (G_context s)) 0 (unat (bip32_path_len (G_context s)));
       let (error, pk, cc) = bip32_derive_get_pubkey_256 (sdk_crypto k) CX_CURVE_Ed25519 path
                               (unat (bip32_path_len (G_context s))) CX_SHA512;
       G \<leftarrow> set_raw_public_key pk (G_context s);
       G \<leftarrow> set_chain_code cc G;
       let s = s\<lparr>G_context := G\<rparr>;
       if error \<noteq> CX_OK then io_send_sw k (ucast error) s
       else do {
         let (error, pk) = cx_edwards_compress_point_no_throw (sdk_crypto k) CX_CURVE_Ed25519
                             (raw_public_key (G_context s));
         G \<leftarrow> set_raw_public_key pk (G_context s);
         let s = s\<lparr>G_context := G\<rparr>;
         if error \<noteq> CX_OK then io_send_sw k (ucast error) s
         else if display then ui_display_address k s
         else helper_send_response_pubkey k s
       }
     }
   }"

section \<open>How a handler ends\<close>

definition payload :: "app_state \<Rightarrow> bytes" where
  "payload s = take (raw_tx_len (tx_info (G_context s))) (raw_tx (tx_info (G_context s)))"

definition consistent :: "sdk \<Rightarrow> app_state \<Rightarrow> bool" where
  "consistent k s \<longleftrightarrow>
     gstate (G_context s) = STATE_PARSED \<and> req_type (G_context s) = CONFIRM_TRANSACTION \<and>
     m_hash (tx_info (G_context s)) = snd (cx_hash_sha256 (sdk_crypto k) (payload s) 32) \<and>
     (\<exists>e. wf_email e \<and> payload s = encode_email e \<and> shown s = email_pairs e)"

definition path_ok :: "app_state \<Rightarrow> bool" where
  "path_ok s \<longleftrightarrow> unat (bip32_path_len (G_context s)) \<le> MAX_BIP32_PATH"

text \<open>The answers to a command, by the length of their data: none, the version, the name, or a key
  with its chain code. A signature of 64 bytes is answered with 66 bytes.\<close>

definition plain :: "apdu_response \<Rightarrow> bool" where
  "plain r \<longleftrightarrow> length (resp_data r) \<in> {0, 3, 8, 99}"

definition answered :: "app_state \<Rightarrow> app_state \<Rightarrow> bool" where
  "answered s s' \<longleftrightarrow> (\<exists>resp. sent s' = sent s @ [resp] \<and> plain resp) \<and> screen s' = screen s"

definition outcome :: "sdk \<Rightarrow> app_state \<Rightarrow> app_state \<Rightarrow> bool" where
  "outcome k s s' \<longleftrightarrow> state_wf s' \<and> N_storage s' = N_storage s \<and> switches s' = switches s \<and> exited s' = exited s \<and>
     (answered s s' \<or>
      sent s' = sent s \<and> (screen s' = Page_address \<or> screen s' = Page_review \<and> consistent k s'))"

text \<open>The path at the start of a command, as the host encodes it.\<close>

definition path_request :: "bytes \<Rightarrow> u32 list option" where
  "path_request xs = (case xs of
       [] \<Rightarrow> None
     | n # r \<Rightarrow> if 1 \<le> unat n \<and> unat n \<le> MAX_BIP32_PATH \<and> 4 * unat n \<le> length r
                then Some (be32_vals (unat n) r) else None)"

section \<open>Lemmas\<close>

lemma buf_rest_cases:
  assumes "buf_wf b"
  obtains "buf_rest b = []" "\<not> 1 \<le> buf_left b"
  | n where "buf_rest b = n # buf_rest (advance 1 b)" "1 \<le> buf_left b"
proof (cases "1 \<le> buf_left b")
  case True
  then show ?thesis using assms that(2) [of "hd (buf_rest b)"] length_buf_rest [OF assms]
    by (cases "buf_rest b") (auto simp: buf_rest_advance)
next
  case False
  then show ?thesis using assms that(1) by (metis length_buf_rest length_0_conv less_one not_le)
qed

lemma path_max_pos [simp]: "0 < MAX_BIP32_PATH"
  by (simp add: MAX_BIP32_PATH_def)

text \<open>Reading the path: what the context holds after it, whether or not the path is well formed.\<close>

lemma read_path_ok:
  assumes B: "buffer_ok (sdk_buffer k)" and wf: "buf_wf b" and G: "context_wf (G_context s)"
  shows "\<exists>n p. length p = MAX_BIP32_PATH \<and>
     read_path k b s = Some (path_request (buf_rest b) \<noteq> None,
       s\<lparr>G_context := (G_context s)\<lparr>bip32_path_len := n, bip32_path := p\<rparr>\<rparr>) \<and>
     (\<forall>path. path_request (buf_rest b) = Some path \<longrightarrow>
        unat n \<le> MAX_BIP32_PATH \<and> take (unat n) p = path) \<and>
     (buf_rest b \<noteq> [] \<longrightarrow> n = hd (buf_rest b))"
proof (cases rule: buf_rest_cases [OF wf])
  case 1
  obtain ok n c where call: "buffer_read_u8 (sdk_buffer k) b = (ok, n, c)" by (metis prod_cases3)
  with buffer_read_u8_fail [OF B wf 1(2)] have "\<not> ok" by simp
  then show ?thesis using G 1(1) call
    by (auto simp: read_path_def path_request_def context_wf_def intro!: exI [of _ n] exI [of _ "bip32_path (G_context s)"])
next
  case (2 n)
  let ?c = "advance 1 b"
  let ?p = "bip32_path (G_context s)"
  have n: "buffer_read_u8 (sdk_buffer k) b = (True, n, ?c)"
    using buffer_read_u8_ok [OF B wf 2(2)] 2(1) by simp
  have wfc: "buf_wf ?c" using wf 2(2) by simp
  have len: "length ?p = MAX_BIP32_PATH" using G by (simp add: context_wf_def)
  obtain ok path d where call: "buffer_read_bip32_path (sdk_buffer k) ?c (unat n) = (ok, path, d)"
    by (metis prod_cases3)
  have lr: "length (buf_rest ?c) = buf_left ?c" using wfc by simp
  show ?thesis
  proof (cases "1 \<le> unat n \<and> unat n \<le> MAX_BIP32_PATH \<and> 4 * unat n \<le> buf_left ?c")
    case True
    then have path: "ok" "path = be32_vals (unat n) (buf_rest ?c)" "length path = unat n"
      using buffer_path_ok [OF B wfc] call lr by (auto simp: length_be32_vals)
    have req: "path_request (buf_rest b) = Some path" using True path lr by (simp add: path_request_def 2(1))
    have "mem_write ?p 0 path = Some (path @ drop (length path) ?p)"
      using path(3) len True by (intro mem_write_start) simp
    then show ?thesis using n call path req len True 2(1)
      by (auto simp: read_path_def intro!: exI [of _ n] exI [of _ "path @ drop (length path) ?p"])
  next
    case False
    then have path: "\<not> ok" "length path \<le> MAX_BIP32_PATH"
      using buffer_path_fail [OF B wfc False] call by auto
    have req: "path_request (buf_rest b) = None" using False lr by (simp add: path_request_def 2(1))
    have "mem_write ?p 0 path = Some (path @ drop (length path) ?p)"
      using path(2) len by (intro mem_write_start) simp
    then show ?thesis using n call path req len 2(1)
      by (auto simp: read_path_def intro!: exI [of _ n] exI [of _ "path @ drop (length path) ?p"])
  qed
qed

text \<open>Writing one half of the key pair keeps the other half and the rest of the context.\<close>

lemma set_raw_public_key_ok:
  assumes "context_wf G" and "length pk = PUBKEY_LEN"
  shows "\<exists>raw. set_raw_public_key pk G = Some (G\<lparr>tx_info := (tx_info G)\<lparr>raw_tx := raw\<rparr>\<rparr>) \<and>
     length raw = MAX_TRANSACTION_LEN \<and> slice raw 0 PUBKEY_LEN = pk \<and>
     slice raw PUBKEY_LEN CHAINCODE_LEN = chain_code G"
  using assms
  by (intro exI [of _ "pk @ drop 65 (raw_tx (tx_info G))"])
     (simp add: set_raw_public_key_def context_wf_def mem_write_start slice_def chain_code_def)

lemma set_chain_code_ok:
  assumes "context_wf G" and "length cc = CHAINCODE_LEN"
  shows "\<exists>raw. set_chain_code cc G = Some (G\<lparr>tx_info := (tx_info G)\<lparr>raw_tx := raw\<rparr>\<rparr>) \<and>
     length raw = MAX_TRANSACTION_LEN \<and> slice raw 0 PUBKEY_LEN = raw_public_key G \<and>
     slice raw PUBKEY_LEN CHAINCODE_LEN = cc"
  using assms
  by (intro exI [of _ "take 65 (raw_tx (tx_info G)) @ cc @ drop 97 (raw_tx (tx_info G))"])
     (simp add: set_chain_code_def context_wf_def mem_write_def slice_def raw_public_key_def)

lemma context_wf_raw:
  "context_wf G \<Longrightarrow> length raw = MAX_TRANSACTION_LEN \<Longrightarrow> context_wf (G\<lparr>tx_info := (tx_info G)\<lparr>raw_tx := raw\<rparr>\<rparr>)"
  by (simp add: context_wf_def)

lemma pubkey_lengths:
  assumes "crypto_ok C" and "bip32_derive_get_pubkey_256 C c p n md = (e, pk, cc)"
  shows "length pk = 65" and "length cc = 32"
  using assms unfolding crypto_ok_def by (metis fst_conv snd_conv)+

lemma compress_length:
  "crypto_ok C \<Longrightarrow> cx_edwards_compress_point_no_throw C c q = (e, q') \<Longrightarrow> length q' = length q"
  unfolding crypto_ok_def by (metis snd_conv)

text \<open>The context after a path was read into a cleared one.\<close>

definition path_context :: "request_type_e \<Rightarrow> u8 \<Rightarrow> u32 list \<Rightarrow> global_ctx_t" where
  "path_context rt n p =
     zero_context\<lparr>req_type := rt, gstate := STATE_NONE, bip32_path_len := n, bip32_path := p\<rparr>"

lemma path_context_wf: "length p = MAX_BIP32_PATH \<Longrightarrow> context_wf (path_context rt n p)"
  using context_wf_zero by (simp add: path_context_def context_wf_def)

lemma read_path_zero:
  assumes B: "buffer_ok (sdk_buffer k)" and wf: "buf_wf b"
  obtains n p where "length p = MAX_BIP32_PATH"
    and "read_path k b (s\<lparr>G_context := zero_context\<lparr>req_type := rt, gstate := STATE_NONE\<rparr>\<rparr>) =
           Some (path_request (buf_rest b) \<noteq> None, s\<lparr>G_context := path_context rt n p\<rparr>)"
    and "\<And>path. path_request (buf_rest b) = Some path \<Longrightarrow> unat n \<le> MAX_BIP32_PATH \<and> take (unat n) p = path"
    and "buf_rest b \<noteq> [] \<Longrightarrow> n = hd (buf_rest b)"
proof -
  have "context_wf (zero_context\<lparr>req_type := rt, gstate := STATE_NONE\<rparr>)"
    using context_wf_zero by (simp add: context_wf_def)
  then show thesis
    using read_path_ok [OF B wf, of "s\<lparr>G_context := zero_context\<lparr>req_type := rt, gstate := STATE_NONE\<rparr>\<rparr>"] that
    by (auto simp: path_context_def)
qed

text \<open>The public key command, on every branch.\<close>

definition sw_answer :: "u16 \<Rightarrow> apdu_response" where
  "sw_answer sw = \<lparr>resp_data = [], resp_sw = sw\<rparr>"

lemma get_public_key_bad_path:
  assumes "buffer_ok (sdk_buffer k)" and "buf_wf b" and "path_request (buf_rest b) = None"
  shows "\<exists>r n p. length p = MAX_BIP32_PATH \<and> handler_get_public_key k b d s =
     Some (r, s\<lparr>G_context := path_context CONFIRM_ADDRESS n p, sent := sent s @ [sw_answer SWO_WRONG_DATA_LENGTH]\<rparr>)"
proof (cases rule: read_path_zero [OF assms(1,2), where s = s and rt = CONFIRM_ADDRESS])
  case (1 n p)
  then show ?thesis using assms(3)
    by (auto simp: handler_get_public_key_def io_send_sw_eq sw_answer_def)
qed

text \<open>The key, the chain code and the compressed key, written one after the other into a fresh context.\<close>

lemma key_stored:
  assumes "context_wf G" and "tx_info G = zero_tx_info" and "length pk = 65" and "length cc = 32" and "length q = 65"
  shows "\<exists>G1 raw2 raw3. set_raw_public_key pk G = Some G1 \<and>
     set_chain_code cc G1 = Some (G\<lparr>tx_info := zero_tx_info\<lparr>raw_tx := raw2\<rparr>\<rparr>) \<and>
     set_raw_public_key q (G\<lparr>tx_info := zero_tx_info\<lparr>raw_tx := raw2\<rparr>\<rparr>) = Some (G\<lparr>tx_info := zero_tx_info\<lparr>raw_tx := raw3\<rparr>\<rparr>) \<and>
     length raw2 = 2600 \<and> length raw3 = 2600 \<and> slice raw2 0 65 = pk \<and> slice raw2 65 32 = cc \<and>
     slice raw3 0 65 = q \<and> slice raw3 65 32 = cc"
proof -
  obtain raw1 where r1: "set_raw_public_key pk G = Some (G\<lparr>tx_info := zero_tx_info\<lparr>raw_tx := raw1\<rparr>\<rparr>)"
    "length raw1 = 2600" "slice raw1 0 65 = pk"
    using set_raw_public_key_ok [OF assms(1,3)] assms(2) by auto
  let ?G1 = "G\<lparr>tx_info := zero_tx_info\<lparr>raw_tx := raw1\<rparr>\<rparr>"
  have "context_wf ?G1" using context_wf_raw [OF assms(1) r1(2)] assms(2) by simp
  from set_chain_code_ok [OF this assms(4)] r1(3) obtain raw2 where
    r2: "set_chain_code cc ?G1 = Some (G\<lparr>tx_info := zero_tx_info\<lparr>raw_tx := raw2\<rparr>\<rparr>)"
    "length raw2 = 2600" "slice raw2 0 65 = pk" "slice raw2 65 32 = cc"
    by (auto simp: raw_public_key_def)
  let ?G2 = "G\<lparr>tx_info := zero_tx_info\<lparr>raw_tx := raw2\<rparr>\<rparr>"
  have "context_wf ?G2" "chain_code ?G2 = cc"
    using context_wf_raw [OF assms(1) r2(2)] assms(2) r2 by (simp_all add: chain_code_def)
  from set_raw_public_key_ok [OF this(1) assms(5)] this(2) obtain raw3 where
    "set_raw_public_key q ?G2 = Some (G\<lparr>tx_info := zero_tx_info\<lparr>raw_tx := raw3\<rparr>\<rparr>)"
    "length raw3 = 2600" "slice raw3 0 65 = q" "slice raw3 65 32 = cc" by auto
  with r1 r2 show ?thesis by blast
qed

lemma get_public_key_ok:
  assumes B: "buffer_ok (sdk_buffer k)" and C: "crypto_ok (sdk_crypto k)" and wf: "buf_wf b"
    and req: "path_request (buf_rest b) = Some path"
    and derive: "bip32_derive_get_pubkey_256 (sdk_crypto k) CX_CURVE_Ed25519 path (length path) CX_SHA512 = (e1, pk, cc)"
    and compress: "cx_edwards_compress_point_no_throw (sdk_crypto k) CX_CURVE_Ed25519 pk = (e2, q)"
  shows "\<exists>r n p raw. length p = MAX_BIP32_PATH \<and> length raw = MAX_TRANSACTION_LEN \<and>
     unat n \<le> MAX_BIP32_PATH \<and> take (unat n) p = path \<and>
     (let G = (path_context CONFIRM_ADDRESS n p)\<lparr>tx_info := zero_tx_info\<lparr>raw_tx := raw\<rparr>\<rparr> in
      handler_get_public_key k b d s =
        (if e1 \<noteq> CX_OK then Some (r, s\<lparr>G_context := G, sent := sent s @ [sw_answer (ucast e1)]\<rparr>)
         else if e2 \<noteq> CX_OK then Some (r, s\<lparr>G_context := G, sent := sent s @ [sw_answer (ucast e2)]\<rparr>)
         else if d then ui_display_address k (s\<lparr>G_context := G\<rparr>)
         else Some (r, s\<lparr>G_context := G, sent := sent s @ [pubkey_answer G]\<rparr>)) \<and>
      (e1 = CX_OK \<longrightarrow> raw_public_key G = q) \<and> chain_code G = cc)"
proof (cases rule: read_path_zero [OF B wf, where s = s and rt = CONFIRM_ADDRESS])
  case (1 n p)
  from 1(3) [OF req] have n: "unat n \<le> MAX_BIP32_PATH" "take (unat n) p = path" by auto
  then have nl: "unat n = length path" using 1(1) by auto
  let ?G0 = "path_context CONFIRM_ADDRESS n p"
  have rd: "mem_slice (bip32_path ?G0) 0 (unat (bip32_path_len ?G0)) = Some path"
    using n 1(1) by (simp add: path_context_def mem_slice_def slice_def)
  have G0: "context_wf ?G0" "tx_info ?G0 = zero_tx_info" "bip32_path_len ?G0 = n"
    using 1(1) by (simp_all add: path_context_wf) (simp_all add: path_context_def zero_context_def)
  note len = pubkey_lengths [OF C derive]
  have ql: "length q = 65" using compress_length [OF C compress] len by simp
  obtain G1 raw2 raw3 where w: "set_raw_public_key pk ?G0 = Some G1"
    "set_chain_code cc G1 = Some (?G0\<lparr>tx_info := zero_tx_info\<lparr>raw_tx := raw2\<rparr>\<rparr>)"
    "set_raw_public_key q (?G0\<lparr>tx_info := zero_tx_info\<lparr>raw_tx := raw2\<rparr>\<rparr>) = Some (?G0\<lparr>tx_info := zero_tx_info\<lparr>raw_tx := raw3\<rparr>\<rparr>)"
    "length raw2 = 2600" "length raw3 = 2600" "slice raw2 0 65 = pk" "slice raw2 65 32 = cc" "slice raw3 0 65 = q" "slice raw3 65 32 = cc"
    using key_stored [OF G0(1,2) len ql] by blast
  let ?G2 = "?G0\<lparr>tx_info := zero_tx_info\<lparr>raw_tx := raw2\<rparr>\<rparr>" and ?G3 = "?G0\<lparr>tx_info := zero_tx_info\<lparr>raw_tx := raw3\<rparr>\<rparr>"
  have G2: "raw_public_key ?G2 = pk" "chain_code ?G2 = cc" and G3: "raw_public_key ?G3 = q" "chain_code ?G3 = cc"
    using w by (simp_all add: raw_public_key_def chain_code_def)
  have run: "handler_get_public_key k b d s =
      (if e1 \<noteq> CX_OK then io_send_sw k (ucast e1) (s\<lparr>G_context := ?G2\<rparr>)
       else if e2 \<noteq> CX_OK then io_send_sw k (ucast e2) (s\<lparr>G_context := ?G3\<rparr>)
       else if d then ui_display_address k (s\<lparr>G_context := ?G3\<rparr>)
       else helper_send_response_pubkey k (s\<lparr>G_context := ?G3\<rparr>))"
    using 1(2) req rd derive compress nl w(1-3) G2(1) G0(3)
    by (simp add: handler_get_public_key_def)
  obtain r where "helper_send_response_pubkey k (s\<lparr>G_context := ?G3\<rparr>) =
      Some (r, s\<lparr>G_context := ?G3, sent := sent s @ [pubkey_answer ?G3]\<rparr>)"
    using send_pubkey_ok [of "s\<lparr>G_context := ?G3\<rparr>" k] context_wf_raw [OF G0(1) w(5)] G0(2) by auto
  then show ?thesis
    using run 1(1) n w(4,5) G2(2) G3
    by (cases "e1 = CX_OK") (auto simp: io_send_sw_eq sw_answer_def Let_def)
qed

lemma plain_answers [simp]:
  "plain (sw_answer sw)" "plain \<lparr>resp_data = [], resp_sw = sw\<rparr>"
  "context_wf G \<Longrightarrow> plain (pubkey_answer G)"
  by (simp_all add: plain_def sw_answer_def pubkey_answer_def raw_public_key_def chain_code_def context_wf_def)

lemma outcome_answered:
  "plain x \<Longrightarrow> state_wf (s\<lparr>G_context := G\<rparr>) \<Longrightarrow> outcome k s (s\<lparr>G_context := G, sent := sent s @ [x]\<rparr>)"
  by (simp add: outcome_def answered_def)

lemma outcome_send [simp]: "plain x \<Longrightarrow> state_wf s \<Longrightarrow> outcome k s (s\<lparr>sent := sent s @ [x]\<rparr>)"
  by (simp add: outcome_def answered_def)

lemma outcome_context:
  "outcome k (s\<lparr>G_context := G\<rparr>) s' \<Longrightarrow> outcome k s s'"
  by (simp add: outcome_def answered_def)

lemma display_address_outcome:
  assumes k: "crypto_ok (sdk_crypto k)" "format_ok (sdk_format k)" and wf: "state_wf s"
  shows "\<exists>r s'. ui_display_address k s = Some (r, s') \<and> outcome k s s' \<and> (screen s' = Page_review \<longrightarrow> screen s = Page_review) \<and>
           bip32_path_len (G_context s') = bip32_path_len (G_context s)"
proof (cases "req_type (G_context s) = CONFIRM_ADDRESS \<and> gstate (G_context s) = STATE_NONE")
  case True
  obtain err h where "cx_keccak_256_hash (sdk_crypto k) (tl (raw_public_key (G_context s))) = (err, h)"
    by fastforce
  from ui_display_address_ok [OF k wf _ _ this] True wf show ?thesis
    by (cases "err = CX_OK") (auto simp: outcome_def answered_def state_wf_def statics_wf_def)
next
  case False
  moreover have "context_wf ((G_context s)\<lparr>gstate := STATE_NONE\<rparr>)"
    using wf by (simp add: state_wf_def context_wf_def)
  ultimately show ?thesis using wf
    by (auto simp: ui_display_address_def io_send_sw_eq set_gstate_def intro!: outcome_answered state_wf_context)
qed

lemma get_public_key_outcome:
  assumes k: "sdk_ok k" and wf: "buf_wf b" and s: "state_wf s"
  shows "\<exists>r s'. handler_get_public_key k b d s = Some (r, s') \<and> outcome k s s' \<and> (screen s' = Page_review \<longrightarrow> screen s = Page_review) \<and>
           (path_request (buf_rest b) \<noteq> None \<longrightarrow> path_ok s')"
proof (cases "path_request (buf_rest b)")
  case None
  from k have B: "buffer_ok (sdk_buffer k)" by (simp add: sdk_ok_def)
  from get_public_key_bad_path [OF B wf None, of d s] None s show ?thesis
    by (auto simp: path_context_wf intro!: outcome_answered state_wf_context)
next
  case (Some path)
  from k have B: "buffer_ok (sdk_buffer k)" and C: "crypto_ok (sdk_crypto k)" and F: "format_ok (sdk_format k)"
    by (simp_all add: sdk_ok_def)
  obtain e1 pk cc where d1: "bip32_derive_get_pubkey_256 (sdk_crypto k) CX_CURVE_Ed25519 path (length path) CX_SHA512 = (e1, pk, cc)"
    by (metis prod_cases3)
  obtain e2 q where d2: "cx_edwards_compress_point_no_throw (sdk_crypto k) CX_CURVE_Ed25519 pk = (e2, q)"
    by fastforce
  from get_public_key_ok [OF B C wf Some d1 d2, of d s] obtain r n p raw where
    p: "length p = MAX_BIP32_PATH" "length raw = 2600" "unat n \<le> MAX_BIP32_PATH"
    and run: "handler_get_public_key k b d s = (let G = (path_context CONFIRM_ADDRESS n p)\<lparr>tx_info := zero_tx_info\<lparr>raw_tx := raw\<rparr>\<rparr> in
        if e1 \<noteq> CX_OK then Some (r, s\<lparr>G_context := G, sent := sent s @ [sw_answer (ucast e1)]\<rparr>)
         else if e2 \<noteq> CX_OK then Some (r, s\<lparr>G_context := G, sent := sent s @ [sw_answer (ucast e2)]\<rparr>)
         else if d then ui_display_address k (s\<lparr>G_context := G\<rparr>)
         else Some (r, s\<lparr>G_context := G, sent := sent s @ [pubkey_answer G]\<rparr>))"
    unfolding Let_def by blast
  let ?G = "(path_context CONFIRM_ADDRESS n p)\<lparr>tx_info := zero_tx_info\<lparr>raw_tx := raw\<rparr>\<rparr>"
  have G: "context_wf ?G" "bip32_path_len ?G = n" using path_context_wf [OF p(1)] context_wf_zero p(2)
    by (simp_all add: context_wf_def path_context_def zero_context_def)
  have wfG: "state_wf (s\<lparr>G_context := ?G\<rparr>)" by (rule state_wf_context [OF s G(1)])
  note o = outcome_answered [OF _ wfG]
  show ?thesis
  proof (cases "e1 = CX_OK \<and> e2 = CX_OK \<and> d")
    case True
    then show ?thesis using run display_address_outcome [OF C F wfG] G(2) p(3)
      by (auto simp: path_ok_def intro: outcome_context)
  next
    case False
    then show ?thesis using run G p(3) o
      by (simp add: path_ok_def Let_def)
  qed
qed

section \<open>Properties\<close>

text \<open>C36. The public key command without display, on every branch: a malformed path is answered
  6A87, a failed derivation or compression with its error code cut to 16 bits, and otherwise the
  answer is 65, the 65 bytes of the compressed key array, 32, and the chain code. The key never
  overwrites the chain code, which shares the union with it.\<close>

theorem public_key_answers:
  assumes "sdk_ok k" and "buf_wf b"
  shows "\<exists>r s'. handler_get_public_key k b False s = Some (r, s') \<and> screen s' = screen s \<and>
     (case path_request (buf_rest b) of
        None \<Rightarrow> sent s' = sent s @ [sw_answer SWO_WRONG_DATA_LENGTH]
      | Some path \<Rightarrow>
          (let (e1, pk, cc) = bip32_derive_get_pubkey_256 (sdk_crypto k) CX_CURVE_Ed25519 path (length path) CX_SHA512;
               (e2, q) = cx_edwards_compress_point_no_throw (sdk_crypto k) CX_CURVE_Ed25519 pk
           in sent s' = sent s @
                [if e1 \<noteq> CX_OK then sw_answer (ucast e1)
                 else if e2 \<noteq> CX_OK then sw_answer (ucast e2)
                 else \<lparr>resp_data = 65 # q @ 32 # cc, resp_sw = SWO_SUCCESS\<rparr>]))"
proof (cases "path_request (buf_rest b)")
  case None
  then show ?thesis using get_public_key_bad_path [of k b False s] assms by (auto simp: sdk_ok_def)
next
  case (Some path)
  obtain e1 pk cc where d1: "bip32_derive_get_pubkey_256 (sdk_crypto k) CX_CURVE_Ed25519 path (length path) CX_SHA512 = (e1, pk, cc)"
    by (metis prod_cases3)
  obtain e2 q where d2: "cx_edwards_compress_point_no_throw (sdk_crypto k) CX_CURVE_Ed25519 pk = (e2, q)"
    by fastforce
  obtain r G where run: "handler_get_public_key k b False s =
        (if e1 \<noteq> CX_OK then Some (r, s\<lparr>G_context := G, sent := sent s @ [sw_answer (ucast e1)]\<rparr>)
         else if e2 \<noteq> CX_OK then Some (r, s\<lparr>G_context := G, sent := sent s @ [sw_answer (ucast e2)]\<rparr>)
         else Some (r, s\<lparr>G_context := G, sent := sent s @ [pubkey_answer G]\<rparr>))"
    and G: "e1 = CX_OK \<longrightarrow> raw_public_key G = q" "chain_code G = cc"
    using get_public_key_ok [OF _ _ assms(2) Some d1 d2, of False s] assms(1)
    unfolding sdk_ok_def Let_def if_False by blast
  show ?thesis using run G Some d1 d2
    by (cases "e1 = CX_OK"; cases "e2 = CX_OK") (simp_all add: pubkey_answer_def)
qed

theorem public_key_answers_witness:
  "\<exists>r s'. handler_get_public_key ref_sdk (payload_buffer [1, 0x80, 0, 0, 44]) False (boot_state default_nvm) = Some (r, s') \<and>
     sent s' = [\<lparr>resp_data = 65 # (4 # replicate 64 1) @ 32 # replicate 32 7, resp_sw = SWO_SUCCESS\<rparr>]"
proof -
  have "path_request [1, 0x80, 0, 0, 44] = Some [0x8000002C]"
    by (simp add: path_request_def MAX_BIP32_PATH_def be32_val_def)
  then show ?thesis
    using public_key_answers [of ref_sdk "payload_buffer [1, 0x80, 0, 0, 44]" "boot_state default_nvm"]
    by (auto simp: ref_crypto_lib_def)
qed

end
