(* ===== verification/Sign_Tx.thy ===== *)
theory Sign_Tx
  imports Get_Handlers
begin

text \<open>
  The signing handler, \<^verbatim>\<open>handler/sign_tx.c\<close>: the first chunk clears the context and reads the path,
  the following chunks are appended to \<open>raw_tx\<close>, and after the last one the payload is parsed,
  hashed and put on the screen. What a stream of chunks does to the payload is compared with
  \<open>have_room\<close>, which says of each chunk whether it fits behind the ones stored before it. The code under \<^verbatim>\<open>HAVE_SWAP\<close>, which this build leaves out, is in
  \<open>Swap_Sign\<close>.
\<close>

section \<open>The code\<close>

definition init_transaction_context :: "sdk \<Rightarrow> buffer_t \<Rightarrow> request_type_e \<Rightarrow> app_state \<Rightarrow> result" where
  "init_transaction_context k cdata rt s = do {
     let s = s\<lparr>G_context := zero_context\<lparr>req_type := rt, gstate := STATE_NONE\<rparr>\<rparr>;
     (ok, s) \<leftarrow> read_path k cdata s;
     if \<not> ok then io_send_sw k SWO_WRONG_DATA_LENGTH s
     else io_send_sw k SWO_SUCCESS s
   }"

definition accumulate_transaction_data ::
  "sdk \<Rightarrow> buffer_t \<Rightarrow> request_type_e \<Rightarrow> app_state \<Rightarrow> (u16 \<times> app_state) option" where
  "accumulate_transaction_data k cdata rt s =
     (let G = G_context s; t = tx_info G in
      if req_type G \<noteq> rt then Some (SWO_CONDITIONS_NOT_SATISFIED, s)
      else if raw_tx_len t + buf_size cdata > MAX_TRANSACTION_LEN then Some (SWO_WRONG_DATA_LENGTH, s)
      else
        let (ok, data, cdata') = buffer_move (sdk_buffer k) cdata (buf_size cdata) in
        if \<not> ok then Some (SWO_INCORRECT_DATA, s)
        else do {
          raw \<leftarrow> mem_write (raw_tx t) (raw_tx_len t) data;
          Some (SWO_SUCCESS,
            s\<lparr>G_context := G\<lparr>tx_info := t\<lparr>raw_tx := raw, raw_tx_len := raw_tx_len t + buf_size cdata'\<rparr>\<rparr>\<rparr>)
        })"

definition process_transaction :: "sdk \<Rightarrow> bool \<Rightarrow> app_state \<Rightarrow> (u16 \<times> app_state) option" where
  "process_transaction k is_token s = do {
     let G = G_context s;
     let t = tx_info G;
     let buf = \<lparr>buf_ptr = raw_tx t, buf_size = raw_tx_len t, buf_offset = 0\<rparr>;
     let t = t\<lparr>is_token_tx := False\<rparr>;
     (status, buf, tx) \<leftarrow> transaction_deserialize (sdk_buffer k) buf (transaction t) False;
     let t = t\<lparr>transaction := tx\<rparr>;
     if status \<noteq> PARSING_OK then Some (SWO_INCORRECT_DATA, s\<lparr>G_context := G\<lparr>tx_info := t\<rparr>\<rparr>)
     else do {
       let G = G\<lparr>gstate := STATE_PARSED\<rparr>;
       input \<leftarrow> mem_slice (raw_tx t) 0 (raw_tx_len t);
       let (n, h) = cx_hash_sha256 (sdk_crypto k) input 32;
       h \<leftarrow> mem_write (m_hash t) 0 h;
       let s = s\<lparr>G_context := G\<lparr>tx_info := t\<lparr>m_hash := h\<rparr>\<rparr>\<rparr>;
       if n \<noteq> 32 then Some (SWO_INCORRECT_DATA, s)
       else Some (SWO_SUCCESS, s)
     }
   }"

definition handler_sign_tx :: "sdk \<Rightarrow> buffer_t \<Rightarrow> u8 \<Rightarrow> bool \<Rightarrow> bool \<Rightarrow> app_state \<Rightarrow> result" where
  "handler_sign_tx k cdata chunk more_chunks is_token s =
     (let rt = (if is_token then CONFIRM_TOKEN_TRANSACTION else CONFIRM_TRANSACTION) in
      if chunk = 0 then init_transaction_context k cdata rt s
      else do {
        (err, s) \<leftarrow> accumulate_transaction_data k cdata rt s;
        if err \<noteq> SWO_SUCCESS then io_send_sw k err s
        else if more_chunks then io_send_sw k SWO_SUCCESS s
        else do {
          (err, s) \<leftarrow> process_transaction k is_token s;
          if err \<noteq> SWO_SUCCESS then io_send_sw k err s
          else ui_display_transaction k s
        }
      })"

section \<open>Each part\<close>

lemma init_transaction_context_ok:
  assumes "buffer_ok (sdk_buffer k)" and "buf_wf b"
  shows "\<exists>r n p. length p = MAX_BIP32_PATH \<and>
     init_transaction_context k b rt s = Some (r, s\<lparr>G_context := path_context rt n p,
       sent := sent s @ [sw_answer (if path_request (buf_rest b) = None then SWO_WRONG_DATA_LENGTH else SWO_SUCCESS)]\<rparr>) \<and>
     (\<forall>path. path_request (buf_rest b) = Some path \<longrightarrow> unat n \<le> MAX_BIP32_PATH \<and> take (unat n) p = path) \<and>
     (buf_rest b \<noteq> [] \<longrightarrow> n = hd (buf_rest b))"
proof (cases rule: read_path_zero [OF assms, where s = s and rt = rt])
  case (1 n p)
  then show ?thesis
    by (auto simp: init_transaction_context_def io_send_sw_eq sw_answer_def intro!: exI [of _ n] exI [of _ p])
qed

text \<open>The context with more payload.\<close>

definition extend_context :: "bytes \<Rightarrow> global_ctx_t \<Rightarrow> global_ctx_t" where
  "extend_context data G =
     (let t = tx_info G; n = raw_tx_len t in
      G\<lparr>tx_info := t\<lparr>raw_tx := take n (raw_tx t) @ data @ drop (n + length data) (raw_tx t),
                     raw_tx_len := n + length data\<rparr>\<rparr>)"

text \<open>A chunk: refused in the wrong context, refused when it does not fit, appended otherwise. The
  buffer is fresh, as the dispatcher makes it.\<close>

lemma accumulate_ok:
  assumes B: "buffer_ok (sdk_buffer k)" and wf: "buf_wf b" "buf_offset b = 0" and G: "context_wf (G_context s)"
  shows "accumulate_transaction_data k b rt s =
     (if req_type (G_context s) \<noteq> rt then Some (SWO_CONDITIONS_NOT_SATISFIED, s)
      else if raw_tx_len (tx_info (G_context s)) + length (buf_rest b) > MAX_TRANSACTION_LEN
      then Some (SWO_WRONG_DATA_LENGTH, s)
      else Some (SWO_SUCCESS, s\<lparr>G_context := extend_context (buf_rest b) (G_context s)\<rparr>))"
proof -
  have sz: "buf_size b = buf_left b" "length (buf_rest b) = buf_left b" using wf by (simp_all add: buf_left_def)
  have "buffer_move (sdk_buffer k) b (buf_left b) = (True, buf_rest b, advance (buf_left b) b)"
    by (rule buffer_move_ok [OF B wf(1) refl])
  then show ?thesis using sz G
    by (simp add: accumulate_transaction_data_def Let_def mem_write_def context_wf_def extend_context_def)
qed

lemma extend_context_wf:
  "context_wf G \<Longrightarrow> raw_tx_len (tx_info G) + length data \<le> MAX_TRANSACTION_LEN \<Longrightarrow> context_wf (extend_context data G)"
  by (simp add: extend_context_def context_wf_def Let_def)

lemma extend_context_simps [simp]:
  "req_type (extend_context d G) = req_type G"
  "bip32_path_len (extend_context d G) = bip32_path_len G"
  "bip32_path (extend_context d G) = bip32_path G"
  "gstate (extend_context d G) = gstate G"
  "m_hash (tx_info (extend_context d G)) = m_hash (tx_info G)"
  "raw_tx_len (tx_info (extend_context d G)) = raw_tx_len (tx_info G) + length d"
  by (simp_all add: extend_context_def Let_def)

lemma payload_extend:
  assumes "context_wf (G_context s)"
  shows "payload (s\<lparr>G_context := extend_context d (G_context s)\<rparr>) = payload s @ d"
  using assms by (simp add: payload_def extend_context_def Let_def context_wf_def)

text \<open>Parsing and hashing: on a payload that is no message the context keeps its state and its
  digest; on a message the state becomes parsed, the digest is the hash of the payload, and the
  fields point into it.\<close>

definition parsed_context :: "email_t \<Rightarrow> bytes \<Rightarrow> global_ctx_t \<Rightarrow> global_ctx_t" where
  "parsed_context tx h G =
     G\<lparr>gstate := STATE_PARSED, tx_info := (tx_info G)\<lparr>is_token_tx := False, transaction := tx, m_hash := h\<rparr>\<rparr>"

lemma process_transaction_ok:
  assumes B: "buffer_ok (sdk_buffer k)" and C: "crypto_ok (sdk_crypto k)" and G: "context_wf (G_context s)"
    and hash: "cx_hash_sha256 (sdk_crypto k) (payload s) 32 = (n, h)"
  shows "\<exists>tx. (case parse_email (payload s) of
       Inl _ \<Rightarrow> process_transaction k tok s = Some (SWO_INCORRECT_DATA,
           s\<lparr>G_context := (G_context s)\<lparr>tx_info := (tx_info (G_context s))\<lparr>is_token_tx := False, transaction := tx\<rparr>\<rparr>\<rparr>)
     | Inr e \<Rightarrow> process_transaction k tok s = Some (if n = 32 then SWO_SUCCESS else SWO_INCORRECT_DATA,
           s\<lparr>G_context := parsed_context tx h (G_context s)\<rparr>) \<and>
         email_view (raw_tx (tx_info (G_context s))) tx = e \<and>
         tx_in (length (raw_tx (tx_info (G_context s)))) tx \<and> tx_to tx = Some (recipient_offset e))"
proof -
  let ?t = "tx_info (G_context s)"
  let ?b = "\<lparr>buf_ptr = raw_tx ?t, buf_size = raw_tx_len ?t, buf_offset = 0\<rparr>"
  from G have len: "length (raw_tx ?t) = 2600" "raw_tx_len ?t \<le> 2600" "length (m_hash ?t) = 32"
    by (simp_all add: context_wf_def)
  have b: "buf_wf ?b" "buf_rest ?b = payload s" "buf_size ?b \<le> 2600"
    using len by (simp_all add: buf_wf_def buf_rest_def buf_left_def payload_def slice_def)
  have h: "length h = 32" using C hash unfolding crypto_ok_def by (metis snd_conv)
  have rd: "mem_slice (raw_tx ?t) 0 (raw_tx_len ?t) = Some (payload s)"
    using len by (simp add: mem_slice_def slice_def payload_def)
  have wr: "mem_write (m_hash ?t) 0 h = Some h" using len h by (simp add: mem_write_def)
  note d = deserialize_refines_parse_email [OF B b(1) b(3), of "transaction ?t" False, unfolded b(2)]
  show ?thesis
  proof (cases "parse_email (payload s)")
    case (Inl st)
    then have "st \<noteq> PARSING_OK" using parse_email_never_ok by auto
    with d Inl show ?thesis
      by (auto simp: process_transaction_def Let_def)
  next
    case (Inr e)
    with d obtain b' tx where r: "transaction_deserialize (sdk_buffer k) ?b (transaction ?t) False = Some (PARSING_OK, b', tx)"
      "email_view (raw_tx ?t) tx = e" "tx_in (length (raw_tx ?t)) tx"
      "tx_to tx = Some (recipient_offset e)" by auto
    have "process_transaction k tok s = Some (if n = 32 then SWO_SUCCESS else SWO_INCORRECT_DATA,
        s\<lparr>G_context := parsed_context tx h (G_context s)\<rparr>)"
      using r(1) rd wr hash by (simp add: process_transaction_def Let_def parsed_context_def)
    with r(2-4) Inr show ?thesis by auto
  qed
qed

section \<open>The handler\<close>

lemma parsed_context_wf: "context_wf G \<Longrightarrow> length h = 32 \<Longrightarrow> context_wf (parsed_context tx h G)"
  by (simp add: parsed_context_def context_wf_def)

lemma payload_parsed [simp]: "payload (s\<lparr>G_context := parsed_context tx h G\<rparr>) = payload (s\<lparr>G_context := G\<rparr>)"
  by (simp add: payload_def parsed_context_def)

text \<open>The last chunk of a message, from the buffers to the screen.\<close>

lemma sign_last_chunk:
  assumes k: "sdk_ok k" and b: "buf_wf b" "buf_offset b = 0" and s: "state_wf s"
    and rt: "req_type (G_context s) = CONFIRM_TRANSACTION" and chunk: "chunk \<noteq> 0"
    and fits: "raw_tx_len (tx_info (G_context s)) + length (buf_rest b) \<le> MAX_TRANSACTION_LEN"
    and e: "parse_email (payload s @ buf_rest b) = Inr e"
    and hash: "cx_hash_sha256 (sdk_crypto k) (payload s @ buf_rest b) 32 = (32, h)"
  shows "\<exists>s' tx. handler_sign_tx k b chunk False False s = Some (0, s') \<and>
     displayed (s\<lparr>G_context := parsed_context tx h (extend_context (buf_rest b) (G_context s))\<rparr>) s' e \<and>
     consistent k s' \<and> payload s' = payload s @ buf_rest b \<and> state_wf s'"
proof -
  let ?s1 = "s\<lparr>G_context := extend_context (buf_rest b) (G_context s)\<rparr>"
  from k have B: "buffer_ok (sdk_buffer k)" and C: "crypto_ok (sdk_crypto k)" and F: "format_ok (sdk_format k)"
    by (simp_all add: sdk_ok_def)
  have G: "context_wf (G_context s)" and st: "statics_wf s" using s by (simp_all add: state_wf_def)
  have G1: "context_wf (G_context ?s1)" using extend_context_wf [OF G fits] by simp
  have p1: "payload ?s1 = payload s @ buf_rest b" by (rule payload_extend [OF G])
  have h: "length h = 32" using C hash unfolding crypto_ok_def by (metis snd_conv)
  obtain tx where pr: "process_transaction k False ?s1 = Some (SWO_SUCCESS, ?s1\<lparr>G_context := parsed_context tx h (G_context ?s1)\<rparr>)"
    and view: "email_view (raw_tx (tx_info (G_context ?s1))) tx = e"
      "tx_in (length (raw_tx (tx_info (G_context ?s1)))) tx"
    using process_transaction_ok [OF B C G1, unfolded p1, OF hash, of False] e by auto
  let ?s2 = "s\<lparr>G_context := parsed_context tx h (extend_context (buf_rest b) (G_context s))\<rparr>"
  have "statics_wf ?s2" using st by (simp add: statics_wf_def)
  moreover have "wf_email e" using e by (simp add: parse_email_Inr)
  ultimately obtain s' where d: "ui_display_transaction k ?s2 = Some (0, s')" "displayed ?s2 s' e"
    using ui_display_transaction_ok [OF F, of ?s2 e] rt view by (auto simp: parsed_context_def)
  have "handler_sign_tx k b chunk False False s = Some (0, s')"
    using accumulate_ok [OF B b G, of CONFIRM_TRANSACTION] rt chunk fits pr d(1)
    by (simp add: handler_sign_tx_def)
  moreover have ctx: "G_context s' = G_context ?s2" "shown s' = email_pairs e" "statics_wf s'"
    "g_dynamic_token_info s' = g_dynamic_token_info s"
    using d(2) by (simp_all add: displayed_def)
  moreover have "payload s' = payload s @ buf_rest b"
    using p1 ctx(1) by (simp add: payload_def parsed_context_def)
  moreover have "state_wf s'"
    using ctx s parsed_context_wf [OF extend_context_wf [OF G fits] h] by (simp add: state_wf_def)
  moreover have "payload s' = encode_email e" "wf_email e"
    using e p1 ctx(1) by (simp_all add: parse_email_Inr payload_def parsed_context_def)
  ultimately show ?thesis using d(2) hash rt
    by (auto simp: consistent_def parsed_context_def)
qed

lemma context_wf_tx: "context_wf G \<Longrightarrow> context_wf (G\<lparr>tx_info := (tx_info G)\<lparr>is_token_tx := x, transaction := tx\<rparr>\<rparr>)"
  by (simp add: context_wf_def)

text \<open>The last chunk of a payload that is no message, or of a request of the wrong kind: the answer
  is an error, and the review that may be on the screen is not touched.\<close>

lemma sign_last_chunk_refused:
  assumes k: "sdk_ok k" and b: "buf_wf b" "buf_offset b = 0" and s: "state_wf s"
    and rt: "req_type (G_context s) = (if tok then CONFIRM_TOKEN_TRANSACTION else CONFIRM_TRANSACTION)"
    and chunk: "chunk \<noteq> 0"
    and fits: "raw_tx_len (tx_info (G_context s)) + length (buf_rest b) \<le> MAX_TRANSACTION_LEN"
    and hash: "cx_hash_sha256 (sdk_crypto k) (payload s @ buf_rest b) 32 = (n, h)"
    and bad: "tok \<or> n \<noteq> 32 \<or> (\<forall>e. parse_email (payload s @ buf_rest b) \<noteq> Inr e)"
  shows "\<exists>r G. handler_sign_tx k b chunk False tok s = Some (r, s\<lparr>G_context := G, sent := sent s @
       [sw_answer (if n = 32 \<and> (\<exists>e. parse_email (payload s @ buf_rest b) = Inr e)
                   then SWO_CONDITIONS_NOT_SATISFIED else SWO_INCORRECT_DATA)]\<rparr>) \<and> context_wf G \<and>
     bip32_path_len G = bip32_path_len (G_context s) \<and> bip32_path G = bip32_path (G_context s) \<and>
     raw_tx_len (tx_info G) = raw_tx_len (tx_info (G_context s)) + length (buf_rest b) \<and>
     m_hash (tx_info G) = (if \<exists>e. parse_email (payload s @ buf_rest b) = Inr e then h else m_hash (tx_info (G_context s)))"
proof -
  let ?G1 = "extend_context (buf_rest b) (G_context s)"
  let ?s1 = "s\<lparr>G_context := ?G1\<rparr>"
  let ?rt = "if tok then CONFIRM_TOKEN_TRANSACTION else CONFIRM_TRANSACTION"
  from k have B: "buffer_ok (sdk_buffer k)" and C: "crypto_ok (sdk_crypto k)" by (simp_all add: sdk_ok_def)
  have G: "context_wf (G_context s)" using s by (simp add: state_wf_def)
  have G1: "context_wf ?G1" by (rule extend_context_wf [OF G fits])
  have p1: "payload ?s1 = payload s @ buf_rest b" by (rule payload_extend [OF G])
  have h: "length h = 32" using C hash unfolding crypto_ok_def by (metis snd_conv)
  have acc: "accumulate_transaction_data k b ?rt s = Some (SWO_SUCCESS, ?s1)"
    using accumulate_ok [OF B b G, of ?rt] rt fits by simp
  have run: "handler_sign_tx k b chunk False tok s =
      (case process_transaction k tok ?s1 of None \<Rightarrow> None
       | Some (err, s) \<Rightarrow> if err \<noteq> SWO_SUCCESS then io_send_sw k err s else ui_display_transaction k s)"
    using acc chunk by (simp add: handler_sign_tx_def Let_def split: option.split)
  note pr = process_transaction_ok [OF B C, of ?s1, unfolded p1, OF _ hash, of tok]
  show ?thesis
  proof (cases "parse_email (payload s @ buf_rest b)")
    case (Inl st)
    with pr G1 obtain tx where "process_transaction k tok ?s1 = Some (SWO_INCORRECT_DATA,
        s\<lparr>G_context := ?G1\<lparr>tx_info := (tx_info ?G1)\<lparr>is_token_tx := False, transaction := tx\<rparr>\<rparr>\<rparr>)"
      by auto
    with run Inl context_wf_tx [OF G1, where x = False and tx = tx] show ?thesis by (auto simp: io_send_sw_eq sw_answer_def)
  next
    case (Inr e)
    with pr G1 obtain tx where p: "process_transaction k tok ?s1 =
        Some (if n = 32 then SWO_SUCCESS else SWO_INCORRECT_DATA, s\<lparr>G_context := parsed_context tx h ?G1\<rparr>)"
      by auto
    let ?G2 = "parsed_context tx h ?G1"
    have G2: "context_wf ?G2" "context_wf (?G2\<lparr>gstate := STATE_NONE\<rparr>)"
      using parsed_context_wf [OF G1 h] by (simp_all add: context_wf_def)
    have "tok \<Longrightarrow> req_type ?G2 \<noteq> CONFIRM_TRANSACTION" using rt by (simp add: parsed_context_def)
    then have "n = 32 \<Longrightarrow> ui_display_transaction k (s\<lparr>G_context := ?G2\<rparr>) =
        io_send_sw k SWO_CONDITIONS_NOT_SATISFIED (s\<lparr>G_context := ?G2\<lparr>gstate := STATE_NONE\<rparr>\<rparr>)"
      using bad Inr by (subst ui_display_refuses) auto
    with p run Inr G2 show ?thesis
      by (cases "n = 32") (auto simp: io_send_sw_eq sw_answer_def parsed_context_def)
  qed
qed

text \<open>Every chunk ends in an allowed way; the path changes in the first chunk only.\<close>

lemma init_outcome:
  assumes k: "sdk_ok k" and b: "buf_wf b" and s: "state_wf s"
  shows "\<exists>r s'. init_transaction_context k b rt s = Some (r, s') \<and> outcome k s s' \<and>
           (path_request (buf_rest b) \<noteq> None \<longrightarrow> path_ok s')"
proof -
  from k have B: "buffer_ok (sdk_buffer k)" by (simp add: sdk_ok_def)
  from init_transaction_context_ok [OF B b, of rt s] show ?thesis
    by (auto simp: path_ok_def path_context_def
        intro!: outcome_answered state_wf_context [OF s] path_context_wf [unfolded path_context_def])
qed

lemma later_chunk_outcome:
  assumes k: "sdk_ok k" and b: "buf_wf b" "buf_offset b = 0" and s: "state_wf s" and chunk: "chunk \<noteq> 0"
  shows "\<exists>r s'. handler_sign_tx k b chunk m tok s = Some (r, s') \<and> outcome k s s' \<and>
           bip32_path_len (G_context s') = bip32_path_len (G_context s)"
proof -
  let ?rt = "if tok then CONFIRM_TOKEN_TRANSACTION else CONFIRM_TRANSACTION"
  let ?fits = "raw_tx_len (tx_info (G_context s)) + length (buf_rest b) \<le> MAX_TRANSACTION_LEN"
  from k have B: "buffer_ok (sdk_buffer k)" by (simp add: sdk_ok_def)
  have G: "context_wf (G_context s)" using s by (simp add: state_wf_def)
  note acc = accumulate_ok [OF B b G, of ?rt]
  obtain n h where hash: "cx_hash_sha256 (sdk_crypto k) (payload s @ buf_rest b) 32 = (n, h)" by fastforce
  consider (refused) "req_type (G_context s) \<noteq> ?rt \<or> \<not> ?fits"
    | (stored) "req_type (G_context s) = ?rt" ?fits m
    | (bad) "req_type (G_context s) = ?rt" ?fits "\<not> m"
        "tok \<or> n \<noteq> 32 \<or> (\<forall>e. parse_email (payload s @ buf_rest b) \<noteq> Inr e)"
    | (good) e where "req_type (G_context s) = CONFIRM_TRANSACTION" ?fits "\<not> m" "\<not> tok" "n = 32"
        "parse_email (payload s @ buf_rest b) = Inr e"
    by fastforce
  then show ?thesis
  proof cases
    case refused
    then show ?thesis using acc chunk s by (auto simp: handler_sign_tx_def Let_def io_send_sw_eq)
  next
    case stored
    then show ?thesis using acc chunk s extend_context_wf [OF G stored(2)]
      by (auto simp: handler_sign_tx_def Let_def io_send_sw_eq intro!: outcome_answered state_wf_context)
  next
    case bad
    then show ?thesis
      using sign_last_chunk_refused [OF k b s bad(1) chunk bad(2) hash bad(4)] s
      by (auto intro!: outcome_answered state_wf_context)
  next
    case good
    then show ?thesis
      using sign_last_chunk [OF k b s good(1) chunk good(2,6), of h] hash
      by (auto simp: outcome_def displayed_def parsed_context_def)
  qed
qed

section \<open>Streams of chunks\<close>

text \<open>A host that keeps sending chunks, each with an index and with more to follow, and does not
  stop when one is refused. \<open>None\<close> is a memory fault, nothing else.\<close>

definition chunk_step :: "sdk \<Rightarrow> bool \<Rightarrow> app_state \<Rightarrow> u8 \<times> bytes \<Rightarrow> app_state option" where
  "chunk_step k tok s chunk =
     map_option snd (handler_sign_tx k (payload_buffer (snd chunk)) (fst chunk) True tok s)"

text \<open>Which chunks have room, when \<open>n\<close> bytes are used: each one that fits behind the ones before it
  that did.\<close>

fun have_room :: "nat \<Rightarrow> bytes list \<Rightarrow> bool list" where
  "have_room n [] = []"
| "have_room n (c # cs) =
     (if n + length c \<le> MAX_TRANSACTION_LEN then True # have_room (n + length c) cs else False # have_room n cs)"

definition stored_chunks :: "nat \<Rightarrow> bytes list \<Rightarrow> bytes list" where
  "stored_chunks n cs = map fst (filter snd (zip cs (have_room n cs)))"

lemma stored_chunks_simps [simp]:
  "stored_chunks n [] = []"
  "stored_chunks n (c # cs) =
     (if n + length c \<le> MAX_TRANSACTION_LEN then c # stored_chunks (n + length c) cs else stored_chunks n cs)"
  by (simp_all add: stored_chunks_def)

text \<open>Non-empty chunks use up the room.\<close>

lemma stored_chunks_bound:
  "n \<le> MAX_TRANSACTION_LEN \<Longrightarrow> list_all (\<lambda>c. c \<noteq> []) cs \<Longrightarrow> n + length (stored_chunks n cs) \<le> MAX_TRANSACTION_LEN"
proof (induction cs arbitrary: n)
  case (Cons c cs)
  then obtain m where "length c = Suc m" by (cases c) auto
  with Cons.prems Cons.IH [of "n + length c"] Cons.IH [of n] show ?case by auto
qed simp

lemma chunk_step_ok:
  assumes B: "buffer_ok (sdk_buffer k)" and s: "state_wf s" and i: "i \<noteq> 0"
    and rt: "req_type (G_context s) = (if tok then CONFIRM_TOKEN_TRANSACTION else CONFIRM_TRANSACTION)"
  shows "chunk_step k tok s (i, c) = Some
     (if raw_tx_len (tx_info (G_context s)) + length c \<le> MAX_TRANSACTION_LEN
      then s\<lparr>G_context := extend_context c (G_context s), sent := sent s @ [sw_answer SWO_SUCCESS]\<rparr>
      else s\<lparr>sent := sent s @ [sw_answer SWO_WRONG_DATA_LENGTH]\<rparr>)"
proof -
  have G: "context_wf (G_context s)" using s by (simp add: state_wf_def)
  show ?thesis using accumulate_ok [OF B _ _ G, of "payload_buffer c"] i rt
    by (simp add: chunk_step_def handler_sign_tx_def io_send_sw_eq sw_answer_def not_less)
qed

lemma chunk_stream:
  assumes B: "buffer_ok (sdk_buffer k)"
  shows "state_wf s \<Longrightarrow> req_type (G_context s) = (if tok then CONFIRM_TOKEN_TRANSACTION else CONFIRM_TRANSACTION) \<Longrightarrow>
    list_all (\<lambda>(i, c). i \<noteq> 0) chunks \<Longrightarrow>
    \<exists>s'. run (chunk_step k tok) s chunks = Some s' \<and> state_wf s' \<and>
      sent s' = sent s @ map (\<lambda>room. sw_answer (if room then SWO_SUCCESS else SWO_WRONG_DATA_LENGTH))
        (have_room (raw_tx_len (tx_info (G_context s))) (map snd chunks)) \<and>
      payload s' = payload s @ concat (stored_chunks (raw_tx_len (tx_info (G_context s))) (map snd chunks)) \<and>
      screen s' = screen s \<and> m_hash (tx_info (G_context s')) = m_hash (tx_info (G_context s)) \<and>
      signing_path (G_context s') = signing_path (G_context s)"
proof (induction chunks arbitrary: s)
  case (Cons ic chunks)
  obtain i c where ic: "ic = (i, c)" by fastforce
  let ?n = "raw_tx_len (tx_info (G_context s))"
  let ?t = "s\<lparr>G_context := extend_context c (G_context s), sent := sent s @ [sw_answer SWO_SUCCESS]\<rparr>"
  have G: "context_wf (G_context s)" using Cons.prems(1) by (simp add: state_wf_def)
  have st: "chunk_step k tok s ic = Some (if ?n + length c \<le> MAX_TRANSACTION_LEN then ?t
      else s\<lparr>sent := sent s @ [sw_answer SWO_WRONG_DATA_LENGTH]\<rparr>)"
    unfolding ic using Cons.prems(2,3) by (intro chunk_step_ok [OF B Cons.prems(1)]) (simp_all add: ic)
  show ?case
  proof (cases "?n + length c \<le> MAX_TRANSACTION_LEN")
    case True
    have "payload ?t = payload s @ c" using payload_extend [OF G, of c] by (simp add: payload_def)
    moreover have "state_wf ?t" using state_wf_context [OF Cons.prems(1) extend_context_wf [OF G True]] by simp
    ultimately show ?thesis using Cons.IH [of ?t] Cons.prems(2,3) st True by (auto simp: ic signing_path_def)
  next
    case False
    then show ?thesis using Cons.IH [of "s\<lparr>sent := sent s @ [sw_answer SWO_WRONG_DATA_LENGTH]\<rparr>"] Cons.prems st
      by (auto simp: ic payload_def)
  qed
qed simp

text \<open>In another request every chunk is refused.\<close>

lemma chunk_stream_refused:
  assumes B: "buffer_ok (sdk_buffer k)"
  shows "state_wf s \<Longrightarrow> req_type (G_context s) \<noteq> (if tok then CONFIRM_TOKEN_TRANSACTION else CONFIRM_TRANSACTION) \<Longrightarrow>
    list_all (\<lambda>(i, c). i \<noteq> 0) chunks \<Longrightarrow>
    run (chunk_step k tok) s chunks =
      Some (s\<lparr>sent := sent s @ replicate (length chunks) (sw_answer SWO_CONDITIONS_NOT_SATISFIED)\<rparr>)"
proof (induction chunks arbitrary: s)
  case (Cons ic chunks)
  let ?rt = "if tok then CONFIRM_TOKEN_TRANSACTION else CONFIRM_TRANSACTION"
  let ?t = "s\<lparr>sent := sent s @ [sw_answer SWO_CONDITIONS_NOT_SATISFIED]\<rparr>"
  have G: "context_wf (G_context s)" using Cons.prems(1) by (simp add: state_wf_def)
  have "accumulate_transaction_data k (payload_buffer (snd ic)) ?rt s = Some (SWO_CONDITIONS_NOT_SATISFIED, s)"
    by (subst accumulate_ok [OF B _ _ G]) (use Cons.prems(2) in simp_all)
  then have "chunk_step k tok s ic = Some ?t"
    using Cons.prems(3) by (cases ic) (simp add: chunk_step_def handler_sign_tx_def Let_def io_send_sw_eq sw_answer_def)
  moreover have "run (chunk_step k tok) ?t chunks =
      Some (?t\<lparr>sent := sent ?t @ replicate (length chunks) (sw_answer SWO_CONDITIONS_NOT_SATISFIED)\<rparr>)"
    using Cons.prems by (intro Cons.IH) simp_all
  ultimately show ?case by simp
qed simp

section \<open>Properties\<close>

text \<open>The first chunk starts from a clean context: whatever was accumulated, parsed, hashed or
  signed before is cleared, the request is of the kind of the command, and only the path is new;
  the answer is 9000 when the path is well formed and 6A87 otherwise. The screen is not touched.\<close>

theorem first_chunk_resets:
  assumes "sdk_ok k" and "buf_wf b"
  shows "\<exists>r s'. handler_sign_tx k b 0 m tok s = Some (r, s') \<and> payload s' = [] \<and>
     tx_info (G_context s') = zero_tx_info \<and> gstate (G_context s') = STATE_NONE \<and>
     req_type (G_context s') = (if tok then CONFIRM_TOKEN_TRANSACTION else CONFIRM_TRANSACTION) \<and>
     screen s' = screen s \<and> shown s' = shown s \<and>
     (case path_request (buf_rest b) of
        None \<Rightarrow> sent s' = sent s @ [sw_answer SWO_WRONG_DATA_LENGTH]
      | Some path \<Rightarrow> sent s' = sent s @ [sw_answer SWO_SUCCESS] \<and> signing_path (G_context s') = path)"
proof -
  let ?rt = "if tok then CONFIRM_TOKEN_TRANSACTION else CONFIRM_TRANSACTION"
  from assms(1) have "buffer_ok (sdk_buffer k)" by (simp add: sdk_ok_def)
  from init_transaction_context_ok [OF this assms(2), of ?rt s] show ?thesis
    by (cases "path_request (buf_rest b)")
       (auto simp: handler_sign_tx_def Let_def path_context_def zero_context_def payload_def zero_tx_info_def
         signing_path_def)
qed

theorem first_chunk_resets_witness:
  "\<exists>r s'. handler_sign_tx ref_sdk (payload_buffer [1, 0x80, 0, 0, 44]) 0 True False (boot_state default_nvm) = Some (r, s') \<and>
     sent s' = [sw_answer SWO_SUCCESS] \<and> signing_path (G_context s') = [0x8000002C]"
proof -
  have "path_request [1, 0x80, 0, 0, 44] = Some [0x8000002C]"
    by (simp add: path_request_def MAX_BIP32_PATH_def be32_val_def)
  then show ?thesis
    using first_chunk_resets [of ref_sdk "payload_buffer [1, 0x80, 0, 0, 44]" True False "boot_state default_nvm"]
    by auto
qed

text \<open>C32. A following chunk is appended whole or refused whole: it is refused with 6985 when it
  does not belong to the request that is open, with 6A87 when it would overflow the 2600 bytes of
  the payload, and the context is then unchanged; otherwise the payload is extended by exactly its
  bytes, and the digest, the path and the kind of the request stay.\<close>

theorem chunk_appended_or_refused:
  assumes "sdk_ok k" and "buf_wf b" and "buf_offset b = 0" and "state_wf s"
  shows "\<exists>err s'. accumulate_transaction_data k b rt s = Some (err, s') \<and> state_wf s' \<and>
     (if req_type (G_context s) \<noteq> rt then err = SWO_CONDITIONS_NOT_SATISFIED \<and> s' = s
      else if raw_tx_len (tx_info (G_context s)) + length (buf_rest b) > 2600 then err = SWO_WRONG_DATA_LENGTH \<and> s' = s
      else err = SWO_SUCCESS \<and> payload s' = payload s @ buf_rest b \<and>
           m_hash (tx_info (G_context s')) = m_hash (tx_info (G_context s)) \<and>
           signing_path (G_context s') = signing_path (G_context s) \<and> req_type (G_context s') = rt \<and>
           sent s' = sent s \<and> screen s' = screen s)"
proof -
  from assms(1) have B: "buffer_ok (sdk_buffer k)" by (simp add: sdk_ok_def)
  have G: "context_wf (G_context s)" using assms(4) by (simp add: state_wf_def)
  show ?thesis
    using accumulate_ok [OF B assms(2,3) G, of rt] payload_extend [OF G, of "buf_rest b"]
      state_wf_context [OF assms(4) extend_context_wf [OF G, of "buf_rest b"]] assms(4)
    by (auto simp: signing_path_def not_less)
qed

theorem chunk_appended_or_refused_witness:
  "\<exists>s'. accumulate_transaction_data ref_sdk (payload_buffer [1, 2, 3]) CONFIRM_ADDRESS (boot_state default_nvm) =
      Some (SWO_SUCCESS, s') \<and> payload s' = [1, 2, 3]"
  using chunk_appended_or_refused [of ref_sdk "payload_buffer [1, 2, 3]" "boot_state default_nvm" CONFIRM_ADDRESS]
  by (auto simp: payload_def buf_left_def)

text \<open>C33. A host cannot fill more than the payload buffer: whatever non-empty chunks it sends,
  in any number, of any size, with any indices, and whether or not it stops when one is refused,
  none of them leads outside an object; each is answered once, with 9000 when it fits behind the
  ones stored before it and with 6A87 otherwise (all with 6985 when another kind of request is
  open); the payload is extended by exactly the chunks answered 9000, in their order; and no more
  of them are accepted than there are bytes left of the 2600. The index of a chunk is not compared
  with the one before it.\<close>

theorem accepted_chunks_bounded:
  assumes "sdk_ok k" and "state_wf s" and "list_all (\<lambda>(i, c). i \<noteq> 0 \<and> c \<noteq> []) chunks"
  shows "\<exists>s' n stored. run (chunk_step k tok) s chunks = Some s' \<and> n = raw_tx_len (tx_info (G_context s)) \<and>
     payload s' = payload s @ concat stored \<and> n + length stored \<le> 2600 \<and>
     screen s' = screen s \<and> m_hash (tx_info (G_context s')) = m_hash (tx_info (G_context s)) \<and>
     (if req_type (G_context s) = (if tok then CONFIRM_TOKEN_TRANSACTION else CONFIRM_TRANSACTION)
      then stored = stored_chunks n (map snd chunks) \<and>
           sent s' = sent s @ map (\<lambda>room. sw_answer (if room then 0x9000 else 0x6A87)) (have_room n (map snd chunks))
      else stored = [] \<and> sent s' = sent s @ replicate (length chunks) (sw_answer 0x6985))"
proof -
  from assms(1) have B: "buffer_ok (sdk_buffer k)" by (simp add: sdk_ok_def)
  have c: "list_all (\<lambda>(i, c). i \<noteq> 0) chunks" "list_all (\<lambda>c. c \<noteq> []) (map snd chunks)"
    using assms(3) by (auto simp: list_all_iff)
  have n: "raw_tx_len (tx_info (G_context s)) \<le> MAX_TRANSACTION_LEN"
    using assms(2) by (simp add: state_wf_def context_wf_def)
  show ?thesis
  proof (cases "req_type (G_context s) = (if tok then CONFIRM_TOKEN_TRANSACTION else CONFIRM_TRANSACTION)")
    case True
    from chunk_stream [OF B assms(2) True c(1)] stored_chunks_bound [OF n c(2)] True show ?thesis by auto
  next
    case False
    from chunk_stream_refused [OF B assms(2) False c(1)] n False show ?thesis by (auto simp: payload_def)
  qed
qed

text \<open>Eleven chunks of 250 bytes: the last one does not fit, and a smaller one after it does.\<close>

theorem accepted_chunks_bounded_witness:
  "\<exists>s'. run (chunk_step ref_sdk False)
       ((boot_state default_nvm)\<lparr>G_context := zero_context\<lparr>req_type := CONFIRM_TRANSACTION\<rparr>\<rparr>)
       (replicate 11 (1, zeros 250) @ [(7, zeros 100)]) = Some s' \<and>
     sent s' = replicate 10 (sw_answer 0x9000) @ [sw_answer 0x6A87, sw_answer 0x9000] \<and> payload s' = zeros 2600"
proof -
  let ?s = "(boot_state default_nvm)\<lparr>G_context := zero_context\<lparr>req_type := CONFIRM_TRANSACTION\<rparr>\<rparr>"
  let ?chunks = "replicate 11 (1, zeros 250) @ [(7, zeros 100)] :: (u8 \<times> bytes) list"
  have s: "state_wf ?s" using context_wf_zero by (intro state_wf_context) (simp_all add: context_wf_def)
  have p: "payload ?s = []" "raw_tx_len (tx_info (G_context ?s)) = 0"
    by (simp_all add: payload_def zero_context_def zero_tx_info_def)
  have ne: "list_all (\<lambda>(i, c). i \<noteq> 0 \<and> c \<noteq> []) ?chunks"
    by (simp add: zeros_def list_all_iff)
  have r: "have_room 0 (map snd ?chunks) = replicate 10 True @ [False, True]"
    "concat (stored_chunks 0 (map snd ?chunks)) = zeros 2600"
    by (simp_all add: eval_nat_numeral(3) numeral_eq_Suc zeros_def flip: replicate_add)
  show ?thesis using accepted_chunks_bounded [OF ref_sdk_ok s ne, of False] p r by (auto simp: map_replicate_const)
qed

text \<open>C10. Fail closed: when the last chunk completes a payload that is not the encoding of a
  message, the answer is 6A80 without data, no review is opened, the page on the screen and its
  contents stay as they were, and the digest of the context does not change.\<close>

theorem not_a_message_is_refused:
  assumes "sdk_ok k" and "buf_wf b" and "buf_offset b = 0" and "state_wf s" and "chunk \<noteq> 0"
    and "req_type (G_context s) = (if tok then CONFIRM_TOKEN_TRANSACTION else CONFIRM_TRANSACTION)"
    and "raw_tx_len (tx_info (G_context s)) + length (buf_rest b) \<le> MAX_TRANSACTION_LEN"
    and "\<not> (\<exists>e. wf_email e \<and> payload s @ buf_rest b = encode_email e)"
  shows "\<exists>r s'. handler_sign_tx k b chunk False tok s = Some (r, s') \<and>
     sent s' = sent s @ [sw_answer SWO_INCORRECT_DATA] \<and> screen s' = screen s \<and> shown s' = shown s \<and>
     m_hash (tx_info (G_context s')) = m_hash (tx_info (G_context s))"
proof -
  obtain n h where hash: "cx_hash_sha256 (sdk_crypto k) (payload s @ buf_rest b) 32 = (n, h)" by fastforce
  have bad: "\<forall>e. parse_email (payload s @ buf_rest b) \<noteq> Inr e" using assms(8) by (simp add: parse_email_Inr)
  show ?thesis
    using sign_last_chunk_refused [OF assms(1-4,6,5,7) hash] bad by (auto split: if_splits)
qed

theorem not_a_message_is_refused_witness:
  "\<exists>r s'. handler_sign_tx ref_sdk (payload_buffer [1, 2, 3]) 1 False False
       ((boot_state default_nvm)\<lparr>G_context := zero_context\<lparr>req_type := CONFIRM_TRANSACTION\<rparr>\<rparr>) = Some (r, s') \<and>
     sent s' = [sw_answer SWO_INCORRECT_DATA]"
proof -
  let ?s = "(boot_state default_nvm)\<lparr>G_context := zero_context\<lparr>req_type := CONFIRM_TRANSACTION\<rparr>\<rparr>"
  have s: "state_wf ?s" using context_wf_zero by (intro state_wf_context) (simp_all add: context_wf_def)
  have p: "payload ?s = []" "raw_tx_len (tx_info (G_context ?s)) = 0"
    by (simp_all add: payload_def zero_context_def zero_tx_info_def)
  have "parse_email [1, 2, 3] = Inl CHALLENGE_PARSING_ERROR" by (simp add: parse_email_def parse_headers_def)
  then have "\<not> (\<exists>e. wf_email e \<and> [1, 2, 3] = encode_email e)" by (metis parse_email_Inr Inr_not_Inl)
  then show ?thesis
    using not_a_message_is_refused [of ref_sdk "payload_buffer [1, 2, 3]" ?s 1 False] s p
    by (auto simp: buf_left_def)
qed

text \<open>C34. There is no token flow: a SIGN TOKEN TX request never opens a review. Its last chunk is
  answered with an error (6985 for a well-formed message, 6A80 otherwise), and the page on the
  screen and what it shows do not change. The digest of the context does change when the payload
  is a well-formed message. The check on the kind of the request in \<open>ui_display_transaction\<close> decides
  this; the documents of the repository say otherwise: by \<^verbatim>\<open>APP_SPECIFICATION.md\<close>, \<^verbatim>\<open>doc/TRANSACTION.md\<close>,
  \<^verbatim>\<open>ui/display.h\<close> and a comment at the end of \<^verbatim>\<open>ui/nbgl_display_transaction.c\<close> a token request is shown
  to the user and signed.\<close>

theorem token_request_never_reviewed:
  assumes "sdk_ok k" and "buf_wf b" and "buf_offset b = 0" and "state_wf s" and "chunk \<noteq> 0"
    and "req_type (G_context s) = CONFIRM_TOKEN_TRANSACTION"
    and "raw_tx_len (tx_info (G_context s)) + length (buf_rest b) \<le> MAX_TRANSACTION_LEN"
    and "cx_hash_sha256 (sdk_crypto k) (payload s @ buf_rest b) 32 = (32, h)"
  shows "\<exists>r s' sw. handler_sign_tx k b chunk False True s = Some (r, s') \<and>
     sent s' = sent s @ [sw_answer sw] \<and> screen s' = screen s \<and> shown s' = shown s \<and>
     (if \<exists>e. wf_email e \<and> payload s @ buf_rest b = encode_email e
      then sw = SWO_CONDITIONS_NOT_SATISFIED \<and> m_hash (tx_info (G_context s')) = h
      else sw = SWO_INCORRECT_DATA \<and> m_hash (tx_info (G_context s')) = m_hash (tx_info (G_context s)))"
proof (cases "\<exists>e. wf_email e \<and> payload s @ buf_rest b = encode_email e")
  case True
  then show ?thesis
    using sign_last_chunk_refused [OF assms(1-4) _ assms(5,7,8), of True] assms(6)
    by (simp add: parse_email_Inr) force
next
  case False
  then show ?thesis
    using sign_last_chunk_refused [OF assms(1-4) _ assms(5,7,8), of True] assms(6)
    by (auto simp: parse_email_Inr)
qed

theorem token_request_never_reviewed_witness:
  "\<exists>r s'. handler_sign_tx ref_sdk (payload_buffer (encode_email sample_email)) 1 False True
       ((boot_state default_nvm)\<lparr>G_context := zero_context\<lparr>req_type := CONFIRM_TOKEN_TRANSACTION\<rparr>\<rparr>) = Some (r, s') \<and>
     sent s' = [sw_answer SWO_CONDITIONS_NOT_SATISFIED] \<and> screen s' = Page_none"
proof -
  let ?s = "(boot_state default_nvm)\<lparr>G_context := zero_context\<lparr>req_type := CONFIRM_TOKEN_TRANSACTION\<rparr>\<rparr>"
  have s: "state_wf ?s" using context_wf_zero by (intro state_wf_context) (simp_all add: context_wf_def)
  have p: "payload ?s = []" "raw_tx_len (tx_info (G_context ?s)) = 0"
    by (simp_all add: payload_def zero_context_def zero_tx_info_def)
  have "cx_hash_sha256 (sdk_crypto ref_sdk) (encode_email sample_email) 32 = (32, take 32 (ref_digest (encode_email sample_email) @ zeros 32))"
    by (simp add: ref_crypto_lib_def)
  moreover have "\<exists>e. wf_email e \<and> encode_email sample_email = encode_email e" using wf_sample_email by blast
  ultimately show ?thesis
    using token_request_never_reviewed [of ref_sdk "payload_buffer (encode_email sample_email)" ?s 1] s p
      length_sample_email
    by (simp add: buf_left_def) blast
qed

end
