(* ===== verification/Provide_Token_Info.thy ===== *)
theory Provide_Token_Info
  imports Get_Handlers
begin

text \<open>
  The dynamic token descriptor, \<^verbatim>\<open>handler/provide_token_info.c\<close>. The descriptor check and the TLV
  parser are the SDK's; the tag table, the handler of its tag and the checks are the
  application's. The slot is cleared first, so only a complete, accepted descriptor leaves a
  token in it.
\<close>

section \<open>The code\<close>

abbreviation (input) TAG_TOKEN_ADDRESS :: u8 where "TAG_TOKEN_ADDRESS \<equiv> 0x10"
definition BOILERPLATE_SLIP44_COIN_TYPE :: u32 where [simp]: "BOILERPLATE_SLIP44_COIN_TYPE = 0x8001"
definition BOILERPLATE_SLIP44_COIN_TYPE_HARDENED :: u32 where [simp]: "BOILERPLATE_SLIP44_COIN_TYPE_HARDENED = 0x80008001"

definition handle_tuid_token_address ::
  "sdk \<Rightarrow> tlv_data_t \<Rightarrow> tlv_TUID_data_t \<Rightarrow> bool \<times> tlv_TUID_data_t" where
  "handle_tuid_token_address k data out =
     (let (ok, b) = get_buffer_from_tlv_data (sdk_tlv k) data TOKEN_ADDRESS_LEN TOKEN_ADDRESS_LEN
      in (ok, out\<lparr>token_address_buffer := b\<rparr>))"

definition TUID_TLV_TAGS :: "sdk \<Rightarrow> tlv_TUID_data_t tlv_entry list" where
  "TUID_TLV_TAGS k =
     [\<lparr>tle_tag = TAG_TOKEN_ADDRESS, tle_handler = handle_tuid_token_address k, tle_unique = True\<rparr>]"

definition parse_dynamic_token_tuid ::
  "sdk \<Rightarrow> buffer_t \<Rightarrow> tlv_TUID_data_t \<Rightarrow> bool \<times> tlv_TUID_data_t \<times> u8 list" where
  "parse_dynamic_token_tuid k tuid out = tlv_parse (sdk_tlv k) (TUID_TLV_TAGS k) tuid out"

definition validate_coin_type :: "u32 \<Rightarrow> bool" where
  "validate_coin_type coin_type \<longleftrightarrow>
     coin_type = BOILERPLATE_SLIP44_COIN_TYPE \<or> coin_type = BOILERPLATE_SLIP44_COIN_TYPE_HARDENED"

definition handler_provide_token_info :: "sdk \<Rightarrow> buffer_t \<Rightarrow> app_state \<Rightarrow> result" where
  "handler_provide_token_info k cdata s =
     (let s = s\<lparr>g_dynamic_token_info := init_dynamic_token_storage\<rparr>;
          (status, tlv_output) = tlv_use_case_dynamic_descriptor (sdk_tlv k) cdata
      in if status \<noteq> TLV_DYNAMIC_DESCRIPTOR_SUCCESS then io_send_sw k SW_INVALID_DYNAMIC_TOKEN s
         else if \<not> validate_coin_type (tdo_coin_type tlv_output) then io_send_sw k SW_INVALID_DYNAMIC_TOKEN s
         else
           let (ok, data, received) = parse_dynamic_token_tuid k (tdo_TUID tlv_output)
                 \<lparr>token_address_buffer = \<lparr>buf_ptr = [], buf_size = 0, buf_offset = 0\<rparr>\<rparr>
           in if \<not> ok then io_send_sw k SW_INVALID_DYNAMIC_TOKEN s
              else if TAG_TOKEN_ADDRESS \<notin> set received then io_send_sw k SW_INVALID_DYNAMIC_TOKEN s
              else do {
                D \<leftarrow> set_token_info (tdo_magnitude tlv_output) (tdo_ticker tlv_output)
                      (token_address_buffer data) (g_dynamic_token_info s);
                io_send_sw k SWO_SUCCESS (s\<lparr>g_dynamic_token_info := D\<rparr>)
              })"

section \<open>What an accepted TUID holds\<close>

lemma tuid_address:
  assumes T: "tlv_ok (sdk_tlv k)"
    and parsed: "parse_dynamic_token_tuid k b out = (True, out', received)"
    and tag: "TAG_TOKEN_ADDRESS \<in> set received"
  shows "length (buf_ptr (token_address_buffer out')) = TOKEN_ADDRESS_LEN"
proof -
  from T parsed obtain ds where ds: "tlv_handle_all (TUID_TLV_TAGS k) ds out = Some out'"
    "received = map tlv_tag ds" "tlv_unique_ok (TUID_TLV_TAGS k) ds"
    unfolding tlv_ok_def parse_dynamic_token_tuid_def by blast
  with tag have ne: "ds \<noteq> []" by auto
  have step: "length (buf_ptr (token_address_buffer o2)) = 32"
    if "tlv_handle_all (TUID_TLV_TAGS k) xs o1 = Some o2" and "xs \<noteq> []" for xs o1 o2
    using that
  proof (induction xs arbitrary: o1)
    case Nil
    then show ?case by simp
  next
    case (Cons d xs)
    from Cons.prems(1) obtain o3 where h: "handle_tuid_token_address k d o1 = (True, o3)"
      and r: "tlv_handle_all (TUID_TLV_TAGS k) xs o3 = Some o2"
      by (auto simp: TUID_TLV_TAGS_def split: if_splits prod.splits)
    from h obtain b where "get_buffer_from_tlv_data (sdk_tlv k) d 32 32 = (True, b)"
      and o3: "token_address_buffer o3 = b"
      by (auto simp: handle_tuid_token_address_def split: prod.splits)
    then have "length (buf_ptr b) = 32" using T unfolding tlv_ok_def by fastforce
    with o3 r show ?case using Cons.IH [OF r] by (cases xs) auto
  qed
  from step [OF ds(1) ne] show ?thesis .
qed

text \<open>The handler: memory safe; the slot holds a complete token exactly when the answer is success,
  and is empty otherwise.\<close>

lemma provide_token_info_ok:
  assumes T: "tlv_ok (sdk_tlv k)"
  shows "\<exists>r D. handler_provide_token_info k b s = Some (r, s\<lparr>g_dynamic_token_info := D,
           sent := sent s @ [sw_answer (if dt_received D then SWO_SUCCESS else SW_INVALID_DYNAMIC_TOKEN)]\<rparr>) \<and>
         dynamic_wf D \<and> (\<not> dt_received D \<longrightarrow> D = init_dynamic_token_storage)"
proof -
  let ?D0 = init_dynamic_token_storage
  let ?s0 = "s\<lparr>g_dynamic_token_info := ?D0\<rparr>"
  let ?o = "\<lparr>token_address_buffer = \<lparr>buf_ptr = [], buf_size = 0, buf_offset = 0\<rparr>\<rparr>"
  have D0: "\<not> dt_received ?D0" by (simp add: init_dynamic_token_storage_def)
  obtain status out where d: "tlv_use_case_dynamic_descriptor (sdk_tlv k) b = (status, out)" by fastforce
  obtain ok data received where p: "parse_dynamic_token_tuid k (tdo_TUID out) ?o = (ok, data, received)"
    by (metis prod_cases3)
  show ?thesis
  proof (cases "status = TLV_DYNAMIC_DESCRIPTOR_SUCCESS \<and> validate_coin_type (tdo_coin_type out) \<and> ok
      \<and> TAG_TOKEN_ADDRESS \<in> set received")
    case True
    then have "length (buf_ptr (token_address_buffer data)) = 32"
      using tuid_address [OF T, of "tdo_TUID out" ?o] p by auto
    moreover have "length (tdo_ticker out) = 51"
      using T d True unfolding tlv_ok_def by blast
    ultimately obtain D where "set_token_info (tdo_magnitude out) (tdo_ticker out) (token_address_buffer data) ?D0 = Some D"
      "dynamic_wf D" "dt_received D"
      using set_token_info_ok [of ?D0 "token_address_buffer data" "tdo_ticker out" "tdo_magnitude out"] by auto
    with True d p show ?thesis
      by (auto simp: handler_provide_token_info_def io_send_sw_eq sw_answer_def)
  next
    case False
    then have "handler_provide_token_info k b s = io_send_sw k SW_INVALID_DYNAMIC_TOKEN ?s0"
      using d p by (auto simp: handler_provide_token_info_def Let_def)
    with D0 show ?thesis
      by (intro exI [of _ "io_status (sdk_io k) (sent s @ [sw_answer SW_INVALID_DYNAMIC_TOKEN])"] exI [of _ ?D0])
         (simp add: io_send_sw_eq sw_answer_def)
  qed
qed

lemma provide_token_info_outcome:
  assumes "sdk_ok k" and "state_wf s"
  shows "\<exists>r s'. handler_provide_token_info k b s = Some (r, s') \<and> outcome k s s' \<and>
           G_context s' = G_context s \<and> screen s' = screen s"
proof -
  from assms(1) have T: "tlv_ok (sdk_tlv k)" by (simp add: sdk_ok_def)
  from provide_token_info_ok [OF T, of b s] assms(2) show ?thesis
    by (auto simp: outcome_def answered_def state_wf_def statics_wf_def)
qed

section \<open>Properties\<close>

text \<open>C38. The token slot is all or nothing: the command is answered 9000 exactly when a complete
  token was stored, and B009 otherwise, and then the slot is empty, also when it held a token
  before. The context, the screen and the settings are not touched.\<close>

theorem token_slot_all_or_nothing:
  assumes "sdk_ok k" and "state_wf s"
  shows "\<exists>r s'. handler_provide_token_info k b s = Some (r, s') \<and> state_wf s' \<and>
     (sent s' = sent s @ [sw_answer SWO_SUCCESS] \<and> dt_received (g_dynamic_token_info s') \<or>
      sent s' = sent s @ [sw_answer SW_INVALID_DYNAMIC_TOKEN] \<and>
        g_dynamic_token_info s' = init_dynamic_token_storage) \<and>
     G_context s' = G_context s \<and> screen s' = screen s \<and> N_storage s' = N_storage s"
proof -
  from assms(1) have T: "tlv_ok (sdk_tlv k)" by (simp add: sdk_ok_def)
  from provide_token_info_ok [OF T, of b s] obtain r D where
    run: "handler_provide_token_info k b s = Some (r, s\<lparr>g_dynamic_token_info := D,
           sent := sent s @ [sw_answer (if dt_received D then SWO_SUCCESS else SW_INVALID_DYNAMIC_TOKEN)]\<rparr>)"
    and D: "dynamic_wf D" "\<not> dt_received D \<longrightarrow> D = init_dynamic_token_storage" by blast
  have "state_wf (s\<lparr>g_dynamic_token_info := D\<rparr>)" using assms(2) D(1) by (simp add: state_wf_def statics_wf_def)
  then show ?thesis using run D(2) by (cases "dt_received D") simp_all
qed

theorem token_slot_all_or_nothing_witness:
  "\<exists>r s'. handler_provide_token_info ref_sdk (payload_buffer []) (boot_state default_nvm) = Some (r, s') \<and>
     screen s' = Page_none"
  using token_slot_all_or_nothing [of ref_sdk "boot_state default_nvm" "payload_buffer []"] by auto

end
