(* ===== verification/Dispatcher.thy ===== *)
theory Dispatcher
  imports Sign_Tx Provide_Token_Info
begin

text \<open>
  The dispatcher, \<^verbatim>\<open>apdu/dispatcher.c\<close>: class, instruction and parameter checks, then the handler,
  with the buffer over the command data; the classification of commands that it refines, and the
  table of commands that it checks.
\<close>

section \<open>The code\<close>

abbreviation (input) P1_START :: u8 where "P1_START \<equiv> 0x00"
abbreviation (input) P1_MAX :: u8 where "P1_MAX \<equiv> 0x10"
abbreviation (input) P2_LAST :: u8 where "P2_LAST \<equiv> 0x00"
abbreviation (input) P2_MORE :: u8 where "P2_MORE \<equiv> 0x80"

definition command_buffer :: "bytes \<Rightarrow> u8 \<Rightarrow> buffer_t" where
  "command_buffer d lc = \<lparr>buf_ptr = d, buf_size = unat lc, buf_offset = 0\<rparr>"

definition apdu_dispatcher :: "sdk \<Rightarrow> command_t \<Rightarrow> app_state \<Rightarrow> result" where
  "apdu_dispatcher k cmd s =
     (if cmd_cla cmd \<noteq> CLA then io_send_sw k SWO_INVALID_CLA s
      else if cmd_ins cmd = GET_VERSION then
        if cmd_p1 cmd \<noteq> 0 \<or> cmd_p2 cmd \<noteq> 0 then io_send_sw k SWO_INCORRECT_P1_P2 s
        else handler_get_version k s
      else if cmd_ins cmd = GET_APP_NAME then
        if cmd_p1 cmd \<noteq> 0 \<or> cmd_p2 cmd \<noteq> 0 then io_send_sw k SWO_INCORRECT_P1_P2 s
        else handler_get_app_name k s
      else if cmd_ins cmd = GET_PUBLIC_KEY then
        if cmd_p1 cmd > 1 \<or> cmd_p2 cmd > 0 then io_send_sw k SWO_INCORRECT_P1_P2 s
        else (case cmd_data cmd of
                None \<Rightarrow> io_send_sw k SWO_WRONG_DATA_LENGTH s
              | Some d \<Rightarrow> handler_get_public_key k (command_buffer d (cmd_lc cmd)) (cmd_p1 cmd \<noteq> 0) s)
      else if cmd_ins cmd = SIGN_TX \<or> cmd_ins cmd = SIGN_TOKEN_TX then
        if cmd_p1 cmd = P1_START \<and> cmd_p2 cmd \<noteq> P2_MORE \<or> cmd_p1 cmd > P1_MAX \<or>
           cmd_p2 cmd \<noteq> P2_LAST \<and> cmd_p2 cmd \<noteq> P2_MORE
        then io_send_sw k SWO_INCORRECT_P1_P2 s
        else (case cmd_data cmd of
                None \<Rightarrow> io_send_sw k SWO_WRONG_DATA_LENGTH s
              | Some d \<Rightarrow> handler_sign_tx k (command_buffer d (cmd_lc cmd)) (cmd_p1 cmd)
                            (cmd_p2 cmd AND P2_MORE \<noteq> 0) (cmd_ins cmd = SIGN_TOKEN_TX) s)
      else if cmd_ins cmd = PROVIDE_TOKEN_INFO then
        if cmd_p1 cmd \<noteq> 0 \<or> cmd_p2 cmd \<noteq> 0 then io_send_sw k SWO_INCORRECT_P1_P2 s
        else (case cmd_data cmd of
                None \<Rightarrow> io_send_sw k SWO_WRONG_DATA_LENGTH s
              | Some d \<Rightarrow> handler_provide_token_info k (command_buffer d (cmd_lc cmd)) s)
      else io_send_sw k SWO_INVALID_INS s)"

section \<open>Commands that carry a path\<close>

text \<open>The commands that read a path are well formed when their data starts with one.\<close>

definition path_fine :: "command_t \<Rightarrow> bool" where
  "path_fine cmd \<longleftrightarrow>
     (cmd_ins cmd = GET_PUBLIC_KEY \<or> (cmd_ins cmd = SIGN_TX \<or> cmd_ins cmd = SIGN_TOKEN_TX) \<and> cmd_p1 cmd = 0) \<longrightarrow>
     (case cmd_data cmd of None \<Rightarrow> True
      | Some d \<Rightarrow> path_request (take (unat (cmd_lc cmd)) d) \<noteq> None)"

section \<open>Lemmas\<close>

lemma command_buffer_ok:
  assumes "cmd_wf cmd" and "cmd_data cmd = Some d"
  shows "buf_wf (command_buffer d (cmd_lc cmd))" and "buf_offset (command_buffer d (cmd_lc cmd)) = 0"
    and "buf_rest (command_buffer d (cmd_lc cmd)) = take (unat (cmd_lc cmd)) d"
  using assms by (auto simp: cmd_wf_def command_buffer_def buf_wf_def buf_rest_def buf_left_def slice_def)

lemma more_flag [simp]: "(0x80 :: u8) AND 0x80 = 0x80" "(0 :: u8) AND 0x80 = 0"
  by simp_all

text \<open>What a command does: an answer at once, or one of the handlers. The predicate says which
  handler a command reaches.\<close>

datatype handled =
    Answer bytes u16
  | Public_key bytes bool
  | Sign bytes u8 bool bool
  | Token_info bytes

definition dispatch :: "command_t \<Rightarrow> handled" where
  "dispatch cmd =
     (let bad_p1p2 = Answer [] SWO_INCORRECT_P1_P2; ins = cmd_ins cmd; p1 = cmd_p1 cmd; p2 = cmd_p2 cmd;
          with_data = (\<lambda>f. case cmd_data cmd of None \<Rightarrow> Answer [] SWO_WRONG_DATA_LENGTH | Some d \<Rightarrow> f d)
      in if cmd_cla cmd \<noteq> CLA then Answer [] SWO_INVALID_CLA
         else if ins = GET_VERSION then (if p1 = 0 \<and> p2 = 0 then Answer [2, 3, 2] SWO_SUCCESS else bad_p1p2)
         else if ins = GET_APP_NAME then (if p1 = 0 \<and> p2 = 0 then Answer (ascii ''HardMail'') SWO_SUCCESS else bad_p1p2)
         else if ins = GET_PUBLIC_KEY then
           (if p1 \<le> 1 \<and> p2 = 0 then with_data (\<lambda>d. Public_key d (p1 \<noteq> 0)) else bad_p1p2)
         else if ins = SIGN_TX \<or> ins = SIGN_TOKEN_TX then
           (if p1 = 0 \<and> p2 = 0x80 \<or> 0 < p1 \<and> p1 \<le> 0x10 \<and> (p2 = 0 \<or> p2 = 0x80)
            then with_data (\<lambda>d. Sign d p1 (p2 = 0x80) (ins = SIGN_TOKEN_TX)) else bad_p1p2)
         else if ins = PROVIDE_TOKEN_INFO then (if p1 = 0 \<and> p2 = 0 then with_data Token_info else bad_p1p2)
         else Answer [] SWO_INVALID_INS)"

text \<open>The parameter checks of the code, as the parameters they let through.\<close>

lemma key_guard: "(x > 1 \<or> y > 0) = (\<not> (x \<le> 1 \<and> y = 0))" for x y :: u8
  by (auto simp: not_le word_neq_0_conv [symmetric] simp del: word_neq_0_conv)

lemma sign_guard:
  "(x = 0 \<and> y \<noteq> 0x80 \<or> x > 0x10 \<or> y \<noteq> 0 \<and> y \<noteq> 0x80) =
   (\<not> (x = 0 \<and> y = 0x80 \<or> 0 < x \<and> x \<le> 0x10 \<and> (y = 0 \<or> y = 0x80)))" for x y :: u8
  by (auto simp: not_le word_gt_0)

lemma sign_more:
  "x = 0 \<and> y = 0x80 \<or> 0 < x \<and> x \<le> 0x10 \<and> (y = 0 \<or> y = 0x80) \<Longrightarrow> (y AND 0x80 \<noteq> 0) = (y = 0x80)" for x y :: u8
  by auto

lemma dispatcher_refines:
  "apdu_dispatcher k cmd s = (case dispatch cmd of
       Answer d sw \<Rightarrow> io_send_response_pointer k d sw s
     | Public_key d disp \<Rightarrow> handler_get_public_key k (command_buffer d (cmd_lc cmd)) disp s
     | Sign d chunk m tok \<Rightarrow> handler_sign_tx k (command_buffer d (cmd_lc cmd)) chunk m tok s
     | Token_info d \<Rightarrow> handler_provide_token_info k (command_buffer d (cmd_lc cmd)) s)"
  unfolding apdu_dispatcher_def dispatch_def Let_def key_guard sign_guard
  by (auto simp: sign_more io_send_sw_def handler_get_version_def handler_get_app_name_def split: option.split)

lemma dispatch_data:
  "dispatch cmd = Public_key d x \<Longrightarrow> cmd_data cmd = Some d \<and> cmd_ins cmd = GET_PUBLIC_KEY"
  "dispatch cmd = Sign d c m tok \<Longrightarrow> cmd_data cmd = Some d \<and> (cmd_ins cmd = SIGN_TX \<or> cmd_ins cmd = SIGN_TOKEN_TX) \<and> cmd_p1 cmd = c"
  "dispatch cmd = Token_info d \<Longrightarrow> cmd_data cmd = Some d"
  by (auto simp: dispatch_def Let_def split: if_splits option.splits)

lemma dispatch_plain: "dispatch cmd = Answer d sw \<Longrightarrow> plain \<lparr>resp_data = d, resp_sw = sw\<rparr>"
  by (auto simp: dispatch_def Let_def plain_def ascii_def split: if_splits option.splits)

definition is_sign :: "handled \<Rightarrow> bool" where
  "is_sign h = (case h of Sign _ _ _ _ \<Rightarrow> True | _ \<Rightarrow> False)"

text \<open>Every command ends in an allowed way, only a signing request starts a review, and a command keeps a well-formed path when it carries one.\<close>

lemma dispatcher_outcome:
  assumes k: "sdk_ok k" and c: "cmd_wf cmd" and s: "state_wf s"
  shows "\<exists>r s'. apdu_dispatcher k cmd s = Some (r, s') \<and> outcome k s s' \<and>
           (screen s' = Page_review \<longrightarrow> screen s = Page_review \<or> is_sign (dispatch cmd)) \<and>
           (path_fine cmd \<longrightarrow> path_ok s \<longrightarrow> path_ok s')"
proof (cases "dispatch cmd")
  case (Answer d sw)
  then show ?thesis using s dispatch_plain [OF Answer]
    by (simp add: dispatcher_refines io_send_response_pointer_def Let_def path_ok_def is_sign_def)
next
  case (Public_key d disp)
  note b = command_buffer_ok [OF c conjunct1 [OF dispatch_data(1) [OF Public_key]]]
  from get_public_key_outcome [OF k b(1) s, of disp] Public_key dispatch_data(1) [OF Public_key] b(3)
  show ?thesis by (auto simp: dispatcher_refines path_fine_def)
next
  case (Sign d chunk m tok)
  note b = command_buffer_ok [OF c conjunct1 [OF dispatch_data(2) [OF Sign]]]
  show ?thesis
  proof (cases "chunk = 0")
    case True
    with Sign dispatch_data(2) [OF Sign] b(3) 
      init_outcome [OF k b(1) s, of "if tok then CONFIRM_TOKEN_TRANSACTION else CONFIRM_TRANSACTION"]
    show ?thesis by (auto simp: dispatcher_refines path_fine_def handler_sign_tx_def Let_def is_sign_def)
  next
    case False
    with Sign later_chunk_outcome [OF k b(1,2) s False, of m tok] show ?thesis
      by (auto simp: dispatcher_refines path_ok_def is_sign_def)
  qed
next
  case (Token_info d)
  with provide_token_info_outcome [OF k s, of "command_buffer d (cmd_lc cmd)"] show ?thesis
    by (auto simp: dispatcher_refines path_ok_def)
qed

section \<open>The table of commands\<close>

text \<open>The commands of the application as a table: the instruction, the pairs of P1 and P2 it is sent
  with, and whether it carries data. A signing session starts with chunk 0, which is never the last
  one, and goes on with chunks 1 to 16, each of which may be.\<close>

definition chunk_parameters :: "(u8 \<times> u8) list" where
  "chunk_parameters = (0, 0x80) # List.product (map of_nat [1..<17]) [0, 0x80]"

definition commands :: "(u8 \<times> (u8 \<times> u8) list \<times> bool) list" where
  "commands =
     [(0x03, [(0, 0)], False),
      (0x04, [(0, 0)], False),
      (0x05, [(0, 0), (1, 0)], True),
      (0x06, chunk_parameters, True),
      (0x07, chunk_parameters, True),
      (0x22, [(0, 0)], True)]"

text \<open>The status a command is refused with before it reaches a handler.\<close>

definition refusal :: "command_t \<Rightarrow> u16 option" where
  "refusal cmd =
     (if cmd_cla cmd \<noteq> 0xE0 then Some 0x6E00
      else case map_of commands (cmd_ins cmd) of
          None \<Rightarrow> Some 0x6D00
        | Some (parameters, data) \<Rightarrow>
            if (cmd_p1 cmd, cmd_p2 cmd) \<notin> set parameters then Some 0x6A86
            else if data \<and> cmd_data cmd = None then Some 0x6A87
            else None)"

lemma set_chunk_parameters:
  "(p1, p2) \<in> set chunk_parameters \<longleftrightarrow> p1 = 0 \<and> p2 = 0x80 \<or> 0 < p1 \<and> p1 \<le> 0x10 \<and> (p2 = 0 \<or> p2 = 0x80)"
proof -
  have "p1 \<in> of_nat ` {1..<17} \<longleftrightarrow> 0 < p1 \<and> p1 \<le> 0x10"
  proof
    assume "0 < p1 \<and> p1 \<le> 0x10"
    then show "p1 \<in> of_nat ` {1..<17}"
      by (intro image_eqI [of _ _ "unat p1"]) (simp_all add: word_less_nat_alt word_le_nat_alt)
  next
    assume "p1 \<in> of_nat ` {1..<17}"
    then obtain n where "p1 = of_nat n" "1 \<le> n" "n < 17" by auto
    then show "0 < p1 \<and> p1 \<le> 0x10" by (simp add: word_less_nat_alt word_le_nat_alt unat_of_nat)
  qed
  then show ?thesis unfolding chunk_parameters_def by auto
qed

lemma byte_le_one: "x \<le> 1 \<longleftrightarrow> x = 0 \<or> x = 1" for x :: u8
proof
  assume "x \<le> 1"
  then have "unat x = 0 \<or> unat x = 1" by (auto simp: word_le_nat_alt)
  then show "x = 0 \<or> x = 1" by (simp add: word_unat_eq_iff)
qed auto

text \<open>The dispatcher refuses by the table.\<close>

lemma dispatch_refusal:
  "refusal cmd = Some sw \<Longrightarrow> dispatch cmd = Answer [] sw"
  by (auto simp: refusal_def commands_def dispatch_def set_chunk_parameters byte_le_one Let_def split: if_splits option.splits)

lemma dispatch_accepted:
  assumes "refusal cmd = None"
  shows "cmd_ins cmd = GET_VERSION \<and> dispatch cmd = Answer [2, 3, 2] SWO_SUCCESS \<or>
    cmd_ins cmd = GET_APP_NAME \<and> dispatch cmd = Answer (ascii ''HardMail'') SWO_SUCCESS \<or>
    (\<exists>d. cmd_data cmd = Some d \<and>
      (cmd_ins cmd = GET_PUBLIC_KEY \<and> dispatch cmd = Public_key d (cmd_p1 cmd = 1) \<or>
       cmd_ins cmd = SIGN_TX \<and> dispatch cmd = Sign d (cmd_p1 cmd) (cmd_p2 cmd = 0x80) False \<or>
       cmd_ins cmd = SIGN_TOKEN_TX \<and> dispatch cmd = Sign d (cmd_p1 cmd) (cmd_p2 cmd = 0x80) True \<or>
       cmd_ins cmd = PROVIDE_TOKEN_INFO \<and> dispatch cmd = Token_info d))"
  using assms
  by (auto simp: refusal_def commands_def dispatch_def set_chunk_parameters byte_le_one Let_def split: if_splits option.splits)

end
