(* ===== verification/Menu.thy ===== *)
theory Menu
  imports Send_Response
begin

text \<open>
  The home page and the settings, \<^verbatim>\<open>ui/menu_nbgl.c\<close>, and the callbacks of the two reviews.
  Icons, and the titles of the pages that ask for an answer, are not part of the state.

  What the settings page shows are the \<open>switches\<close> of the state, kept beside the settings in
  non-volatile memory that they stand for; \<open>settings_current\<close> says that the two agree.
\<close>

section \<open>Home and settings\<close>

text \<open>The version of the Makefile, as text.\<close>

abbreviation (input) "APPVERSION \<equiv> ''2.3.2''"
abbreviation (input) "newline \<equiv> [CHR 0x0A]"

text \<open>The tokens of the two switches.\<close>

definition DUMMY_SWITCH_1_TOKEN :: "sdk \<Rightarrow> int" where "DUMMY_SWITCH_1_TOKEN k = FIRST_USER_TOKEN k"
definition DUMMY_SWITCH_2_TOKEN :: "sdk \<Rightarrow> int" where "DUMMY_SWITCH_2_TOKEN k = FIRST_USER_TOKEN k + 1"

definition DUMMY_SWITCH_1_ID :: nat where [simp]: "DUMMY_SWITCH_1_ID = 0"
definition DUMMY_SWITCH_2_ID :: nat where [simp]: "DUMMY_SWITCH_2_ID = 1"
definition SETTINGS_SWITCHES_NB :: nat where [simp]: "SETTINGS_SWITCHES_NB = 2"

text \<open>The constant part of the settings page: the information list, and one list of switches.\<close>

record nbgl_contentInfoList_t =
  nbInfos :: nat
  infoTypes :: "string list"
  infoContents :: "string list"

definition SETTING_INFO_NB :: nat where [simp]: "SETTING_INFO_NB = 2"

definition INFO_TYPES :: "string list" where
  "INFO_TYPES = [''Version'', ''Developer'']"

definition INFO_CONTENTS :: "string list" where
  "INFO_CONTENTS = [APPVERSION, ''Ledger'']"

definition infoList :: nbgl_contentInfoList_t where
  "infoList = \<lparr>nbInfos = SETTING_INFO_NB, infoTypes = INFO_TYPES, infoContents = INFO_CONTENTS\<rparr>"

text \<open>The switches are the array of the state, their callback is \<open>controls_callback\<close>.\<close>

record nbgl_content_t =
  nbSwitches :: nat

definition SETTING_CONTENTS_NB :: nat where [simp]: "SETTING_CONTENTS_NB = 1"

definition contents :: "nbgl_content_t list" where
  "contents = [\<lparr>nbSwitches = SETTINGS_SWITCHES_NB\<rparr>]"

text \<open>What a touch of the settings finds: the switches of each content, and the information.\<close>

definition settings_page :: "app_state \<Rightarrow> (string option \<times> string option \<times> u8 \<times> int) list \<times> (string \<times> string) list" where
  "settings_page s =
     (concat (map (\<lambda>c. map (\<lambda>w. (switch_text w, switch_subText w, switch_initState w, switch_token w))
                         (take (nbSwitches c) (switches s))) (take SETTING_CONTENTS_NB contents)),
      zip (take (nbInfos infoList) (infoTypes infoList)) (infoContents infoList))"

definition app_quit :: "app_state \<Rightarrow> app_state" where
  "app_quit s = s\<lparr>exited := True\<rparr>"

text \<open>An assignment to members of \<open>switches[i]\<close>.\<close>

definition set_switch ::
  "nat \<Rightarrow> (nbgl_contentSwitch_t \<Rightarrow> nbgl_contentSwitch_t) \<Rightarrow> app_state \<Rightarrow> app_state option" where
  "set_switch i f s = do {
     w \<leftarrow> mem_read (switches s) i;
     sw \<leftarrow> mem_write (switches s) i [f w];
     Some (s\<lparr>switches := sw\<rparr>)
   }"

text \<open>C's \<open>!x\<close> on a byte.\<close>

definition lnot :: "u8 \<Rightarrow> u8" where
  "lnot x = (if x = 0 then 1 else 0)"

definition review_warning_choice :: "bool \<Rightarrow> app_state \<Rightarrow> app_state option" where
  "review_warning_choice confirm s = do {
     s \<leftarrow> (if confirm then do {
             let switch_value = lnot (dummy2_allowed (N_storage s));
             s \<leftarrow> set_switch DUMMY_SWITCH_2_ID (switch_initState_update (\<lambda>_. switch_value)) s;
             Some (s\<lparr>N_storage := (N_storage s)\<lparr>dummy2_allowed := switch_value\<rparr>\<rparr>)
           } else Some s);
     Some (s\<lparr>screen := Page_home (Setting_page (initSettingPage s))\<rparr>)
   }"

definition controls_callback :: "sdk \<Rightarrow> int \<Rightarrow> u8 \<Rightarrow> int \<Rightarrow> app_state \<Rightarrow> app_state option" where
  "controls_callback k token index page s =
     (let s = s\<lparr>initSettingPage := word_of_int page\<rparr> in
      if token = DUMMY_SWITCH_1_TOKEN k then do {
        let switch_value = lnot (dummy1_allowed (N_storage s));
        s \<leftarrow> set_switch DUMMY_SWITCH_1_ID (switch_initState_update (\<lambda>_. switch_value)) s;
        Some (s\<lparr>N_storage := (N_storage s)\<lparr>dummy1_allowed := switch_value\<rparr>\<rparr>)
      }
      else if token = DUMMY_SWITCH_2_TOKEN k then
        if dummy2_allowed (N_storage s) = 0 then Some (s\<lparr>screen := Page_warning\<rparr>)
        else do {
          let switch_value = lnot (dummy2_allowed (N_storage s));
          s \<leftarrow> set_switch DUMMY_SWITCH_2_ID (switch_initState_update (\<lambda>_. switch_value)) s;
          Some (s\<lparr>N_storage := (N_storage s)\<lparr>dummy2_allowed := switch_value\<rparr>\<rparr>)
        }
      else Some s)"

definition ui_menu_main :: "sdk \<Rightarrow> app_state \<Rightarrow> app_state option" where
  "ui_menu_main k s = do {
     s \<leftarrow> set_switch DUMMY_SWITCH_1_ID (\<lambda>w. w\<lparr>
            switch_initState := dummy1_allowed (N_storage s),
            switch_text := Some ''Dummy 1'',
            switch_subText := Some (''Allow dummy 1'' @ newline @ ''in transactions''),
            switch_token := DUMMY_SWITCH_1_TOKEN k\<rparr>) s;
     s \<leftarrow> set_switch DUMMY_SWITCH_2_ID (\<lambda>w. w\<lparr>
            switch_initState := dummy2_allowed (N_storage s),
            switch_text := Some ''Dummy 2'',
            switch_subText := Some (''Allow dummy 2'' @ newline @ ''in transactions''),
            switch_token := DUMMY_SWITCH_2_TOKEN k\<rparr>) s;
     Some (s\<lparr>screen := Page_home INIT_HOME_PAGE\<rparr>)
   }"

section \<open>Answers to the reviews\<close>

text \<open>\<open>review_choice\<close> of \<^verbatim>\<open>ui/nbgl_display_transaction.c\<close>.\<close>

definition review_choice_transaction :: "sdk \<Rightarrow> bool \<Rightarrow> app_state \<Rightarrow> app_state option" where
  "review_choice_transaction k confirm s = do {
     s \<leftarrow> validate_transaction k confirm s;
     Some (s\<lparr>screen := Page_status (if confirm then STATUS_TYPE_TRANSACTION_SIGNED
                                    else STATUS_TYPE_TRANSACTION_REJECTED)\<rparr>)
   }"

text \<open>\<open>review_choice\<close> of \<^verbatim>\<open>ui/nbgl_display_address.c\<close>.\<close>

definition review_choice_address :: "sdk \<Rightarrow> bool \<Rightarrow> app_state \<Rightarrow> app_state option" where
  "review_choice_address k confirm s = do {
     s \<leftarrow> validate_pubkey k confirm s;
     Some (s\<lparr>screen := Page_status (if confirm then STATUS_TYPE_ADDRESS_VERIFIED
                                    else STATUS_TYPE_ADDRESS_REJECTED)\<rparr>)
   }"

section \<open>Lemmas\<close>

text \<open>The menu touches the settings, the switches and the screen, nothing else.\<close>

definition menu_frame :: "app_state \<Rightarrow> app_state \<Rightarrow> bool" where
  "menu_frame s s' \<longleftrightarrow> length (switches s') = 2 \<and>
     s'\<lparr>N_storage := N_storage s, switches := switches s, initSettingPage := initSettingPage s,
        screen := screen s\<rparr> = s"

lemma menu_frame_fields:
  assumes "menu_frame s s'"
  shows "s' = s\<lparr>N_storage := N_storage s', switches := switches s', initSettingPage := initSettingPage s',
           screen := screen s'\<rparr>"
proof -
  have "s'\<lparr>N_storage := N_storage s, switches := switches s, initSettingPage := initSettingPage s,
        screen := screen s\<rparr>\<lparr>N_storage := N_storage s', switches := switches s',
        initSettingPage := initSettingPage s', screen := screen s'\<rparr> = s'" by simp
  then show ?thesis using assms by (metis menu_frame_def)
qed

lemma set_switch_ok:
  "length (switches s) = 2 \<Longrightarrow> i < 2 \<Longrightarrow>
   set_switch i f s = Some (s\<lparr>switches := (switches s)[i := f (switches s ! i)]\<rparr>)"
  by (simp add: set_switch_def mem_read_def mem_write_def upd_conv_take_nth_drop)

text \<open>The switches that stand for the settings.\<close>

definition menu_switches :: "sdk \<Rightarrow> internal_storage_t \<Rightarrow> nbgl_contentSwitch_t list" where
  "menu_switches k nvm =
     [\<lparr>switch_text = Some ''Dummy 1'', switch_subText = Some (''Allow dummy 1'' @ newline @ ''in transactions''),
       switch_initState = dummy1_allowed nvm, switch_token = DUMMY_SWITCH_1_TOKEN k\<rparr>,
      \<lparr>switch_text = Some ''Dummy 2'', switch_subText = Some (''Allow dummy 2'' @ newline @ ''in transactions''),
       switch_initState = dummy2_allowed nvm, switch_token = DUMMY_SWITCH_2_TOKEN k\<rparr>]"

definition settings_current :: "sdk \<Rightarrow> app_state \<Rightarrow> bool" where
  "settings_current k s \<longleftrightarrow> switches s = menu_switches k (N_storage s)"

lemma length_menu_switches [simp]: "length (menu_switches k nvm) = 2"
  by (simp add: menu_switches_def)

lemma ui_menu_main_ok:
  "length (switches s) = 2 \<Longrightarrow>
   ui_menu_main k s = Some (s\<lparr>switches := menu_switches k (N_storage s), screen := Page_home INIT_HOME_PAGE\<rparr>)"
  by (auto simp: ui_menu_main_def set_switch_ok eval_nat_numeral length_Suc_conv menu_switches_def)

text \<open>Both callbacks change a setting and the switch that stands for it together.\<close>

lemma callbacks_current:
  assumes "settings_current k s"
  shows "review_warning_choice c s = Some s' \<Longrightarrow> settings_current k s'"
    and "controls_callback k tok idx pg s = Some s' \<Longrightarrow> settings_current k s'"
proof -
  have sw: "length (switches s) = 2" using assms by (simp add: settings_current_def)
  show "settings_current k s'" if "review_warning_choice c s = Some s'"
    using that assms sw by (cases c) (auto simp: review_warning_choice_def set_switch_ok settings_current_def menu_switches_def Let_def)
  show "settings_current k s'" if "controls_callback k tok idx pg s = Some s'"
    using that assms sw
    by (auto simp: controls_callback_def set_switch_ok settings_current_def menu_switches_def Let_def split: if_splits)
qed

lemma review_warning_choice_ok:
  "length (switches s) = 2 \<Longrightarrow>
   \<exists>s'. review_warning_choice c s = Some s' \<and> menu_frame s s' \<and>
     screen s' = Page_home (Setting_page (initSettingPage s))"
  by (cases c) (simp_all add: review_warning_choice_def set_switch_ok menu_frame_def Let_def)

lemma controls_callback_ok:
  "length (switches s) = 2 \<Longrightarrow>
   \<exists>s'. controls_callback k tok idx pg s = Some s' \<and> menu_frame s s' \<and>
     (screen s' = screen s \<or> screen s' = Page_warning)"
  by (simp add: controls_callback_def set_switch_ok menu_frame_def Let_def)

lemma validate_pubkey_ok:
  assumes "context_wf (G_context s)"
  shows "validate_pubkey k c s = Some (s\<lparr>sent := sent s @ [if c then pubkey_answer (G_context s)
           else \<lparr>resp_data = [], resp_sw = SWO_CONDITIONS_NOT_SATISFIED\<rparr>]\<rparr>)"
  using send_pubkey_ok [OF assms, of k] by (auto simp: validate_pubkey_def io_send_sw_eq)

section \<open>The second switch\<close>

text \<open>A touch of the second switch while it is off opens the warning and changes no setting, and a
  touch while it is on switches it off at once; the answer to the warning sets it and the switch
  that shows it, or leaves it as it is.\<close>

lemma second_switch_touched:
  assumes "length (switches s) = 2" and "token = DUMMY_SWITCH_2_TOKEN k"
  shows "\<exists>s1. controls_callback k token i p s = Some s1 \<and>
     (if dummy2_allowed (N_storage s) = 0
      then screen s1 = Page_warning \<and> N_storage s1 = N_storage s \<and> switches s1 = switches s
      else screen s1 = screen s \<and> dummy2_allowed (N_storage s1) = 0 \<and> switch_initState (switches s1 ! 1) = 0)"
  using assms
  by (auto simp: controls_callback_def set_switch_ok lnot_def Let_def DUMMY_SWITCH_1_TOKEN_def DUMMY_SWITCH_2_TOKEN_def)

lemma warning_answered:
  assumes "length (switches s) = 2" and "dummy2_allowed (N_storage s) = 0"
  shows "\<exists>s1. review_warning_choice True s = Some s1 \<and> N_storage s1 = (N_storage s)\<lparr>dummy2_allowed := 1\<rparr> \<and>
      switch_initState (switches s1 ! 1) = 1"
    and "\<exists>s1. review_warning_choice False s = Some s1 \<and> N_storage s1 = N_storage s \<and> switches s1 = switches s"
  using assms by (simp_all add: review_warning_choice_def set_switch_ok lnot_def Let_def)

end
