(* ===== verification/App_Main.thy ===== *)
theory App_Main
  imports Dispatcher Menu
begin

text \<open>
  The main loop, \<^verbatim>\<open>app_main.c\<close>, as a state machine: the events are the ones the loop and the
  callbacks of the user interface react to, in any order. While the loop waits for a command in
  \<open>io_recv_command\<close>, the touches of the user are delivered to the page on the screen; a page reacts
  to the events it has a callback for.
\<close>

section \<open>The code\<close>

datatype event =
    Apdu bytes
  | Recv_failure
  | User_choice bool
  | Touch_control int u8 int
  | Status_done
  | Touch_quit

text \<open>\<open>app_main\<close> up to the loop.\<close>

definition app_start :: "sdk \<Rightarrow> app_state \<Rightarrow> app_state option" where
  "app_start k s = do {
     s \<leftarrow> ui_menu_main k s;
     let s = s\<lparr>G_context := zero_context\<rparr>;
     let s = s\<lparr>g_dynamic_token_info := init_dynamic_token_storage\<rparr>;
     Some (if initialized (N_storage s) \<noteq> 1
           then s\<lparr>N_storage := \<lparr>dummy1_allowed = 0, dummy2_allowed = 0, initialized = 1\<rparr>\<rparr>
           else s)
   }"

text \<open>The body of the loop, for the bytes received.\<close>

definition app_loop_body :: "sdk \<Rightarrow> bytes \<Rightarrow> app_state \<Rightarrow> app_state option" where
  "app_loop_body k raw s =
     (case apdu_parser (sdk_parser k) raw of
        None \<Rightarrow> do {
          (_, s) \<leftarrow> io_send_sw k SWO_WRONG_DATA_LENGTH s;
          Some s
        }
      | Some cmd \<Rightarrow> do {
          (r, s) \<leftarrow> apdu_dispatcher k cmd s;
          Some (if r < 0 then s\<lparr>exited := True\<rparr> else s)
        })"

definition step :: "sdk \<Rightarrow> app_state \<Rightarrow> event \<Rightarrow> app_state option" where
  "step k s ev =
     (if exited s then Some s
      else case ev of
        Apdu raw \<Rightarrow> app_loop_body k raw s
      | Recv_failure \<Rightarrow> Some (s\<lparr>exited := True\<rparr>)
      | User_choice c \<Rightarrow>
          (case screen s of
             Page_review \<Rightarrow> review_choice_transaction k c s
           | Page_address \<Rightarrow> review_choice_address k c s
           | Page_warning \<Rightarrow> review_warning_choice c s
           | _ \<Rightarrow> Some s)
      | Touch_control token index page \<Rightarrow>
          (case screen s of Page_home _ \<Rightarrow> controls_callback k token index page s | _ \<Rightarrow> Some s)
      | Status_done \<Rightarrow> (case screen s of Page_status _ \<Rightarrow> ui_menu_main k s | _ \<Rightarrow> Some s)
      | Touch_quit \<Rightarrow> (case screen s of Page_home _ \<Rightarrow> Some (app_quit s) | _ \<Rightarrow> Some s))"

section \<open>Protocols of the host\<close>

text \<open>Every path the host sends is well formed.\<close>

definition event_fine :: "sdk \<Rightarrow> event \<Rightarrow> bool" where
  "event_fine k ev = (case ev of
       Apdu raw \<Rightarrow> (case apdu_parser (sdk_parser k) raw of None \<Rightarrow> True | Some cmd \<Rightarrow> path_fine cmd)
     | _ \<Rightarrow> True)"

text \<open>The host waits for the answer to a review before it sends the next command.\<close>

definition sequential :: "app_state \<Rightarrow> event \<Rightarrow> bool" where
  "sequential s ev \<longleftrightarrow> (case ev of Apdu _ \<Rightarrow> screen s \<noteq> Page_review | _ \<Rightarrow> True)"

section \<open>Invariants\<close>

definition path_inv :: "app_state \<Rightarrow> bool" where
  "path_inv s \<longleftrightarrow> state_wf s \<and> path_ok s"

definition review_inv :: "sdk \<Rightarrow> app_state \<Rightarrow> bool" where
  "review_inv k s \<longleftrightarrow> state_wf s \<and> (screen s = Page_review \<longrightarrow> consistent k s)"

lemma state_wf_menu:
  assumes "menu_frame s s'" and "state_wf s"
  shows "state_wf s'" and "G_context s' = G_context s" and "sent s' = sent s" and "exited s' = exited s"
    and "shown s' = shown s"
proof -
  note f = menu_frame_fields [OF assms(1)]
  have "length (switches s') = 2" using assms(1) by (simp add: menu_frame_def)
  then show "state_wf s'"
    using assms(2) by (subst f) (simp add: state_wf_def statics_wf_def)
  show "G_context s' = G_context s" "sent s' = sent s" "exited s' = exited s" by (subst f, simp)+
  show "shown s' = shown s"
    by (subst f) simp
qed

lemma menu_main_frame:
  "state_wf s \<Longrightarrow> \<exists>s'. ui_menu_main k s = Some s' \<and> menu_frame s s' \<and> screen s' = Page_home INIT_HOME_PAGE"
  by (simp add: ui_menu_main_ok state_wf_def statics_wf_def menu_frame_def)

lemma app_start_ok:
  "\<exists>s. app_start k (boot_state nvm) = Some s \<and> state_wf s \<and> path_ok s \<and> screen s = Page_home INIT_HOME_PAGE \<and>
     sent s = [] \<and> \<not> exited s \<and> G_context s = zero_context"
proof -
  have "length (switches (boot_state nvm)) = 2" by (simp add: boot_state_def)
  from ui_menu_main_ok [OF this, of k] show ?thesis
    by (simp add: app_start_def boot_state_def state_wf_def statics_wf_def path_ok_def Let_def)
qed

section \<open>Steps\<close>

text \<open>A command: apart from the flag of the main loop, one of the outcomes.\<close>

lemma loop_body_ok:
  assumes k: "sdk_ok k" and s: "state_wf s"
  shows "\<exists>s'. app_loop_body k raw s = Some s' \<and> outcome k s (s'\<lparr>exited := exited s\<rparr>) \<and>
     (event_fine k (Apdu raw) \<longrightarrow> path_ok s \<longrightarrow> path_ok s')"
proof (cases "apdu_parser (sdk_parser k) raw")
  case None
  then show ?thesis using s
    by (simp add: app_loop_body_def io_send_sw_eq path_ok_def)
next
  case (Some cmd)
  then have "cmd_wf cmd" using k by (auto simp: sdk_ok_def parser_ok_def)
  from dispatcher_outcome [OF k this s] obtain r s1 where d: "apdu_dispatcher k cmd s = Some (r, s1)"
    "outcome k s s1" "path_fine cmd \<longrightarrow> path_ok s \<longrightarrow> path_ok s1" by blast
  from d(2) have e: "exited s = exited s1" by (simp add: outcome_def)
  have "s1\<lparr>exited := exited s\<rparr> = s1" by (simp add: e)
  with d Some show ?thesis
    by (simp add: app_loop_body_def event_fine_def path_ok_def)
qed

lemma outcome_wf:
  assumes "outcome k s (s'\<lparr>exited := x\<rparr>)"
  shows "state_wf s'" and "screen s' = Page_review \<Longrightarrow> screen s \<noteq> Page_review \<Longrightarrow> consistent k s'"
  using assms
  by (auto simp: outcome_def answered_def consistent_def payload_def)

text \<open>The answer of the user to the review of an email.\<close>

lemma approve_step:
  assumes k: "sdk_ok k" and s: "state_wf s" "path_ok s" "screen s = Page_review" "\<not> exited s"
  shows "\<exists>s'. step k s (User_choice True) = Some s' \<and>
     sent s' = sent s @ [sign_answer k (signing_path (G_context s)) (m_hash (tx_info (G_context s)))] \<and>
     screen s' = Page_status STATUS_TYPE_TRANSACTION_SIGNED \<and> state_wf s' \<and> path_ok s'"
proof -
  have G: "context_wf (G_context s)" "unat (bip32_path_len (G_context s)) \<le> MAX_BIP32_PATH"
    using s by (simp_all add: state_wf_def path_ok_def)
  from k have "crypto_ok (sdk_crypto k)" by (simp add: sdk_ok_def)
  from validate_transaction_approve [OF this G] obtain s1 where v: "validate_transaction k True s = Some s1"
    and r: "same_review s s1" and o: "sent s1 = sent s @ [sign_answer k (signing_path (G_context s)) (m_hash (tx_info (G_context s)))]"
    and c: "context_wf (G_context s1)" by blast
  have "state_wf s1"
    using s(1) c by (subst same_review_fields [OF r]) (simp add: state_wf_def statics_wf_def)
  moreover have "path_ok s1" using r s(2) by (simp add: path_ok_def same_review_def)
  ultimately show ?thesis using v o s
    by (simp add: step_def review_choice_transaction_def path_ok_def)
qed

lemma approve_fault:
  assumes "state_wf s" and "\<not> path_ok s" and "screen s = Page_review" and "\<not> exited s"
  shows "step k s (User_choice True) = None"
  using assms validate_transaction_long_path [of s k]
  by (simp add: step_def review_choice_transaction_def state_wf_def path_ok_def not_le)

lemma reject_step:
  assumes "state_wf s" and "screen s = Page_review" and "\<not> exited s"
  shows "\<exists>s'. step k s (User_choice False) = Some s' \<and> state_wf s' \<and>
     sent s' = sent s @ [sw_answer SWO_CONDITIONS_NOT_SATISFIED] \<and>
     screen s' = Page_status STATUS_TYPE_TRANSACTION_REJECTED \<and>
     G_context s' = (G_context s)\<lparr>gstate := STATE_NONE\<rparr>"
proof -
  have "context_wf ((G_context s)\<lparr>gstate := STATE_NONE\<rparr>)"
    using assms(1) by (simp add: state_wf_def context_wf_def)
  then show ?thesis using assms
    by (simp add: step_def review_choice_transaction_def validate_transaction_reject sw_answer_def state_wf_context)
qed

text \<open>Every other event of the user.\<close>

lemma user_step:
  assumes s: "state_wf s" and ev: "\<forall>raw. ev \<noteq> Apdu raw" "screen s = Page_review \<Longrightarrow> ev \<noteq> User_choice True"
  shows "\<exists>s'. step k s ev = Some s' \<and> state_wf s' \<and> bip32_path_len (G_context s') = bip32_path_len (G_context s) \<and>
     (screen s' = Page_review \<longrightarrow> G_context s' = G_context s \<and> shown s' = shown s \<and> screen s = Page_review)"
proof (cases "exited s")
  case True
  then show ?thesis using s by (simp add: step_def)
next
  case False
  have sw: "length (switches s) = 2" and G: "context_wf (G_context s)"
    using s by (simp_all add: state_wf_def statics_wf_def)
  show ?thesis
  proof (cases ev)
    case (User_choice c)
    show ?thesis
    proof (cases "screen s")
      case Page_warning
      then show ?thesis using User_choice False review_warning_choice_ok [OF sw, of c] s state_wf_menu
        by (auto simp: step_def)
    next
      case Page_review
      then show ?thesis using User_choice False reject_step [OF s] ev(2) by fastforce
    next
      case Page_address
      then show ?thesis using User_choice False validate_pubkey_ok [OF G] s
        by (simp add: step_def review_choice_address_def)
    qed (use User_choice False s in \<open>simp_all add: step_def\<close>)
  next
    case (Touch_control tok idx pg)
    show ?thesis
    proof (cases "screen s")
      case (Page_home p)
      then show ?thesis using Touch_control False controls_callback_ok [OF sw, of k tok idx pg] s state_wf_menu
        by (auto simp: step_def)
    qed (use Touch_control False s in \<open>simp_all add: step_def\<close>)
  next
    case Status_done
    show ?thesis
    proof (cases "screen s")
      case (Page_status p)
      then show ?thesis using Status_done False menu_main_frame [OF s, of k] s state_wf_menu
        by (auto simp: step_def)
    qed (use Status_done False s in \<open>simp_all add: step_def\<close>)
  qed (use False s ev in \<open>auto simp: step_def app_quit_def split: page.split\<close>)
qed

text \<open>What the touches of the user send when no email is under review.\<close>

lemma user_sends_plain:
  assumes s: "state_wf s" and ev: "\<forall>raw. ev \<noteq> Apdu raw" and page: "screen s \<noteq> Page_review"
    and run: "step k s ev = Some s'"
  shows "sent s' = sent s \<or> (\<exists>r. sent s' = sent s @ [r] \<and> plain r)"
proof -
  have sw: "length (switches s) = 2" and G: "context_wf (G_context s)"
    using s by (simp_all add: state_wf_def statics_wf_def)
  have menu: "review_warning_choice c s = Some t \<Longrightarrow> sent t = sent s"
    "controls_callback k tok idx pg s = Some t \<Longrightarrow> sent t = sent s" "ui_menu_main k s = Some t \<Longrightarrow> sent t = sent s"
    for c tok idx pg t
    using review_warning_choice_ok [OF sw, of c] controls_callback_ok [OF sw, of k tok idx pg]
      menu_main_frame [OF s, of k] state_wf_menu(3) [OF _ s] by auto
  show ?thesis
  proof (cases "exited s")
    case True
    then show ?thesis using run by (simp add: step_def)
  next
    case False
    then show ?thesis using run ev page G
      by (cases ev; cases "screen s")
         (auto simp: step_def app_quit_def review_choice_address_def validate_pubkey_ok [OF G] dest!: menu)
  qed
qed

text \<open>The settings page shows the settings in force: no event changes one without the other.\<close>

lemma step_current:
  assumes k: "sdk_ok k" and s: "state_wf s" "settings_current k s" and run: "step k s ev = Some s'"
  shows "settings_current k s'"
proof -
  have sw: "length (switches s) = 2" and G: "context_wf (G_context s)"
    using s(1) by (simp_all add: state_wf_def statics_wf_def)
  consider (gone) "exited s" | (apdu) raw where "ev = Apdu raw" "\<not> exited s" | (choice) c where "ev = User_choice c" "\<not> exited s"
    | (other) "\<forall>raw. ev \<noteq> Apdu raw" "\<forall>c. ev \<noteq> User_choice c" "\<not> exited s" by blast
  then show ?thesis
  proof cases
    case gone
    then show ?thesis using s(2) run by (simp add: step_def)
  next
    case (apdu raw)
    then show ?thesis using loop_body_ok [OF k s(1), of raw] run s(2) by (auto simp: step_def outcome_def settings_current_def)
  next
    case (choice c)
    have "crypto_ok (sdk_crypto k)" using k by (simp add: sdk_ok_def)
    then have "settings_current k t" if "validate_transaction k c s = Some t" for t
      using s(2) by (subst validate_transaction_frame [OF _ G that]) (simp_all add: settings_current_def)
    then show ?thesis using choice run s(2) callbacks_current(1) [OF s(2), of c]
      by (auto simp: step_def review_choice_transaction_def review_choice_address_def validate_pubkey_ok [OF G] settings_current_def
          bind_eq_Some_conv split: page.splits)
  next
    case other
    then show ?thesis using run s(2) callbacks_current(2) [OF s(2)]
      by (cases ev) (auto simp: step_def settings_current_def app_quit_def ui_menu_main_ok [OF sw] split: page.splits)
  qed
qed

section \<open>The main loop as a system\<close>

lemma apdu_step:
  assumes "sdk_ok k" and "state_wf s"
  shows "\<exists>s'. step k s (Apdu raw) = Some s' \<and> state_wf s' \<and>
     (screen s' = Page_review \<longrightarrow> screen s = Page_review \<or> consistent k s') \<and>
     (event_fine k (Apdu raw) \<longrightarrow> path_ok s \<longrightarrow> path_ok s')"
proof (cases "exited s")
  case True
  then show ?thesis using assms(2) by (simp add: step_def)
next
  case False
  then show ?thesis using loop_body_ok [OF assms, of raw] outcome_wf
    by (fastforce simp: step_def)
qed

lemma step_safe:
  assumes k: "sdk_ok k" and s: "path_inv s" and ev: "event_fine k ev"
  shows "\<exists>s'. step k s ev = Some s' \<and> path_inv s'"
proof -
  from s have wf: "state_wf s" "path_ok s" by (simp_all add: path_inv_def)
  consider (apdu) raw where "ev = Apdu raw" | (gone) "exited s"
    | (approve) "ev = User_choice True" "screen s = Page_review" "\<not> exited s"
    | (user) "\<forall>raw. ev \<noteq> Apdu raw" "screen s = Page_review \<longrightarrow> ev \<noteq> User_choice True" by blast
  then show ?thesis
  proof cases
    case apdu
    then show ?thesis using apdu_step [OF k wf(1), of raw] ev wf(2) by (auto simp: path_inv_def)
  next
    case gone
    then show ?thesis using s by (simp add: step_def)
  next
    case approve
    then show ?thesis using approve_step [OF k wf] by (auto simp: path_inv_def)
  next
    case user
    then show ?thesis using user_step [OF wf(1), of ev k] wf(2) by (auto simp: path_inv_def path_ok_def)
  qed
qed

lemma step_review:
  assumes k: "sdk_ok k" and s: "review_inv k s" and ev: "sequential s ev" and run: "step k s ev = Some s'"
  shows "review_inv k s'"
proof -
  from s have wf: "state_wf s" by (simp add: review_inv_def)
  consider (apdu) raw where "ev = Apdu raw" | (gone) "exited s"
    | (approve) "ev = User_choice True" "screen s = Page_review" "\<not> exited s"
    | (user) "\<forall>raw. ev \<noteq> Apdu raw" "screen s = Page_review \<longrightarrow> ev \<noteq> User_choice True" by blast
  then show ?thesis
  proof cases
    case apdu
    then show ?thesis using apdu_step [OF k wf, of raw] ev run by (auto simp: review_inv_def sequential_def)
  next
    case gone
    then show ?thesis using s run by (simp add: step_def)
  next
    case approve
    then have "path_ok s" using approve_fault [OF wf _ approve(2,3), of k] run by fastforce
    then show ?thesis using approve_step [OF k wf _ approve(2,3)] run approve(1) by (auto simp: review_inv_def)
  next
    case user
    then show ?thesis using user_step [OF wf, of ev k] run s
      by (auto simp: review_inv_def consistent_def payload_def)
  qed
qed

text \<open>The shape of the state does not depend on the host.\<close>

lemma step_keeps_wf:
  assumes k: "sdk_ok k" and s: "state_wf s" and run: "step k s ev = Some s'"
  shows "state_wf s'"
proof -
  consider (apdu) raw where "ev = Apdu raw" | (gone) "exited s"
    | (approve) "ev = User_choice True" "screen s = Page_review" "\<not> exited s"
    | (user) "\<forall>raw. ev \<noteq> Apdu raw" "screen s = Page_review \<longrightarrow> ev \<noteq> User_choice True" by blast
  then show ?thesis
  proof cases
    case apdu
    then show ?thesis using apdu_step [OF k s, of raw] run by auto
  next
    case gone
    then show ?thesis using s run by (simp add: step_def)
  next
    case approve
    then have "path_ok s" using approve_fault [OF s _ approve(2,3), of k] run by fastforce
    then show ?thesis using approve_step [OF k s _ approve(2,3)] run approve(1) by auto
  next
    case user
    then show ?thesis using user_step [OF s, of ev k] run by auto
  qed
qed

lemma run_keeps_wf: "sdk_ok k \<Longrightarrow> state_wf s \<Longrightarrow> run (step k) s es = Some s' \<Longrightarrow> state_wf s'"
  by (induction es arbitrary: s) (auto intro: step_keeps_wf split: option.splits)

lemma run_current:
  "sdk_ok k \<Longrightarrow> state_wf s \<Longrightarrow> settings_current k s \<Longrightarrow> run (step k) s es = Some s' \<Longrightarrow> settings_current k s'"
  by (induction es arbitrary: s) (auto intro: step_current step_keeps_wf split: option.splits)

text \<open>A step that faults is the approval of a review with a long path.\<close>

lemma step_fault:
  assumes k: "sdk_ok k" and s: "state_wf s" and run: "step k s ev = None"
  shows "ev = User_choice True" and "screen s = Page_review" and "\<not> exited s" and "\<not> path_ok s"
proof -
  have ev: "\<forall>raw. ev \<noteq> Apdu raw"
  proof (intro allI notI)
    fix raw assume "ev = Apdu raw"
    then show False using apdu_step [OF k s, of raw] run by simp
  qed
  have "screen s = Page_review \<and> ev = User_choice True" using user_step [OF s ev, of k] run by fastforce
  moreover have "\<not> exited s" using run by (auto simp: step_def)
  moreover have "\<not> path_ok s" using approve_step [OF k s] calculation run by fastforce
  ultimately show "ev = User_choice True" "screen s = Page_review" "\<not> exited s" "\<not> path_ok s" by simp_all
qed

text \<open>No response carries more than 99 bytes of data, the longest of them a public key with its chain
  code.\<close>

definition responses_fit :: "app_state \<Rightarrow> bool" where
  "responses_fit s \<longleftrightarrow> (\<forall>r \<in> set (sent s). length (resp_data r) \<le> 99)"

lemma plain_fits: "plain r \<Longrightarrow> length (resp_data r) \<le> 99"
  by (auto simp: plain_def)

lemma sign_answer_fits:
  assumes "sdk_ok k"
  shows "length (resp_data (sign_answer k path h)) \<le> 74"
proof -
  obtain error sig l where call: "bip32_derive_eddsa_sign_hash_256 (sdk_crypto k) CX_CURVE_Ed25519 path (length path)
      CX_SHA512 h 32 72 = (error, sig, l)" by (metis prod_cases3)
  have "crypto_ok (sdk_crypto k)" using assms by (simp add: sdk_ok_def)
  from sign_length(1) [OF this call] call show ?thesis by (simp add: sign_answer_def)
qed

lemma step_responses_fit:
  assumes k: "sdk_ok k" and s: "state_wf s" "responses_fit s" and run: "step k s ev = Some s'"
  shows "responses_fit s'"
proof -
  have one: "responses_fit s'" if "sent s' = sent s \<or> (\<exists>r. sent s' = sent s @ [r] \<and> plain r)"
    using that s(2) plain_fits by (auto simp: responses_fit_def)
  consider (gone) "exited s" | (apdu) raw where "ev = Apdu raw" "\<not> exited s"
    | (approve) "ev = User_choice True" "screen s = Page_review" "\<not> exited s"
    | (refuse) "ev = User_choice False" "screen s = Page_review" "\<not> exited s"
    | (review) "screen s = Page_review" "\<forall>raw. ev \<noteq> Apdu raw" "\<forall>c. ev \<noteq> User_choice c" "\<not> exited s"
    | (touch) "screen s \<noteq> Page_review" "\<forall>raw. ev \<noteq> Apdu raw" by (cases ev) auto
  then show ?thesis
  proof cases
    case gone
    then show ?thesis using run s(2) by (simp add: step_def)
  next
    case (apdu raw)
    then show ?thesis using loop_body_ok [OF k s(1), of raw] run by (intro one) (auto simp: step_def outcome_def answered_def)
  next
    case approve
    then have "path_ok s" using approve_fault [OF s(1) _ approve(2,3), of k] run by fastforce
    then show ?thesis using approve_step [OF k s(1) _ approve(2,3)] run approve(1) s(2)
        order.trans [OF sign_answer_fits [OF k], of 99]
      by (auto simp: responses_fit_def)
  next
    case refuse
    then show ?thesis using reject_step [OF s(1) refuse(2,3), of k] run s(2) by (auto simp: responses_fit_def sw_answer_def)
  next
    case review
    then show ?thesis using run by (intro one) (cases ev; auto simp: step_def)
  next
    case touch
    show ?thesis by (rule one [OF user_sends_plain [OF s(1) touch(2,1) run]])
  qed
qed

lemma run_responses_fit:
  "sdk_ok k \<Longrightarrow> state_wf s \<Longrightarrow> responses_fit s \<Longrightarrow> run (step k) s es = Some s' \<Longrightarrow> responses_fit s'"
  by (induction es arbitrary: s) (auto intro: step_responses_fit step_keeps_wf split: option.splits)

text \<open>How the second setting is switched on: only the confirmation of the warning does it, and only a
  touch of its switch on the home page, while it is off, opens the warning.\<close>

lemma command_keeps_settings:
  assumes k: "sdk_ok k" and s: "state_wf s" and run: "step k s (Apdu raw) = Some s'"
  shows "N_storage s' = N_storage s" and "screen s' = screen s \<or> screen s' = Page_address \<or> screen s' = Page_review"
proof -
  have "N_storage s' = N_storage s \<and> (screen s' = screen s \<or> screen s' = Page_address \<or> screen s' = Page_review)"
  proof (cases "exited s")
    case True
    then show ?thesis using run by (simp add: step_def)
  next
    case False
    then show ?thesis using loop_body_ok [OF k s, of raw] run by (auto simp: step_def outcome_def answered_def)
  qed
  then show "N_storage s' = N_storage s" "screen s' = screen s \<or> screen s' = Page_address \<or> screen s' = Page_review"
    by simp_all
qed

lemma review_answers_keep_settings:
  assumes k: "sdk_ok k" and s: "state_wf s"
  shows "review_choice_transaction k c s = Some s' \<Longrightarrow> N_storage s' = N_storage s \<and> screen s' \<noteq> Page_warning"
    and "review_choice_address k c s = Some s' \<Longrightarrow> N_storage s' = N_storage s \<and> screen s' \<noteq> Page_warning"
proof -
  have G: "context_wf (G_context s)" and C: "crypto_ok (sdk_crypto k)"
    using s k by (simp_all add: state_wf_def sdk_ok_def)
  have "N_storage t = N_storage s" if "validate_transaction k c s = Some t" for t
    by (subst validate_transaction_frame [OF C G that]) simp
  then show "review_choice_transaction k c s = Some s' \<Longrightarrow> N_storage s' = N_storage s \<and> screen s' \<noteq> Page_warning"
    by (auto simp: review_choice_transaction_def bind_eq_Some_conv)
  show "review_choice_address k c s = Some s' \<Longrightarrow> N_storage s' = N_storage s \<and> screen s' \<noteq> Page_warning"
    by (auto simp: review_choice_address_def validate_pubkey_ok [OF G])
qed

lemma second_setting_step:
  assumes k: "sdk_ok k" and s: "state_wf s" and run: "step k s ev = Some s'"
  shows "dummy2_allowed (N_storage s) = 0 \<Longrightarrow> dummy2_allowed (N_storage s') \<noteq> 0 \<Longrightarrow>
           ev = User_choice True \<and> screen s = Page_warning \<and> \<not> exited s"
    and "screen s' = Page_warning \<Longrightarrow> screen s \<noteq> Page_warning \<Longrightarrow>
           \<exists>i p q. ev = Touch_control (DUMMY_SWITCH_2_TOKEN k) i p \<and> screen s = Page_home q \<and>
             \<not> exited s \<and> dummy2_allowed (N_storage s) = 0 \<and> N_storage s' = N_storage s"
proof -
  have sw: "length (switches s) = 2" using s by (simp add: state_wf_def statics_wf_def)
  note cmd = command_keeps_settings [OF k s] and ans = review_answers_keep_settings [OF k s]
  let ?on = "dummy2_allowed (N_storage s) = 0 \<longrightarrow> dummy2_allowed (N_storage s') \<noteq> 0 \<longrightarrow>
      ev = User_choice True \<and> screen s = Page_warning \<and> \<not> exited s"
  let ?open = "screen s' = Page_warning \<longrightarrow> screen s \<noteq> Page_warning \<longrightarrow>
      (\<exists>i p q. ev = Touch_control (DUMMY_SWITCH_2_TOKEN k) i p \<and> screen s = Page_home q \<and>
         \<not> exited s \<and> dummy2_allowed (N_storage s) = 0 \<and> N_storage s' = N_storage s)"
  have "?on \<and> ?open"
  proof (cases "exited s")
    case True
    then show ?thesis using run by (simp add: step_def)
  next
    case False
    show ?thesis
    proof (cases ev)
      case (Apdu raw)
      with cmd [of raw s'] run show ?thesis by auto
    next
      case (User_choice c)
      with run False ans [of c s'] show ?thesis
        by (cases c) (auto simp: step_def review_warning_choice_def split: page.splits)
    next
      case (Touch_control tok i p)
      with run False show ?thesis
        by (auto simp: step_def controls_callback_def set_switch_ok [OF sw] set_switch_ok sw Let_def split: page.splits if_splits)
    qed (use run False in \<open>auto simp: step_def app_quit_def ui_menu_main_ok [OF sw] split: page.splits\<close>)
  qed
  then show "dummy2_allowed (N_storage s) = 0 \<Longrightarrow> dummy2_allowed (N_storage s') \<noteq> 0 \<Longrightarrow>
      ev = User_choice True \<and> screen s = Page_warning \<and> \<not> exited s"
    and "screen s' = Page_warning \<Longrightarrow> screen s \<noteq> Page_warning \<Longrightarrow>
      \<exists>i p q. ev = Touch_control (DUMMY_SWITCH_2_TOKEN k) i p \<and> screen s = Page_home q \<and>
        \<not> exited s \<and> dummy2_allowed (N_storage s) = 0 \<and> N_storage s' = N_storage s"
    by blast+
qed

interpretation app: safe_system sdk_ok step path_inv event_fine
  by unfold_locales (rule step_safe)

interpretation dialogue: guarded_system sdk_ok step sequential review_inv
  by unfold_locales (rule step_review)

end
