(* ===== verification/Session.thy ===== *)
theory Session
  imports App_Main
begin

text \<open>
  The host's side of a signing session, and what a session does end to end: the commands that
  carry a path and a payload cut into chunks, delivered as APDUs to the main loop.

  Two hypotheses describe the environment of a session: \<open>delivered\<close>, the bytes the host sends are
  parsed by the SDK into the commands it meant, and \<open>sends_succeed\<close>, sending a response does not
  fail (the main loop ends when it does).
\<close>

section \<open>Commands of a session\<close>

definition sign_command :: "bool \<Rightarrow> nat \<Rightarrow> bool \<Rightarrow> bytes \<Rightarrow> command_t" where
  "sign_command tok i m d =
     \<lparr>cmd_cla = CLA, cmd_ins = (if tok then SIGN_TOKEN_TX else SIGN_TX), cmd_p1 = of_nat i,
      cmd_p2 = (if m then P2_MORE else P2_LAST), cmd_lc = of_nat (length d), cmd_data = Some d\<rparr>"

fun chunk_commands :: "bool \<Rightarrow> nat \<Rightarrow> bytes list \<Rightarrow> command_t list" where
  "chunk_commands tok i [] = []"
| "chunk_commands tok i [d] = [sign_command tok i False d]"
| "chunk_commands tok i (d # ds) = sign_command tok i True d # chunk_commands tok (Suc i) ds"

definition sign_commands :: "bool \<Rightarrow> bytes \<Rightarrow> bytes list \<Rightarrow> command_t list" where
  "sign_commands tok pd chunks = sign_command tok 0 True pd # chunk_commands tok 1 chunks"

text \<open>Chunks that can be sent from index \<open>i\<close>: at least one, indices up to 16, at most 255 bytes
  each.\<close>

definition chunks_fit :: "nat \<Rightarrow> bytes list \<Rightarrow> bool" where
  "chunks_fit i chunks \<longleftrightarrow> chunks \<noteq> [] \<and> i + length chunks \<le> 17 \<and> list_all (\<lambda>d. length d \<le> 255) chunks"

definition delivered :: "sdk \<Rightarrow> bytes list \<Rightarrow> command_t list \<Rightarrow> bool" where
  "delivered k raws cmds \<longleftrightarrow> map (apdu_parser (sdk_parser k)) raws = map Some cmds"

definition sends_succeed :: "sdk \<Rightarrow> bool" where
  "sends_succeed k \<longleftrightarrow> (\<forall>rs. 0 \<le> io_status (sdk_io k) rs)"

section \<open>One command\<close>

lemma command_buffer_payload: "length d \<le> 255 \<Longrightarrow> command_buffer d (of_nat (length d)) = payload_buffer d"
  by (simp add: command_buffer_def payload_buffer_def)

lemma chunk_index: "i \<le> 16 \<Longrightarrow> (of_nat i :: u8) \<le> 0x10" "i \<le> 16 \<Longrightarrow> (of_nat i :: u8) = 0 \<longleftrightarrow> i = 0"
  by (simp_all add: word_le_nat_alt word_unat_eq_iff)

lemma dispatch_sign:
  assumes "i \<le> 16" and "i = 0 \<longrightarrow> m"
  shows "dispatch (sign_command tok i m d) = Sign d (of_nat i) m tok"
proof -
  have "i \<noteq> 0 \<Longrightarrow> 0 < (of_nat i :: u8)" using chunk_index(2) [OF assms(1)] by (metis word_gt_0)
  then show ?thesis using assms chunk_index [OF assms(1)]
    by (auto simp: dispatch_def sign_command_def)
qed

lemma sign_step:
  assumes "\<not> exited s" and "apdu_parser (sdk_parser k) raw = Some (sign_command tok i m d)"
    and "i \<le> 16" and "i = 0 \<longrightarrow> m" and "length d \<le> 255"
    and "handler_sign_tx k (payload_buffer d) (of_nat i) m tok s = Some (r, s')" and "0 \<le> r"
  shows "step k s (Apdu raw) = Some s'"
  using assms command_buffer_payload [OF assms(5)]
  by (simp add: step_def app_loop_body_def dispatcher_refines dispatch_sign) (simp add: sign_command_def)

lemma send_nonneg: "sends_succeed k \<Longrightarrow> io_send_sw k sw s = Some (r, s') \<Longrightarrow> 0 \<le> r"
  by (auto simp: io_send_sw_eq sends_succeed_def)

lemma display_nonneg: "sends_succeed k \<Longrightarrow> ui_display_transaction k s = Some (r, s') \<Longrightarrow> 0 \<le> r"
  by (auto simp: ui_display_transaction_def Option.bind_eq_Some_conv dest: send_nonneg split: if_splits prod.splits)

lemma sign_nonneg: "sends_succeed k \<Longrightarrow> handler_sign_tx k b c m tok s = Some (r, s') \<Longrightarrow> 0 \<le> r"
  by (auto simp: handler_sign_tx_def init_transaction_context_def Let_def Option.bind_eq_Some_conv
      dest: send_nonneg display_nonneg split: if_splits)

text \<open>The first command of a session, in any state.\<close>

lemma first_step:
  assumes k: "sdk_ok k" "sends_succeed k" and s: "state_wf s" "\<not> exited s"
    and raw: "apdu_parser (sdk_parser k) raw = Some (sign_command tok 0 True pd)" and pd: "length pd \<le> 255"
  shows "\<exists>n p. step k s (Apdu raw) = Some (s\<lparr>
       G_context := path_context (if tok then CONFIRM_TOKEN_TRANSACTION else CONFIRM_TRANSACTION) n p,
       sent := sent s @ [sw_answer (if path_request pd = None then SWO_WRONG_DATA_LENGTH else SWO_SUCCESS)]\<rparr>) \<and>
     length p = MAX_BIP32_PATH \<and>
     (\<forall>path. path_request pd = Some path \<longrightarrow> unat n \<le> MAX_BIP32_PATH \<and> take (unat n) p = path) \<and>
     (pd \<noteq> [] \<longrightarrow> n = hd pd)"
proof -
  let ?rt = "if tok then CONFIRM_TOKEN_TRANSACTION else CONFIRM_TRANSACTION"
  from k have B: "buffer_ok (sdk_buffer k)" by (simp add: sdk_ok_def)
  have b: "buf_wf (payload_buffer pd)" by simp
  from init_transaction_context_ok [OF B b, of ?rt s] obtain r n p where
    i: "init_transaction_context k (payload_buffer pd) ?rt s = Some (r, s\<lparr>G_context := path_context ?rt n p,
       sent := sent s @ [sw_answer (if path_request pd = None then SWO_WRONG_DATA_LENGTH else SWO_SUCCESS)]\<rparr>)"
    and np: "length p = MAX_BIP32_PATH"
      "\<forall>path. path_request pd = Some path \<longrightarrow> unat n \<le> MAX_BIP32_PATH \<and> take (unat n) p = path"
      "pd \<noteq> [] \<longrightarrow> n = hd pd" by auto
  from i have h: "handler_sign_tx k (payload_buffer pd) (of_nat 0) True tok s = Some (r, s\<lparr>G_context := path_context ?rt n p,
       sent := sent s @ [sw_answer (if path_request pd = None then SWO_WRONG_DATA_LENGTH else SWO_SUCCESS)]\<rparr>)"
    by (simp add: handler_sign_tx_def)
  from sign_step [OF s(2) raw _ _ pd h sign_nonneg [OF k(2) h]] np show ?thesis by auto
qed

text \<open>A chunk that is not the last.\<close>

lemma middle_step:
  assumes k: "sdk_ok k" "sends_succeed k" and s: "state_wf s" "\<not> exited s"
    and raw: "apdu_parser (sdk_parser k) raw = Some (sign_command tok i True d)" and d: "length d \<le> 255"
    and i: "1 \<le> i" "i \<le> 16"
    and rt: "req_type (G_context s) = (if tok then CONFIRM_TOKEN_TRANSACTION else CONFIRM_TRANSACTION)"
    and fits: "length (payload s @ d) \<le> MAX_TRANSACTION_LEN"
  shows "step k s (Apdu raw) = Some (s\<lparr>G_context := extend_context d (G_context s), sent := sent s @ [sw_answer SWO_SUCCESS]\<rparr>)"
proof -
  let ?s = "s\<lparr>G_context := extend_context d (G_context s), sent := sent s @ [sw_answer SWO_SUCCESS]\<rparr>"
  from k have B: "buffer_ok (sdk_buffer k)" by (simp add: sdk_ok_def)
  have G: "context_wf (G_context s)" using s by (simp add: state_wf_def)
  then have "length (payload s) = raw_tx_len (tx_info (G_context s))"
    by (simp add: payload_def context_wf_def)
  then have "accumulate_transaction_data k (payload_buffer d) (if tok then CONFIRM_TOKEN_TRANSACTION else CONFIRM_TRANSACTION) s
      = Some (SWO_SUCCESS, s\<lparr>G_context := extend_context d (G_context s)\<rparr>)"
    using accumulate_ok [OF B _ _ G, of "payload_buffer d"] rt fits by simp
  then obtain r where h: "handler_sign_tx k (payload_buffer d) (of_nat i) True tok s = Some (r, ?s)"
    using chunk_index(2) [OF i(2)] i(1) by (simp add: handler_sign_tx_def Let_def io_send_sw_eq sw_answer_def)
  show ?thesis using sign_step [OF s(2) raw i(2) _ d h sign_nonneg [OF k(2) h]] by simp
qed

section \<open>All chunks\<close>

lemma sequential_Apdu: "sequential s (Apdu raw) = (screen s \<noteq> Page_review)"
  by (simp add: sequential_def)

text \<open>What is known of a session after the first command: the payload so far, and the parts of the
  state that stay fixed.\<close>

definition session :: "app_state \<Rightarrow> request_type_e \<Rightarrow> u32 list \<Rightarrow> u8 \<Rightarrow> bytes \<Rightarrow> bool" where
  "session s rt p n done \<longleftrightarrow> state_wf s \<and> \<not> exited s \<and> req_type (G_context s) = rt \<and>
     bip32_path (G_context s) = p \<and> bip32_path_len (G_context s) = n \<and> payload s = done"

lemma session_middle:
  assumes "session s rt p n xs" and "length (xs @ d) \<le> MAX_TRANSACTION_LEN"
  shows "session (s\<lparr>G_context := extend_context d (G_context s), sent := out\<rparr>) rt p n (xs @ d)"
proof -
  have G: "context_wf (G_context s)" using assms(1) by (simp add: session_def state_wf_def)
  then have "length (payload s) = raw_tx_len (tx_info (G_context s))" by (simp add: payload_def context_wf_def)
  then have "context_wf (extend_context d (G_context s))"
    using assms by (intro extend_context_wf [OF G]) (simp add: session_def)
  moreover have "payload (s\<lparr>G_context := extend_context d (G_context s), sent := out\<rparr>) = payload s @ d"
    using payload_extend [OF G, of d] by (simp add: payload_def)
  ultimately show ?thesis using assms(1)
    by (simp add: session_def state_wf_context)
qed

text \<open>All but the last chunk.\<close>

lemma feed_chunks:
  assumes k: "sdk_ok k" "sends_succeed k"
  shows "session s (if tok then CONFIRM_TOKEN_TRANSACTION else CONFIRM_TRANSACTION) p n xs \<Longrightarrow>
     chunks_fit i chunks \<Longrightarrow> 1 \<le> i \<Longrightarrow> length (xs @ concat chunks) \<le> MAX_TRANSACTION_LEN \<Longrightarrow>
     delivered k raws (chunk_commands tok i chunks) \<Longrightarrow>
     \<exists>s1 raw. run (step k) s (map Apdu raws) = step k s1 (Apdu raw) \<and>
       raws = butlast raws @ [raw] \<and> run (step k) s (map Apdu (butlast raws)) = Some s1 \<and>
       session s1 (if tok then CONFIRM_TOKEN_TRANSACTION else CONFIRM_TRANSACTION) p n (xs @ concat (butlast chunks)) \<and>
       apdu_parser (sdk_parser k) raw = Some (sign_command tok (i + length chunks - 1) False (last chunks)) \<and>
       screen s1 = screen s \<and> shown s1 = shown s \<and>
       sent s1 = sent s @ replicate (length chunks - 1) (sw_answer SWO_SUCCESS) \<and>
       (screen s \<noteq> Page_review \<longrightarrow>
          guarded_run sequential (step k) s (map Apdu raws) = run (step k) s (map Apdu raws))"
proof (induction tok i chunks arbitrary: s xs raws rule: chunk_commands.induct)
  case (1 tok i)
  then show ?case by (simp add: chunks_fit_def)
next
  case (2 tok i d)
  then obtain raw where "raws = [raw]" "apdu_parser (sdk_parser k) raw = Some (sign_command tok i False d)"
    by (auto simp: delivered_def)
  with 2 show ?case by (auto simp: sequential_Apdu split: option.split intro!: exI [of _ s] exI [of _ raw])
next
  case (3 tok i d d' ds)
  let ?rt = "if tok then CONFIRM_TOKEN_TRANSACTION else CONFIRM_TRANSACTION"
  from 3(6) obtain raw rest where raws: "raws = raw # rest"
    and p: "apdu_parser (sdk_parser k) raw = Some (sign_command tok i True d)"
    and rest: "delivered k rest (chunk_commands tok (Suc i) (d' # ds))" by (auto simp: delivered_def)
  from 3(3) have fit: "length d \<le> 255" "i \<le> 16" "chunks_fit (Suc i) (d' # ds)" by (simp_all add: chunks_fit_def)
  from 3(2) have s: "state_wf s" "\<not> exited s" "req_type (G_context s) = ?rt" "payload s = xs" by (simp_all add: session_def)
  let ?s = "s\<lparr>G_context := extend_context d (G_context s), sent := sent s @ [sw_answer SWO_SUCCESS]\<rparr>"
  have len: "length (xs @ d) \<le> 2600" using 3(5) by simp
  have st: "step k s (Apdu raw) = Some ?s"
    using middle_step [OF k s(1,2) p fit(1) 3(4) fit(2) s(3)] len s(4) by simp
  have ses: "session ?s ?rt p n (xs @ d)" by (rule session_middle [OF 3(2) len])
  have len2: "length ((xs @ d) @ concat (d' # ds)) \<le> 2600" using 3(5) by simp
  from 3(1) [OF ses fit(3) _ len2 rest] obtain s1 raw1 where
    "run (step k) ?s (map Apdu rest) = step k s1 (Apdu raw1)"
    "rest = butlast rest @ [raw1]" "run (step k) ?s (map Apdu (butlast rest)) = Some s1"
    "session s1 ?rt p n ((xs @ d) @ concat (butlast (d' # ds)))"
    "apdu_parser (sdk_parser k) raw1 = Some (sign_command tok (Suc i + length (d' # ds) - 1) False (last (d' # ds)))"
    "screen s1 = screen ?s" "shown s1 = shown ?s"
    "sent s1 = sent ?s @ replicate (length (d' # ds) - 1) (sw_answer SWO_SUCCESS)"
    "screen ?s \<noteq> Page_review \<longrightarrow>
       guarded_run sequential (step k) ?s (map Apdu rest) = run (step k) ?s (map Apdu rest)" by auto
  moreover from this(2) have "butlast raws = raw # butlast rest" "rest \<noteq> []" using raws by auto
  ultimately show ?case using raws st
    by (intro exI [of _ s1] exI [of _ raw1])
       (simp add: sequential_Apdu replicate_append_same [symmetric] del: replicate_append_same)
qed

text \<open>The commands before the last one announce more.\<close>

lemma chunk_commands_more:
  "delivered k raws (chunk_commands tok i chunks) \<Longrightarrow> raw \<in> set (butlast raws) \<Longrightarrow>
   \<exists>j d. apdu_parser (sdk_parser k) raw = Some (sign_command tok j True d) \<and> j < i + length chunks"
proof (induction tok i chunks arbitrary: raws rule: chunk_commands.induct)
  case (3 tok i d d' ds)
  from 3(2) obtain raw' rest where raws: "raws = raw' # rest"
    "apdu_parser (sdk_parser k) raw' = Some (sign_command tok i True d)"
    "delivered k rest (chunk_commands tok (Suc i) (d' # ds))" by (auto simp: delivered_def)
  show ?case
  proof (cases "raw \<in> set (butlast rest)")
    case True
    then show ?thesis using 3(1) [OF raws(3)] by auto
  next
    case False
    then have "raw = raw'" using 3(3) raws(1) by (auto split: if_splits)
    then show ?thesis using raws(2) by auto
  qed
qed (auto simp: delivered_def)

section \<open>The last chunk\<close>

lemma session_length:
  "session s rt p n xs \<Longrightarrow> raw_tx_len (tx_info (G_context s)) = length xs"
  by (auto simp: session_def state_wf_def context_wf_def payload_def)

text \<open>A message opens its review.\<close>

lemma last_step:
  assumes k: "sdk_ok k" "sends_succeed k" and s: "session s CONFIRM_TRANSACTION p n xs"
    and raw: "apdu_parser (sdk_parser k) raw = Some (sign_command False i False d)"
    and i: "1 \<le> i" "i \<le> 16" and d: "length d \<le> 255"
    and fits: "length (xs @ d) \<le> MAX_TRANSACTION_LEN" and e: "wf_email e" "xs @ d = encode_email e"
    and hash: "fst (cx_hash_sha256 (sdk_crypto k) (encode_email e) 32) = 32"
  shows "\<exists>s'. step k s (Apdu raw) = Some s' \<and> session s' CONFIRM_TRANSACTION p n (encode_email e) \<and>
     screen s' = Page_review \<and> shown s' = email_pairs e \<and> consistent k s' \<and> sent s' = sent s"
proof -
  let ?b = "payload_buffer d"
  let ?h = "snd (cx_hash_sha256 (sdk_crypto k) (encode_email e) 32)"
  from s have st: "state_wf s" "\<not> exited s" "req_type (G_context s) = CONFIRM_TRANSACTION" "payload s = xs"
    "bip32_path (G_context s) = p" "bip32_path_len (G_context s) = n"
    by (simp_all add: session_def)
  have e': "parse_email (payload s @ buf_rest ?b) = Inr e" using e st by (simp add: parse_email_Inr)
  have hash': "cx_hash_sha256 (sdk_crypto k) (payload s @ buf_rest ?b) 32 = (32, ?h)"
    using hash e st by (metis payload_buffer_simps(2) prod.collapse)
  have chunk: "(of_nat i :: u8) \<noteq> 0" using chunk_index(2) [OF i(2)] i(1) by simp
  have fits': "raw_tx_len (tx_info (G_context s)) + length (buf_rest ?b) \<le> 2600"
    using fits session_length [OF s] by simp
  obtain s' tx where h: "handler_sign_tx k ?b (of_nat i) False False s = Some (0, s')"
    and dp: "displayed (s\<lparr>G_context := parsed_context tx ?h (extend_context (buf_rest ?b) (G_context s))\<rparr>) s' e"
    and c: "consistent k s'" "payload s' = payload s @ buf_rest ?b" "state_wf s'"
    using sign_last_chunk [OF k(1) payload_buffer_simps(1) payload_buffer_simps(5) st(1,3) chunk fits' e' hash'] by blast
  have run: "step k s (Apdu raw) = Some s'" by (rule sign_step [OF st(2) raw i(2) _ d h]) (use i in simp_all)
  have "G_context s' = parsed_context tx ?h (extend_context d (G_context s))" using dp by (simp add: displayed_def)
  then show ?thesis using run dp c st e
    by (auto simp: session_def displayed_def parsed_context_def)
qed

text \<open>A message in a token request replaces the digest, and nothing on the screen changes.\<close>

lemma last_token_step:
  assumes k: "sdk_ok k" "sends_succeed k" and s: "session s CONFIRM_TOKEN_TRANSACTION p n xs"
    and raw: "apdu_parser (sdk_parser k) raw = Some (sign_command True i False d)"
    and i: "1 \<le> i" "i \<le> 16" and d: "length d \<le> 255"
    and fits: "length (xs @ d) \<le> MAX_TRANSACTION_LEN" and e: "wf_email e" "xs @ d = encode_email e"
    and hash: "fst (cx_hash_sha256 (sdk_crypto k) (encode_email e) 32) = 32"
  shows "\<exists>s'. step k s (Apdu raw) = Some s' \<and> state_wf s' \<and> \<not> exited s' \<and>
     screen s' = screen s \<and> shown s' = shown s \<and>
     m_hash (tx_info (G_context s')) = snd (cx_hash_sha256 (sdk_crypto k) (encode_email e) 32) \<and>
     bip32_path (G_context s') = p \<and> bip32_path_len (G_context s') = n \<and>
     sent s' = sent s @ [sw_answer SWO_CONDITIONS_NOT_SATISFIED]"
proof -
  let ?b = "payload_buffer d"
  let ?h = "snd (cx_hash_sha256 (sdk_crypto k) (encode_email e) 32)"
  from s have st: "state_wf s" "\<not> exited s" "req_type (G_context s) = CONFIRM_TOKEN_TRANSACTION" "payload s = xs"
    "bip32_path (G_context s) = p" "bip32_path_len (G_context s) = n"
    by (simp_all add: session_def)
  have e': "\<exists>e. parse_email (payload s @ buf_rest ?b) = Inr e" using e st by (auto simp: parse_email_Inr)
  have hash': "cx_hash_sha256 (sdk_crypto k) (payload s @ buf_rest ?b) 32 = (32, ?h)"
    using hash e st by (metis payload_buffer_simps(2) prod.collapse)
  have chunk: "(of_nat i :: u8) \<noteq> 0" using chunk_index(2) [OF i(2)] i(1) by simp
  have fits': "raw_tx_len (tx_info (G_context s)) + length (buf_rest ?b) \<le> 2600"
    using fits session_length [OF s] by simp
  obtain r G where h: "handler_sign_tx k ?b (of_nat i) False True s =
      Some (r, s\<lparr>G_context := G, sent := sent s @ [sw_answer SWO_CONDITIONS_NOT_SATISFIED]\<rparr>)"
    and G: "context_wf G" "m_hash (tx_info G) = ?h" "bip32_path G = p" "bip32_path_len G = n"
    using sign_last_chunk_refused [OF k(1) payload_buffer_simps(1) payload_buffer_simps(5) st(1) _ chunk fits' hash', of True]
      st(3,5,6) e' by auto
  have run: "step k s (Apdu raw) = Some (s\<lparr>G_context := G, sent := sent s @ [sw_answer SWO_CONDITIONS_NOT_SATISFIED]\<rparr>)"
    by (rule sign_step [OF st(2) raw i(2) _ d h sign_nonneg [OF k(2) h]]) (use i in simp)
  then show ?thesis using G st by (simp add: state_wf_context)
qed

section \<open>Whole sessions\<close>

lemma chunks_fit_last:
  assumes "chunks_fit 1 chunks"
  shows "1 \<le> length chunks" and "length chunks \<le> 16" and "length (last chunks) \<le> 255"
    and "concat (butlast chunks) @ last chunks = concat chunks"
proof -
  from assms have ne: "chunks \<noteq> []" by (simp add: chunks_fit_def)
  then show "1 \<le> length chunks" by (cases chunks) simp_all
  from ne show "concat (butlast chunks) @ last chunks = concat chunks"
    by (metis append_butlast_last_id concat_append concat.simps append_Nil2)
  from assms ne show "length chunks \<le> 16" "length (last chunks) \<le> 255"
    by (auto simp: chunks_fit_def list_all_iff)
qed

lemma first_session:
  assumes k: "sdk_ok k" "sends_succeed k" and s: "state_wf s" "\<not> exited s"
    and raw: "apdu_parser (sdk_parser k) raw = Some (sign_command tok 0 True pd)" and pd: "length pd \<le> 255"
  shows "\<exists>s' p n. step k s (Apdu raw) = Some s' \<and>
     session s' (if tok then CONFIRM_TOKEN_TRANSACTION else CONFIRM_TRANSACTION) p n [] \<and>
     m_hash (tx_info (G_context s')) = zeros 32 \<and>
     screen s' = screen s \<and> shown s' = shown s \<and>
     sent s' = sent s @ [sw_answer (if path_request pd = None then SWO_WRONG_DATA_LENGTH else SWO_SUCCESS)] \<and>
     (\<forall>path. path_request pd = Some path \<longrightarrow> unat n \<le> MAX_BIP32_PATH \<and> take (unat n) p = path) \<and>
     (pd \<noteq> [] \<longrightarrow> n = hd pd)"
proof -
  let ?rt = "if tok then CONFIRM_TOKEN_TRANSACTION else CONFIRM_TRANSACTION"
  from first_step [OF assms] obtain n p where
    run: "step k s (Apdu raw) = Some (s\<lparr>G_context := path_context ?rt n p,
       sent := sent s @ [sw_answer (if path_request pd = None then SWO_WRONG_DATA_LENGTH else SWO_SUCCESS)]\<rparr>)"
    and np: "length p = MAX_BIP32_PATH"
      "\<forall>path. path_request pd = Some path \<longrightarrow> unat n \<le> MAX_BIP32_PATH \<and> take (unat n) p = path"
      "pd \<noteq> [] \<longrightarrow> n = hd pd" by blast
  have "session (s\<lparr>G_context := path_context ?rt n p, sent := out\<rparr>) ?rt p n []" for out
    using s path_context_wf [OF np(1), of ?rt n]
    by (simp add: session_def state_wf_context payload_def) (simp add: path_context_def)
  moreover have "m_hash (tx_info (path_context ?rt n p)) = zeros 32" by (simp add: path_context_def)
  ultimately show ?thesis using run np(2,3)
    by (intro exI [of _ "s\<lparr>G_context := path_context ?rt n p,
       sent := sent s @ [sw_answer (if path_request pd = None then SWO_WRONG_DATA_LENGTH else SWO_SUCCESS)]\<rparr>"]
        exI [of _ p] exI [of _ n]) simp
qed

lemma delivered_Cons:
  "delivered k raws (c # cs) \<Longrightarrow> \<exists>raw rest. raws = raw # rest \<and> apdu_parser (sdk_parser k) raw = Some c \<and> delivered k rest cs"
  by (auto simp: delivered_def)

text \<open>A session ends in the review of the message it carries, with the path it started with.\<close>

lemma session_run:
  assumes k: "sdk_ok k" "sends_succeed k" and s: "state_wf s" "\<not> exited s"
    and host: "delivered k raws (sign_commands False pd chunks)" "length pd \<le> 255" "chunks_fit 1 chunks"
    and e: "wf_email e" "concat chunks = encode_email e" "length (encode_email e) \<le> MAX_TRANSACTION_LEN"
    and hash: "fst (cx_hash_sha256 (sdk_crypto k) (encode_email e) 32) = 32"
  shows "\<exists>s' p n. run (step k) s (map Apdu raws) = Some s' \<and> session s' CONFIRM_TRANSACTION p n (encode_email e) \<and>
     screen s' = Page_review \<and> shown s' = email_pairs e \<and> consistent k s' \<and>
     sent s' = sent s @ sw_answer (if path_request pd = None then SWO_WRONG_DATA_LENGTH else SWO_SUCCESS)
       # replicate (length chunks - 1) (sw_answer SWO_SUCCESS) \<and>
     (\<forall>path. path_request pd = Some path \<longrightarrow> unat n \<le> MAX_BIP32_PATH \<and> take (unat n) p = path) \<and>
     (pd \<noteq> [] \<longrightarrow> n = hd pd) \<and>
     (screen s \<noteq> Page_review \<longrightarrow> guarded_run sequential (step k) s (map Apdu raws) = Some s')"
proof -
  from delivered_Cons [OF host(1) [unfolded sign_commands_def]] obtain raw rest where
    raws: "raws = raw # rest" "apdu_parser (sdk_parser k) raw = Some (sign_command False 0 True pd)"
    "delivered k rest (chunk_commands False 1 chunks)" by blast
  from first_session [OF k s raws(2) host(2)] obtain s0 p n where
    s0: "step k s (Apdu raw) = Some s0" "session s0 CONFIRM_TRANSACTION p n []"
    "screen s0 = screen s"
    "sent s0 = sent s @ [sw_answer (if path_request pd = None then SWO_WRONG_DATA_LENGTH else SWO_SUCCESS)]"
    and path: "\<forall>path. path_request pd = Some path \<longrightarrow> unat n \<le> MAX_BIP32_PATH \<and> take (unat n) p = path"
      "pd \<noteq> [] \<longrightarrow> n = hd pd" by auto
  from feed_chunks [OF k, of s0 False p n "[]" 1 chunks rest] s0(2) host(3) e raws(3) obtain s1 raw1 where
    s1: "run (step k) s0 (map Apdu rest) = step k s1 (Apdu raw1)"
    "session s1 CONFIRM_TRANSACTION p n (concat (butlast chunks))"
    "apdu_parser (sdk_parser k) raw1 = Some (sign_command False (length chunks) False (last chunks))"
    "sent s1 = sent s0 @ replicate (length chunks - 1) (sw_answer SWO_SUCCESS)"
    "screen s0 \<noteq> Page_review \<longrightarrow>
       guarded_run sequential (step k) s0 (map Apdu rest) = run (step k) s0 (map Apdu rest)" by auto
  note fit = chunks_fit_last(1-3) [OF host(3)]
  have cat: "concat (butlast chunks) @ last chunks = encode_email e" using chunks_fit_last(4) [OF host(3)] e(2) by simp
  from last_step [OF k s1(2,3) fit _ e(1) cat hash] cat e(3) obtain s' where
    "step k s1 (Apdu raw1) = Some s'" "session s' CONFIRM_TRANSACTION p n (encode_email e)"
    "screen s' = Page_review" "shown s' = email_pairs e" "consistent k s'" "sent s' = sent s1" by auto
  then show ?thesis using raws(1) s0(1,3,4) s1(1,4,5) path
    by (intro exI [of _ s'] exI [of _ p] exI [of _ n]) (simp add: sequential_Apdu)
qed

text \<open>The same for a token request: the review that is on the screen stays, the digest is replaced.\<close>

lemma token_session_run:
  assumes k: "sdk_ok k" "sends_succeed k" and s: "state_wf s" "\<not> exited s"
    and host: "delivered k raws (sign_commands True pd chunks)" "length pd \<le> 255" "chunks_fit 1 chunks"
    and e: "wf_email e" "concat chunks = encode_email e" "length (encode_email e) \<le> MAX_TRANSACTION_LEN"
    and hash: "fst (cx_hash_sha256 (sdk_crypto k) (encode_email e) 32) = 32"
    and path: "path_request pd = Some path"
  shows "\<exists>s'. run (step k) s (map Apdu raws) = Some s' \<and> state_wf s' \<and> \<not> exited s' \<and> path_ok s' \<and>
     screen s' = screen s \<and> shown s' = shown s \<and> signing_path (G_context s') = path \<and>
     m_hash (tx_info (G_context s')) = snd (cx_hash_sha256 (sdk_crypto k) (encode_email e) 32)"
proof -
  from delivered_Cons [OF host(1) [unfolded sign_commands_def]] obtain raw rest where
    raws: "raws = raw # rest" "apdu_parser (sdk_parser k) raw = Some (sign_command True 0 True pd)"
    "delivered k rest (chunk_commands True 1 chunks)" by blast
  from first_session [OF k s raws(2) host(2)] path obtain s0 p n where
    s0: "step k s (Apdu raw) = Some s0" "session s0 CONFIRM_TOKEN_TRANSACTION p n []"
    "screen s0 = screen s" "shown s0 = shown s" "unat n \<le> MAX_BIP32_PATH" "take (unat n) p = path" by auto
  from feed_chunks [OF k, of s0 True p n "[]" 1 chunks rest] s0(2) host(3) e raws(3) obtain s1 raw1 where
    s1: "run (step k) s0 (map Apdu rest) = step k s1 (Apdu raw1)"
    "session s1 CONFIRM_TOKEN_TRANSACTION p n (concat (butlast chunks))"
    "apdu_parser (sdk_parser k) raw1 = Some (sign_command True (length chunks) False (last chunks))"
    "screen s1 = screen s0" "shown s1 = shown s0" by auto
  note fit = chunks_fit_last(1-3) [OF host(3)]
  have cat: "concat (butlast chunks) @ last chunks = encode_email e" using chunks_fit_last(4) [OF host(3)] e(2) by simp
  from last_token_step [OF k s1(2,3) fit _ e(1) cat hash] cat e(3) obtain s' where
    "step k s1 (Apdu raw1) = Some s'" "state_wf s'" "\<not> exited s'" "screen s' = screen s1" "shown s' = shown s1"
    "m_hash (tx_info (G_context s')) = snd (cx_hash_sha256 (sdk_crypto k) (encode_email e) 32)"
    "bip32_path (G_context s') = p" "bip32_path_len (G_context s') = n" by auto
  then show ?thesis using raws(1) s0 s1
    by (intro exI [of _ s']) (simp add: path_ok_def signing_path_def)
qed

section \<open>A session to evaluate\<close>

text \<open>The bytes of a command with data, as the instance of the SDK parses them.\<close>

definition ref_frame :: "command_t \<Rightarrow> bytes" where
  "ref_frame c = [cmd_cla c, cmd_ins c, cmd_p1 c, cmd_p2 c, cmd_lc c] @ the (cmd_data c)"

lemma ref_frame_parsed:
  assumes "1 \<le> length d" and "length d \<le> 255"
  shows "apdu_parser ref_parser_lib (ref_frame (sign_command tok i m d)) = Some (sign_command tok i m d)"
proof -
  have "unat (of_nat (length d) :: u8) = length d" using assms(2) by simp
  moreover from this have "(of_nat (length d) :: u8) \<noteq> 0" using assms(1) by (metis not_one_le_zero unsigned_0)
  ultimately show ?thesis
    by (simp add: ref_parser_lib_def ref_frame_def sign_command_def)
qed

definition sample_path :: bytes where
  "sample_path = [1, 0x80, 0, 0, 44]"

definition sample_chunks :: "bytes list" where
  "sample_chunks = [take 20 (encode_email sample_email), drop 20 (encode_email sample_email)]"

definition sample_raws :: "bool \<Rightarrow> bytes \<Rightarrow> bytes list" where
  "sample_raws tok pd = map ref_frame (sign_commands tok pd sample_chunks)"

lemma sample_path_request: "path_request sample_path = Some [0x8000002C]"
  by (simp add: sample_path_def path_request_def MAX_BIP32_PATH_def be32_val_def)

lemma sample_chunks_ok:
  "concat sample_chunks = encode_email sample_email" "chunks_fit 1 sample_chunks"
  using length_sample_email by (simp_all add: sample_chunks_def chunks_fit_def)

lemma sample_delivered:
  assumes "1 \<le> length pd" and "length pd \<le> 255"
  shows "delivered ref_sdk (sample_raws tok pd) (sign_commands tok pd sample_chunks)"
  using assms length_sample_email
  by (simp add: delivered_def sample_raws_def sign_commands_def sample_chunks_def ref_frame_parsed)

lemma ref_sends [simp]: "sends_succeed ref_sdk"
  by (simp add: sends_succeed_def ref_io_lib_def)

lemma ref_hash [simp]: "fst (cx_hash_sha256 ref_crypto_lib m 32) = 32"
  by (simp add: ref_crypto_lib_def)

end
