(* ===== verification/Signing_Dialogue.thy ===== *)
theory Signing_Dialogue
  imports App_Main
begin

text \<open>
  The abstract specification of the application and the proof that the main loop refines it.

  To the user and the host the device is a small state machine. It is idle, or it has one message
  under review, for one signing path. Idle, it answers commands, never with a signature, or opens
  the review of a well-formed message. A review ends with the approval, which answers the
  signature over the digest of exactly that message, or with the refusal. The relation \<open>phase_rel\<close>
  reads the phase off the state of the application; every step of the main loop, for a host that
  waits for the answer to a review, is a step of this machine with the same responses.
\<close>

section \<open>The specification\<close>

datatype phase = Idle | Reviewing email "u32 list"

definition message_digest :: "sdk \<Rightarrow> email \<Rightarrow> bytes" where
  "message_digest k e = snd (cx_hash_sha256 (sdk_crypto k) (encode_email e) 32)"

inductive dialogue_step :: "sdk \<Rightarrow> phase \<Rightarrow> apdu_response list \<Rightarrow> phase \<Rightarrow> bool" for k :: sdk where
  stay: "dialogue_step k p [] p"
| serve: "plain r \<Longrightarrow> dialogue_step k Idle [r] Idle"
| begin_review: "wf_email e \<Longrightarrow> dialogue_step k Idle [] (Reviewing e path)"
| approve: "dialogue_step k (Reviewing e path) [sign_answer k path (message_digest k e)] Idle"
| refuse: "dialogue_step k (Reviewing e path) [sw_answer SWO_CONDITIONS_NOT_SATISFIED] Idle"

inductive_cases idle_stepE: "dialogue_step k Idle outs p"
inductive_cases reviewing_stepE: "dialogue_step k (Reviewing e path) outs p"

text \<open>The phase of the application.\<close>

definition phase_rel :: "sdk \<Rightarrow> app_state \<Rightarrow> phase \<Rightarrow> bool" where
  "phase_rel k s p \<longleftrightarrow> review_inv k s \<and>
     (if screen s = Page_review
      then \<exists>e. p = Reviewing e (signing_path (G_context s)) \<and> wf_email e \<and> shown s = email_pairs e \<and>
               payload s = encode_email e
      else p = Idle)"

section \<open>Consequences of the specification\<close>

text \<open>Without a review there is no signature; a review ends with its signature or with the refusal.\<close>

lemma idle_sends_plain: "dialogue_step k Idle outs q \<Longrightarrow> r \<in> set outs \<Longrightarrow> plain r"
  by (auto elim: idle_stepE)

lemma review_sends:
  "dialogue_step k (Reviewing e path) outs q \<Longrightarrow> r \<in> set outs \<Longrightarrow> \<not> plain r \<Longrightarrow>
   outs = [sign_answer k path (message_digest k e)]"
  by (auto elim: reviewing_stepE)

text \<open>Only well-formed messages come under review.\<close>

lemma trace_reviews_wf:
  "spec_trace (dialogue_step k) p outs q \<Longrightarrow> (\<And>e path. p = Reviewing e path \<Longrightarrow> wf_email e) \<Longrightarrow>
   q = Reviewing e path \<Longrightarrow> wf_email e"
proof (induction rule: spec_trace.induct)
  case (trace_step p o1 q o2 r)
  have "wf_email e'" if "q = Reviewing e' path'" for e' path'
    using trace_step.hyps(1) trace_step.prems(1) that by (cases rule: dialogue_step.cases) auto
  then show ?case using trace_step by blast
qed simp

text \<open>A response that is not plain was sent by the approval of the message under review then.\<close>

lemma trace_signature:
  "spec_trace (dialogue_step k) p outs q \<Longrightarrow> i < length outs \<Longrightarrow> \<not> plain (outs ! i) \<Longrightarrow>
   \<exists>e path. spec_trace (dialogue_step k) p (take i outs) (Reviewing e path) \<and>
     outs ! i = sign_answer k path (message_digest k e) \<and>
     spec_trace (dialogue_step k) Idle (drop (Suc i) outs) q"
proof (induction arbitrary: i rule: spec_trace.induct)
  case (trace_step p o1 q o2 r)
  show ?case
  proof (cases "i < length o1")
    case True
    then have "i = 0" and o1: "length o1 = 1" using trace_step.hyps(1) by (auto elim: dialogue_step.cases)
    moreover have "\<not> plain (o1 ! 0)" using trace_step.prems True \<open>i = 0\<close> by (simp add: nth_append)
    ultimately obtain e path where "p = Reviewing e path" "o1 = [sign_answer k path (message_digest k e)]" "q = Idle"
      using trace_step.hyps(1) by (auto elim: dialogue_step.cases)
    then show ?thesis using \<open>i = 0\<close> trace_step.hyps(2) trace_refl by (intro exI [of _ e] exI [of _ path]) simp
  next
    case False
    then have "i - length o1 < length o2" "\<not> plain (o2 ! (i - length o1))"
      using trace_step.prems by (simp_all add: nth_append)
    from trace_step.IH [OF this] obtain e path where
      "spec_trace (dialogue_step k) q (take (i - length o1) o2) (Reviewing e path)"
      "o2 ! (i - length o1) = sign_answer k path (message_digest k e)"
      "spec_trace (dialogue_step k) Idle (drop (Suc (i - length o1)) o2) r" by blast
    moreover have "Suc (i - length o1) = Suc i - length o1" using False by simp
    ultimately show ?thesis using False trace_step.hyps(1) spec_trace.trace_step [of "dialogue_step k" p o1 q]
      by (intro exI [of _ e] exI [of _ path]) (auto simp: nth_append)
  qed
qed simp

section \<open>The main loop refines it\<close>

text \<open>Every other event while an email is under review changes neither review nor responses.\<close>

lemma review_waits:
  assumes "screen s = Page_review" and "\<forall>raw. ev \<noteq> Apdu raw" and "\<forall>c. ev \<noteq> User_choice c"
    and "step k s ev = Some s'"
  shows "s' = s \<or> s' = s\<lparr>exited := True\<rparr>"
  using assms by (cases ev) (auto simp: step_def split: if_splits)

lemma phase_idle: "review_inv k s' \<Longrightarrow> screen s' \<noteq> Page_review \<Longrightarrow> phase_rel k s' Idle"
  by (simp add: phase_rel_def)

lemma phase_idleD: "phase_rel k s p \<Longrightarrow> screen s \<noteq> Page_review \<Longrightarrow> p = Idle"
  by (simp add: phase_rel_def)

lemma command_simulates:
  assumes k: "sdk_ok k" and s: "phase_rel k s p" "screen s \<noteq> Page_review" "\<not> exited s"
    and run: "step k s (Apdu raw) = Some s'"
  shows "\<exists>outs q. sent s' = sent s @ outs \<and> dialogue_step k p outs q \<and> phase_rel k s' q"
proof -
  have inv: "review_inv k s" "state_wf s" using s(1) by (simp_all add: phase_rel_def review_inv_def)
  have inv': "review_inv k s'" using step_review [OF k inv(1) _ run] s(2) by (simp add: sequential_def)
  from loop_body_ok [OF k inv(2), of raw] run s(3) have out: "outcome k s (s'\<lparr>exited := exited s\<rparr>)"
    by (auto simp: step_def)
  show ?thesis
  proof (cases "screen s' = Page_review")
    case True
    then obtain e where e: "wf_email e" "payload s' = encode_email e" "shown s' = email_pairs e"
      using inv' by (auto simp: review_inv_def consistent_def)
    have "sent s' = sent s" using out s(2) True by (auto simp: outcome_def answered_def)
    moreover have "phase_rel k s' (Reviewing e (signing_path (G_context s')))"
      using True e inv' by (simp add: phase_rel_def)
    ultimately show ?thesis using begin_review [OF e(1)] phase_idleD [OF s(1,2)] by fastforce
  next
    case False
    then have "sent s' = sent s \<or> (\<exists>r. sent s' = sent s @ [r] \<and> plain r)"
      using out by (auto simp: outcome_def answered_def)
    then show ?thesis using phase_idle [OF inv' False] phase_idleD [OF s(1,2)] stay serve by fastforce
  qed
qed

lemma touch_simulates:
  assumes k: "sdk_ok k" and s: "phase_rel k s p" and ev: "\<forall>raw. ev \<noteq> Apdu raw" and run: "step k s ev = Some s'"
  shows "\<exists>outs q. sent s' = sent s @ outs \<and> dialogue_step k p outs q \<and> phase_rel k s' q"
proof -
  have inv: "review_inv k s" "state_wf s" using s by (simp_all add: phase_rel_def review_inv_def)
  have inv': "review_inv k s'" using step_review [OF k inv(1) _ run] ev by (simp add: sequential_def split: event.split)
  consider (gone) "exited s" | (idle) "screen s \<noteq> Page_review" "\<not> exited s"
    | (wait) "screen s = Page_review" "\<forall>c. ev \<noteq> User_choice c" "\<not> exited s"
    | (yes) "screen s = Page_review" "ev = User_choice True" "\<not> exited s"
    | (no) "screen s = Page_review" "ev = User_choice False" "\<not> exited s" by blast
  then show ?thesis
  proof cases
    case gone
    then show ?thesis using run s stay by (fastforce simp: step_def)
  next
    case idle
    then have "screen s' \<noteq> Page_review" using user_step [OF inv(2) ev, of k] run by auto
    then show ?thesis using user_sends_plain [OF inv(2) ev idle(1) run] phase_idle [OF inv'] phase_idleD [OF s idle(1)]
        stay serve by fastforce
  next
    case wait
    have "phase_rel k s' p" and "sent s' = sent s"
      using review_waits [OF wait(1) ev wait(2) run] s inv' by (auto simp: phase_rel_def payload_def)
    then show ?thesis using stay by fastforce
  next
    case yes
    then have "path_ok s" using approve_fault [OF inv(2) _ yes(1,3), of k] run by fastforce
    from approve_step [OF k inv(2) this yes(1,3)] run yes(2)
    have out: "sent s' = sent s @ [sign_answer k (signing_path (G_context s)) (m_hash (tx_info (G_context s)))]"
      "screen s' \<noteq> Page_review" by auto
    obtain e where e: "p = Reviewing e (signing_path (G_context s))" "payload s = encode_email e"
      using s yes(1) by (auto simp: phase_rel_def)
    have "m_hash (tx_info (G_context s)) = message_digest k e"
      using inv(1) yes(1) e(2) by (simp add: review_inv_def consistent_def message_digest_def)
    then show ?thesis using out e(1) phase_idle [OF inv' out(2)] approve by auto
  next
    case no
    from reject_step [OF inv(2) no(1,3), of k] run no(2)
    have out: "sent s' = sent s @ [sw_answer SWO_CONDITIONS_NOT_SATISFIED]" "screen s' \<noteq> Page_review" by auto
    obtain e path where "p = Reviewing e path" using s no(1) by (auto simp: phase_rel_def)
    then show ?thesis using out phase_idle [OF inv' out(2)] refuse by auto
  qed
qed

interpretation refinement: forward_simulation sdk_ok step sequential sent phase_rel dialogue_step
proof unfold_locales
  fix k s p ev s'
  assume k: "sdk_ok k" and s: "phase_rel k s p" and g: "sequential s ev" and run: "step k s ev = Some s'"
  show "\<exists>outs q. sent s' = sent s @ outs \<and> dialogue_step k p outs q \<and> phase_rel k s' q"
  proof (cases "\<exists>raw. ev = Apdu raw \<and> \<not> exited s")
    case True
    then show ?thesis using command_simulates [OF k s] run g by (auto simp: sequential_def)
  next
    case False
    then show ?thesis using touch_simulates [OF k s _ run] run s stay by (cases "exited s") (fastforce simp: step_def)+
  qed
qed

text \<open>A response that is not plain comes from the approval of the message on the screen.\<close>

lemma signature_step:
  assumes k: "sdk_ok k" and s: "phase_rel k s p" and g: "sequential s ev" and run: "step k s ev = Some s'"
    and i: "length (sent s) \<le> i" "i < length (sent s')" "\<not> plain (sent s' ! i)"
  shows "\<exists>e. ev = User_choice True \<and> i = length (sent s) \<and> screen s = Page_review \<and> wf_email e \<and>
     shown s = email_pairs e \<and> sent s' ! i = sign_answer k (signing_path (G_context s)) (message_digest k e)"
proof -
  from refinement.simulates [OF k s g run] obtain outs q where
    o: "sent s' = sent s @ outs" "dialogue_step k p outs q" by blast
  from i o(1) have out: "sent s' ! i \<in> set outs" by (auto simp: nth_append)
  then obtain e path where p: "p = Reviewing e path" using idle_sends_plain o(2) i(3) by (cases p) auto
  then have outs: "outs = [sign_answer k path (message_digest k e)]" using review_sends [OF _ out i(3)] o(2) by simp
  with p i o(1) have e: "p = Reviewing e path" "outs = [sign_answer k path (message_digest k e)]" "i = length (sent s)" by auto
  have r: "screen s = Page_review" "wf_email e" "shown s = email_pairs e" "path = signing_path (G_context s)"
    using s e(1) by (auto simp: phase_rel_def split: if_splits)
  have live: "\<not> exited s" using run o(1) e(2) by (auto simp: step_def)
  have "state_wf s" using s by (simp add: phase_rel_def review_inv_def)
  have "ev = User_choice True"
  proof (cases ev)
    case (User_choice c)
    then show ?thesis using reject_step [OF \<open>state_wf s\<close> r(1) live, of k] run i e(3) by (cases c) auto
  qed (use run o(1) e(2) r(1) g in \<open>auto simp: step_def sequential_def split: if_splits\<close>)
  then show ?thesis using r e o(1) by (auto simp: nth_append)
qed

lemma sent_grows:
  assumes "sdk_ok k" and "phase_rel k s p" and "sequential s ev" and "step k s ev = Some s'" and "i < length (sent s)"
  shows "sent s' ! i = sent s ! i"
  using refinement.simulates [OF assms(1-4)] assms(5) by (auto simp: nth_append)

lemma phase_start:
  assumes "app_start k (boot_state nvm) = Some s0"
  shows "phase_rel k s0 Idle" and "sent s0 = []"
  using app_start_ok [of k nvm] assms by (auto simp: phase_rel_def review_inv_def)

text \<open>The same for a whole run: the event, the state it found, and what was on the screen.\<close>

lemma signature_history:
  "guarded_run sequential (step k) s0 es = Some s \<Longrightarrow> sdk_ok k \<Longrightarrow> phase_rel k s0 Idle \<Longrightarrow> sent s0 = [] \<Longrightarrow>
   i < length (sent s) \<Longrightarrow> \<not> plain (sent s ! i) \<Longrightarrow>
   \<exists>e before after t. es = before @ User_choice True # after \<and>
     guarded_run sequential (step k) s0 before = Some t \<and> length (sent t) = i \<and>
     screen t = Page_review \<and> wf_email e \<and> shown t = email_pairs e \<and>
     sent s ! i = sign_answer k (signing_path (G_context t)) (message_digest k e)"
proof (induction es arbitrary: s rule: rev_induct)
  case Nil
  then show ?case by simp
next
  case (snoc ev es)
  from snoc.prems(1) obtain t where t: "guarded_run sequential (step k) s0 es = Some t"
    and ev: "sequential t ev" "step k t ev = Some s"
    by (auto simp: guarded_run_append split: option.splits if_splits)
  from refinement.run_simulates [OF snoc.prems(2,3) t] obtain p where p: "phase_rel k t p" by blast
  show ?case
  proof (cases "i < length (sent t)")
    case True
    then have eq: "sent s ! i = sent t ! i" using sent_grows [OF snoc.prems(2) p ev] by simp
    from snoc.IH [OF t snoc.prems(2-4) True] snoc.prems(6) eq obtain e before after u where
      "es = before @ User_choice True # after" "guarded_run sequential (step k) s0 before = Some u"
      "length (sent u) = i" "screen u = Page_review" "wf_email e" "shown u = email_pairs e"
      "sent t ! i = sign_answer k (signing_path (G_context u)) (message_digest k e)" by auto
    then show ?thesis using eq by (intro exI [of _ e] exI [of _ before] exI [of _ "after @ [ev]"] exI [of _ u]) simp
  next
    case False
    then have "length (sent t) \<le> i" by simp
    from signature_step [OF snoc.prems(2) p ev this snoc.prems(5,6)] t show ?thesis by auto
  qed
qed

end
