(* ===== verification/Serialize.thy ===== *)
theory Serialize
  imports Deserialize
begin

text \<open>
  The payload printer, \<^verbatim>\<open>transaction/serialize.c\<close>. \<open>emit\<close> is the idiom of the code,
  \<^verbatim>\<open>memmove(out + offset, src, n); offset += n\<close> (or \<^verbatim>\<open>out[offset++] = x\<close>), on the pair of the
  output object and the offset. The source fields are read through the pointers of the
  \<open>email_t\<close> in the memory object \<open>mem\<close>; a write past the end of the output object is \<open>None\<close>.

  Shown: the printer writes exactly the encoding of the message, fails with -1 exactly when it
  does not fit, never writes out of bounds, and is the inverse of the parser.
\<close>

section \<open>The code\<close>

definition emit :: "bytes \<times> nat \<Rightarrow> bytes \<Rightarrow> (bytes \<times> nat) option" where
  "emit st src =
     (case mem_write (fst st) (snd st) src of
        None \<Rightarrow> None
      | Some out \<Rightarrow> Some (out, snd st + length src))"

definition serialize_attachment ::
  "bytes \<Rightarrow> email_t \<Rightarrow> bytes \<times> nat \<Rightarrow> nat \<Rightarrow> (int \<times> bytes) option" where
  "serialize_attachment mem tx st out_len =
     (if tx_has_attachment tx \<noteq> 0 then
        if snd st + 1 + 1 + unat (tx_att_name_len tx) + 4 + ATT_HASH_LEN > out_len
        then Some (-1, fst st)
        else do {
          st \<leftarrow> emit st [1];
          st \<leftarrow> emit st [tx_att_name_len tx];
          name \<leftarrow> ptr_slice mem (tx_att_name tx) (unat (tx_att_name_len tx));
          st \<leftarrow> emit st name;
          st \<leftarrow> emit st [ucast (drop_bit 24 (tx_att_size tx))];
          st \<leftarrow> emit st [ucast (drop_bit 16 (tx_att_size tx))];
          st \<leftarrow> emit st [ucast (drop_bit 8 (tx_att_size tx))];
          st \<leftarrow> emit st [ucast (tx_att_size tx)];
          hash \<leftarrow> ptr_slice mem (tx_att_hash tx) ATT_HASH_LEN;
          st \<leftarrow> emit st hash;
          Some (int (snd st), fst st)
        }
      else if snd st + 1 > out_len then Some (-1, fst st)
      else do {
        st \<leftarrow> emit st [0];
        Some (int (snd st), fst st)
      })"

definition transaction_serialize ::
  "bytes \<Rightarrow> email_t \<Rightarrow> bytes \<Rightarrow> nat \<Rightarrow> (int \<times> bytes) option" where
  "transaction_serialize mem tx out out_len =
     (let need = CHALLENGE_LEN + 1 + unat (tx_from_len tx) + 1 + unat (tx_to_len tx) + 1
                 + unat (tx_subject_len tx) + 2 + unat (tx_body_len tx) in
      if need > out_len then Some (-1, out)
      else do {
        challenge \<leftarrow> ptr_slice mem (tx_challenge tx) CHALLENGE_LEN;
        st \<leftarrow> emit (out, 0) challenge;
        st \<leftarrow> emit st [tx_from_len tx];
        frm \<leftarrow> ptr_slice mem (tx_from tx) (unat (tx_from_len tx));
        st \<leftarrow> emit st frm;
        st \<leftarrow> emit st [tx_to_len tx];
        to \<leftarrow> ptr_slice mem (tx_to tx) (unat (tx_to_len tx));
        st \<leftarrow> emit st to;
        st \<leftarrow> emit st [tx_subject_len tx];
        subject \<leftarrow> ptr_slice mem (tx_subject tx) (unat (tx_subject_len tx));
        st \<leftarrow> emit st subject;
        st \<leftarrow> emit st [ucast (drop_bit 8 (tx_body_len tx))];
        st \<leftarrow> emit st [ucast (tx_body_len tx AND 0xff)];
        body \<leftarrow> ptr_slice mem (tx_body tx) (unat (tx_body_len tx));
        st \<leftarrow> emit st body;
        serialize_attachment mem tx st out_len
      })"

section \<open>What it writes\<close>

text \<open>The output while it is being written: the bytes so far, then the old contents.\<close>

definition written :: "bytes \<Rightarrow> bytes \<Rightarrow> bytes \<times> nat" where
  "written out pre = (pre @ drop (length pre) out, length pre)"

lemma emit_written:
  "length pre + length src \<le> length out \<Longrightarrow> emit (written out pre) src = Some (written out (pre @ src))"
  using mem_write_extend [of pre src out] by (simp add: emit_def written_def)

lemma written_Nil: "(out, 0) = written out []"
  by (simp add: written_def)

lemma ptr_in_slice: "ptr_in (length mem) p n \<Longrightarrow> ptr_slice mem p n = Some (deref mem p n)"
  by (auto simp: ptr_in_def ptr_slice_def mem_slice_def split: option.splits)

lemma ptr_in_length: "ptr_in (length mem) p n \<Longrightarrow> length (deref mem p n) = n"
  by (auto simp: ptr_in_def split: option.splits)

lemma serialize_attachment_ok:
  assumes "tx_has_attachment tx \<noteq> 0 \<longrightarrow> ptr_in (length mem) (tx_att_name tx) (unat (tx_att_name_len tx))
             \<and> ptr_in (length mem) (tx_att_hash tx) ATT_HASH_LEN"
    and "out_len \<le> length out"
    and "length pre + length (encode_attachment (e_attachment (email_view mem tx))) \<le> out_len"
  shows "serialize_attachment mem tx (written out pre) out_len =
           (let all = pre @ encode_attachment (e_attachment (email_view mem tx)) in
            Some (int (length all), all @ drop (length all) out))"
proof (cases "tx_has_attachment tx = 0")
  case True
  with assms emit_written [of pre "[0]" out] show ?thesis
    by (simp add: serialize_attachment_def email_view_def encode_attachment_def written_def)
next
  case False
  with assms(1) have n: "ptr_in (length mem) (tx_att_name tx) (unat (tx_att_name_len tx))"
    and h: "ptr_in (length mem) (tx_att_hash tx) 32" by simp_all
  let ?name = "deref mem (tx_att_name tx) (unat (tx_att_name_len tx))"
    and ?hash = "deref mem (tx_att_hash tx) 32"
  have enc: "encode_attachment (e_attachment (email_view mem tx)) =
      1 # tx_att_name_len tx # ?name @ be32_bytes (tx_att_size tx) @ ?hash"
    using False ptr_in_length [OF n]
    by (simp add: email_view_def encode_attachment_def encode_text_def)
  have fits: "length pre + 38 + length ?name \<le> out_len"
    using assms(3) ptr_in_length [OF h] unfolding enc by (simp add: be32_bytes_def)
  then have fits': "length pre + 38 + length ?name \<le> length out" using assms(2) by linarith
  have "\<not> snd (written out pre) + 1 + 1 + unat (tx_att_name_len tx) + 4 + 32 > out_len"
    using fits ptr_in_length [OF n] by (simp add: written_def)
  with False fits' ptr_in_length [OF n] ptr_in_length [OF h] show ?thesis
    unfolding enc
    by (simp add: serialize_attachment_def ptr_in_slice [OF n] ptr_in_slice [OF h] emit_written
        be32_bytes_def) (simp add: written_def)
qed

text \<open>The part of the payload before the attachment count.\<close>

definition head_bytes :: "bytes \<Rightarrow> email_t \<Rightarrow> bytes" where
  "head_bytes mem tx =
     deref mem (tx_challenge tx) 16
     @ tx_from_len tx # deref mem (tx_from tx) (unat (tx_from_len tx))
     @ tx_to_len tx # deref mem (tx_to tx) (unat (tx_to_len tx))
     @ tx_subject_len tx # deref mem (tx_subject tx) (unat (tx_subject_len tx))
     @ be16_bytes (tx_body_len tx) @ deref mem (tx_body tx) (unat (tx_body_len tx))"

lemma serialize_head:
  assumes tx: "tx_in (length mem) tx" and cap: "out_len \<le> length out"
  shows "encode_email (email_view mem tx) =
           head_bytes mem tx @ encode_attachment (e_attachment (email_view mem tx))"
    and "transaction_serialize mem tx out out_len =
           (if length (head_bytes mem tx) > out_len then Some (-1, out)
            else serialize_attachment mem tx (written out (head_bytes mem tx)) out_len)"
proof -
  from tx have p: "ptr_in (length mem) (tx_challenge tx) 16"
    "ptr_in (length mem) (tx_from tx) (unat (tx_from_len tx))"
    "ptr_in (length mem) (tx_to tx) (unat (tx_to_len tx))"
    "ptr_in (length mem) (tx_subject tx) (unat (tx_subject_len tx))"
    "ptr_in (length mem) (tx_body tx) (unat (tx_body_len tx))"
    by (simp_all add: tx_in_def)
  note slices = p [THEN ptr_in_slice] and lens = p [THEN ptr_in_length]
  show "encode_email (email_view mem tx) =
      head_bytes mem tx @ encode_attachment (e_attachment (email_view mem tx))"
    using lens by (simp add: encode_email_def email_view_def encode_text_def encode_body_def head_bytes_def)
  show "transaction_serialize mem tx out out_len =
      (if length (head_bytes mem tx) > out_len then Some (-1, out)
       else serialize_attachment mem tx (written out (head_bytes mem tx)) out_len)"
    using lens cap
    by (auto simp: transaction_serialize_def slices written_Nil emit_written be16_bytes_def head_bytes_def)
qed

lemma transaction_serialize_ok:
  assumes tx: "tx_in (length mem) tx" and cap: "out_len \<le> length out"
    and fits: "length (encode_email (email_view mem tx)) \<le> out_len"
  shows "transaction_serialize mem tx out out_len =
           (let p = encode_email (email_view mem tx) in
            Some (int (length p), p @ drop (length p) out))"
  using serialize_attachment_ok [of tx mem out_len out "head_bytes mem tx"] tx cap fits
  by (simp add: serialize_head [OF tx cap] tx_in_def)

lemma serialize_attachment_too_small:
  assumes "tx_has_attachment tx \<noteq> 0 \<longrightarrow> ptr_in (length mem) (tx_att_name tx) (unat (tx_att_name_len tx))
             \<and> ptr_in (length mem) (tx_att_hash tx) ATT_HASH_LEN"
    and "length pre + length (encode_attachment (e_attachment (email_view mem tx))) > out_len"
  shows "serialize_attachment mem tx (written out pre) out_len = Some (-1, fst (written out pre))"
  using assms ptr_in_length [of mem "tx_att_name tx" "unat (tx_att_name_len tx)"]
    ptr_in_length [of mem "tx_att_hash tx" 32]
  by (auto simp: serialize_attachment_def email_view_def length_encode_attachment written_def)

lemma transaction_serialize_too_small:
  assumes tx: "tx_in (length mem) tx" and cap: "out_len \<le> length out"
    and big: "length (encode_email (email_view mem tx)) > out_len"
  shows "\<exists>out'. transaction_serialize mem tx out out_len = Some (-1, out') \<and> length out' = length out"
  using serialize_attachment_too_small [of tx mem out_len "head_bytes mem tx" out] tx big cap
  by (auto simp: serialize_head [OF tx cap] tx_in_def written_def)

section \<open>Properties of the printer\<close>

text \<open>C25. Parsing a payload and printing the result gives back the payload, byte for byte, and the
  number of its bytes: host and device cannot disagree on what was signed.\<close>

theorem serialize_inverts_deserialize:
  assumes "buffer_ok B"
    and "transaction_deserialize B (payload_buffer bs) tx t = Some (PARSING_OK, b', tx')"
    and "length bs \<le> out_len" and "out_len \<le> length out"
  shows "transaction_serialize bs tx' out out_len = Some (int (length bs), bs @ drop (length bs) out)"
proof -
  have "bs = encode_email (email_view bs tx')" "tx_in (length bs) tx'"
    using deserialize_sound(3,4) [OF assms(1) _ assms(2)] by simp_all
  then show ?thesis
    using transaction_serialize_ok [of bs tx' out_len out] assms(3,4) by simp
qed

theorem serialize_inverts_deserialize_witness:
  "\<exists>b' tx'. transaction_deserialize ref_buffer_lib (payload_buffer (encode_email sample_attachment_email))
       zero_email False = Some (PARSING_OK, b', tx')
     \<and> transaction_serialize (encode_email sample_attachment_email) tx' (zeros 100) 100 =
       Some (86, encode_email sample_attachment_email @ zeros 14)"
proof -
  obtain b' tx' where "transaction_deserialize ref_buffer_lib
      (payload_buffer (encode_email sample_attachment_email)) zero_email False = Some (PARSING_OK, b', tx')"
    by (rule deserialize_sample)
  then show ?thesis
    using serialize_inverts_deserialize [of ref_buffer_lib "encode_email sample_attachment_email"
        zero_email False b' tx' 100 "zeros 100"] length_sample_attachment_email
    by (auto simp: zeros_def)
qed

text \<open>C26. Printing a well-formed message whose pointers are valid and parsing the bytes written
  accepts them and reads back the same message.\<close>

theorem deserialize_inverts_serialize:
  assumes "buffer_ok B" and "tx_in (length mem) tx" and "wf_email (email_view mem tx)"
    and "out_len \<le> length out" and "length out \<le> MAX_TX_LEN"
    and "transaction_serialize mem tx out out_len = Some (n, out')" and "n \<noteq> -1"
  shows "\<exists>b' tx'. transaction_deserialize B (payload_buffer (take (nat n) out')) tx0 t =
             Some (PARSING_OK, b', tx') \<and>
           email_view (take (nat n) out') tx' = email_view mem tx"
proof -
  let ?p = "encode_email (email_view mem tx)"
  have fits: "length ?p \<le> out_len"
    using transaction_serialize_too_small [OF assms(2,4)] assms(6,7) by (cases "length ?p > out_len") auto
  have "n = int (length ?p)" "out' = ?p @ drop (length ?p) out"
    using transaction_serialize_ok [OF assms(2,4) fits] assms(6) by (simp_all add: Let_def)
  then have out: "take (nat n) out' = ?p" by simp
  have "length ?p \<le> MAX_TX_LEN" using fits assms(4,5) by linarith
  then show ?thesis
    using deserialize_complete [OF assms(1), of "payload_buffer ?p" "email_view mem tx" tx0 t] assms(3)
    unfolding out by auto
qed

theorem deserialize_inverts_serialize_witness:
  "\<exists>tx b' tx'. tx_in 86 tx \<and> email_view (encode_email sample_attachment_email) tx = sample_attachment_email
     \<and> transaction_deserialize ref_buffer_lib
         (payload_buffer (take 86 (encode_email sample_attachment_email @ zeros 14))) zero_email False =
       Some (PARSING_OK, b', tx')
     \<and> email_view (take 86 (encode_email sample_attachment_email @ zeros 14)) tx' = sample_attachment_email"
proof -
  let ?mem = "encode_email sample_attachment_email"
  obtain b tx where tx: "transaction_deserialize ref_buffer_lib (payload_buffer ?mem) zero_email False
      = Some (PARSING_OK, b, tx)" and view: "email_view ?mem tx = sample_attachment_email"
    by (rule deserialize_sample)
  have txin: "tx_in (length ?mem) tx" using deserialize_sound(4) [OF _ _ tx] by simp
  have ser: "transaction_serialize ?mem tx (zeros 100) 100 = Some (86, ?mem @ zeros 14)"
    using transaction_serialize_ok [OF txin, of 100 "zeros 100"] view length_sample_attachment_email
    by (simp add: zeros_def)
  show ?thesis
    using deserialize_inverts_serialize [OF ref_buffer_ok txin, of 100 "zeros 100" 86 "?mem @ zeros 14"
        zero_email False] ser view txin wf_sample_attachment_email length_sample_attachment_email
    by auto
qed

text \<open>The printer returns -1 exactly when the message does not fit the given capacity; in both
  cases it stays inside the output object.\<close>

theorem serialize_fails_iff_too_small:
  assumes "tx_in (length mem) tx" and "out_len \<le> length out"
  shows "\<exists>n out'. transaction_serialize mem tx out out_len = Some (n, out') \<and>
           length out' = length out \<and>
           (n = -1 \<longleftrightarrow> out_len < length (encode_email (email_view mem tx)))"
proof (cases "out_len < length (encode_email (email_view mem tx))")
  case True
  then show ?thesis using transaction_serialize_too_small [OF assms] by auto
next
  case False
  then show ?thesis using transaction_serialize_ok [OF assms] assms(2) by (auto simp: Let_def)
qed

theorem serialize_fails_iff_too_small_witness:
  "\<exists>tx n out'. tx_in 86 tx \<and>
     transaction_serialize (encode_email sample_attachment_email) tx (zeros 60) 60 = Some (n, out') \<and> n = -1"
proof -
  obtain b tx where tx: "transaction_deserialize ref_buffer_lib
      (payload_buffer (encode_email sample_attachment_email)) zero_email False = Some (PARSING_OK, b, tx)"
    and view: "email_view (encode_email sample_attachment_email) tx = sample_attachment_email"
    by (rule deserialize_sample)
  have txin: "tx_in (length (encode_email sample_attachment_email)) tx"
    using deserialize_sound(4) [OF _ _ tx] by simp
  show ?thesis
    using serialize_fails_iff_too_small [OF txin, of 60 "zeros 60"] txin view
      length_sample_attachment_email by auto
qed

end
