(* ===== verification/Tx_Utils.thy ===== *)
theory Tx_Utils
  imports App_Types
begin

text \<open>
  The memo helpers of \<^verbatim>\<open>transaction/utils.c\<close>. A pointer argument is the object it points to, or
  \<open>None\<close> for \<open>NULL\<close>, on which \<open>LEDGER_ASSERT\<close> stops the application (result \<open>None\<close>). Lengths
  are \<open>uint64_t\<close>, so the \<open>memo_len + 1\<close> of the capacity check is a 64-bit sum; the check before
  it is what keeps it from wrapping.
\<close>

section \<open>The code\<close>

function check_encoding_loop :: "bytes \<Rightarrow> nat \<Rightarrow> nat \<Rightarrow> bool option" where
  "check_encoding_loop memo i n =
     (if i < n then
        (case mem_read memo i of
           None \<Rightarrow> None
         | Some c \<Rightarrow> if c > 0x7F then Some False else check_encoding_loop memo (Suc i) n)
      else Some True)"
  by pat_completeness auto
termination
  by (relation "measure (\<lambda>(memo, i, n). n - i)") auto

declare check_encoding_loop.simps [simp del]

definition transaction_utils_check_encoding :: "bytes option \<Rightarrow> u64 \<Rightarrow> bool option" where
  "transaction_utils_check_encoding memo memo_len =
     (case memo of None \<Rightarrow> None | Some m \<Rightarrow> check_encoding_loop m 0 (unat memo_len))"

definition transaction_utils_format_memo ::
  "bytes option \<Rightarrow> u64 \<Rightarrow> bytes option \<Rightarrow> u64 \<Rightarrow> (bool \<times> bytes) option" where
  "transaction_utils_format_memo memo memo_len dst dst_len = do {
     m \<leftarrow> memo;
     d \<leftarrow> dst;
     if memo_len > of_nat MAX_MEMO_LEN \<or> dst_len < memo_len + 1 then Some (False, d)
     else do {
       src \<leftarrow> mem_slice m 0 (unat memo_len);
       d \<leftarrow> mem_write d 0 src;
       d \<leftarrow> mem_write d (unat memo_len) [0];
       Some (True, d)
     }
   }"

section \<open>Lemmas\<close>

lemma check_encoding_loop_spec:
  "n \<le> length memo \<Longrightarrow> i \<le> n \<Longrightarrow>
   check_encoding_loop memo i n = Some (list_all (\<lambda>c. c \<le> 0x7F) (slice memo i (n - i)))"
proof (induction memo i n rule: check_encoding_loop.induct)
  case (1 memo i n)
  show ?case
  proof (cases "i < n")
    case False
    with "1.prems" show ?thesis by (subst check_encoding_loop.simps) (simp add: slice_def)
  next
    case True
    then have c: "mem_read memo i = Some (memo ! i)" using "1.prems" by (simp add: mem_read_def)
    have sl: "slice memo i (n - i) = memo ! i # slice memo (Suc i) (n - Suc i)"
      using slice_Suc [of i memo "n - Suc i"] True "1.prems" by (simp add: Suc_diff_Suc)
    show ?thesis
      using True "1.prems" "1.IH" [OF True c]
      by (cases "memo ! i \<le> 0x7F")
         (simp_all add: check_encoding_loop.simps [of memo i] c sl not_le [symmetric])
  qed
qed

lemma memo_len_plus_one: "n \<le> of_nat MAX_MEMO_LEN \<Longrightarrow> unat (n + 1 :: u64) = unat n + 1"
proof -
  assume "n \<le> of_nat MAX_MEMO_LEN"
  then have "unat n \<le> 465" by (simp add: word_le_nat_alt)
  then show ?thesis by (simp add: unat_word_ariths)
qed

section \<open>Properties\<close>

text \<open>The ASCII check reads exactly the memo and accepts it exactly when no byte has its top bit
  set.\<close>

theorem check_encoding_is_ascii:
  assumes "unat memo_len \<le> length m"
  shows "transaction_utils_check_encoding (Some m) memo_len =
           Some (\<forall>c \<in> set (take (unat memo_len) m). c \<le> 0x7F)"
  using check_encoding_loop_spec [OF assms, of 0]
  by (simp add: transaction_utils_check_encoding_def slice_def list_all_iff)

theorem check_encoding_is_ascii_witness:
  "transaction_utils_check_encoding (Some [0x32, 0xc3, 0x97, 0x32, 0x3d, 0x34]) 6 = Some False"
  using check_encoding_is_ascii [of 6 "[0x32, 0xc3, 0x97, 0x32, 0x3d, 0x34]"] by simp

text \<open>Formatting a memo: for every pair of 64-bit lengths the call stays inside both objects; it
  fails, leaving the destination alone, exactly when the memo is longer than the bound or the
  destination cannot hold it with its terminator (the 64-bit sum never wraps); otherwise the
  destination holds the memo and a NUL, and keeps its other bytes.\<close>

theorem format_memo_spec:
  assumes "unat memo_len \<le> length m" and "unat dst_len \<le> length d"
  shows "transaction_utils_format_memo (Some m) memo_len (Some d) dst_len =
           (if unat memo_len > MAX_MEMO_LEN \<or> unat dst_len < unat memo_len + 1
            then Some (False, d)
            else Some (True, take (unat memo_len) m @ [0] @ drop (unat memo_len + 1) d))"
proof (cases "memo_len > of_nat MAX_MEMO_LEN")
  case True
  then show ?thesis by (simp add: transaction_utils_format_memo_def word_less_nat_alt)
next
  case False
  then have n: "unat (memo_len + 1) = unat memo_len + 1" "unat memo_len \<le> 465"
    using memo_len_plus_one [of memo_len] by (simp_all add: not_less word_le_nat_alt)
  show ?thesis
    using False n assms
    by (auto simp: transaction_utils_format_memo_def word_less_nat_alt mem_slice_def mem_write_def
        slice_def min_def)
qed

theorem format_memo_spec_witness:
  "transaction_utils_format_memo (Some (ascii ''Hello!'')) 6 (Some (zeros 8)) 8 =
     Some (True, ascii ''Hello!'' @ [0, 0])"
  using format_memo_spec [of 6 "ascii ''Hello!''" 8 "zeros 8"] by (simp add: ascii_def zeros_def)

end
