(* ===== verification/C_Strings.thy ===== *)
theory C_Strings
  imports Prelude
begin

text \<open>
  The functions of \<^verbatim>\<open>string.h\<close> the exchange code uses, on a string given by the memory from its
  first character on. A scan that runs past the end of that memory is \<open>None\<close>. Comparisons are used
  for equality only, so they return whether the strings are equal.
\<close>

section \<open>The functions\<close>

fun strlen :: "bytes \<Rightarrow> nat option" where
  "strlen [] = None"
| "strlen (c # cs) = (if c = 0 then Some 0 else map_option Suc (strlen cs))"

fun strcmp_eq :: "bytes \<Rightarrow> bytes \<Rightarrow> bool option" where
  "strcmp_eq (a # as) (b # bs) =
     (if a \<noteq> b then Some False else if a = 0 then Some True else strcmp_eq as bs)"
| "strcmp_eq _ _ = None"

fun strncmp_eq :: "nat \<Rightarrow> bytes \<Rightarrow> bytes \<Rightarrow> bool option" where
  "strncmp_eq 0 as bs = Some True"
| "strncmp_eq (Suc n) (a # as) (b # bs) =
     (if a \<noteq> b then Some False else if a = 0 then Some True else strncmp_eq n as bs)"
| "strncmp_eq (Suc n) _ _ = None"

text \<open>Memory that holds a string.\<close>

definition terminated :: "bytes \<Rightarrow> bool" where
  "terminated xs \<longleftrightarrow> 0 \<in> set xs"

section \<open>Lemmas\<close>

lemma cstring_simps [simp]:
  "cstring [] = []" "cstring (c # cs) = (if c = 0 then [] else c # cstring cs)"
  by (simp_all add: cstring_def)

lemma terminated_simps [simp]:
  "\<not> terminated []" "terminated (c # cs) \<longleftrightarrow> c = 0 \<or> terminated cs"
  "terminated (xs @ ys) \<longleftrightarrow> terminated xs \<or> terminated ys"
  by (auto simp: terminated_def)

lemma terminated_zeros [simp]: "terminated (zeros n) \<longleftrightarrow> 0 < n"
  by (simp add: terminated_def zeros_def)

lemma cstring_terminated: "terminated xs \<Longrightarrow> cstring (xs @ ys) = cstring xs"
  by (induction xs) auto

lemma cstring_not_terminated: "\<not> terminated xs \<Longrightarrow> cstring xs = xs"
  by (induction xs) auto

lemma length_cstring_terminated: "terminated xs \<Longrightarrow> length (cstring xs) < length xs"
  by (induction xs) auto

lemma strlen_terminated: "strlen xs = (if terminated xs then Some (length (cstring xs)) else None)"
  by (induction xs) auto

text \<open>The comparison of two strings in memory reads no further than the shorter of them.\<close>

lemma strcmp_eq_terminated:
  "terminated xs \<Longrightarrow> terminated ys \<Longrightarrow> strcmp_eq xs ys = Some (cstring xs = cstring ys)"
  by (induction xs ys rule: strcmp_eq.induct) auto

lemma strncmp_eq_terminated:
  "terminated xs \<Longrightarrow> terminated ys \<Longrightarrow>
   strncmp_eq n xs ys = Some (take n (cstring xs) = take n (cstring ys))"
  by (induction n xs ys rule: strncmp_eq.induct) auto

text \<open>A string read back from its memory.\<close>

lemma take_cstring: "n = length (cstring xs) \<Longrightarrow> take n xs = cstring xs"
  by (induction xs arbitrary: n) auto

lemma nth_cstring: "i < length (cstring xs) \<Longrightarrow> xs ! i = cstring xs ! i"
  using nth_take [of i "length (cstring xs)" xs] by (simp add: take_cstring)

end
