(* ===== verification/Swap_Sdk.thy ===== *)
theory Swap_Sdk
  imports C_Strings App_State
begin

text \<open>
  The exchange library of the SDK as the application sees it (\<^verbatim>\<open>swap.h\<close>,
  \<^verbatim>\<open>swap_error_code_helpers.h\<close>, \<open>format_fpu64\<close> of \<^verbatim>\<open>format.h\<close>), for the build with \<^verbatim>\<open>HAVE_SWAP\<close>. As in
  \<open>Ledger_Sdk\<close> its functions are parameters, and \<open>swap_ok\<close> is what is relied on: a configuration
  that is accepted gives a terminated ticker inside the array; an amount is a big-endian number
  of at most eight bytes; \<open>format_fpu64\<close> stays inside its buffer, and writes the decimal text when
  that fits with room to spare (\<open>fpu_fits\<close>). Nothing is assumed about its verdict, or about what it
  leaves in the buffer, when the text does not fit.

  \<open>send_swap_error_simple\<close> and \<open>os_sched_exit\<close> do not return: the application ends with the
  \<open>swap_end\<close> they stand for. The response that \<open>send_swap_error_simple\<close> sends, with a status and two
  error codes, is that value; the responses in \<open>sent\<close> are those of the application's own calls.
\<close>

section \<open>The interface\<close>

text \<open>A NULL pointer is \<open>None\<close>; otherwise the memory from the pointer on. The members of the
  SDK's parameter structures that the application reads or writes.\<close>

record create_transaction_parameters_t =
  cp_coin_configuration :: "bytes option"
  cp_coin_configuration_length :: u8
  cp_amount :: "bytes option"
  cp_amount_length :: u8
  cp_fee_amount :: "bytes option"
  cp_fee_amount_length :: u8
  cp_destination_address :: "bytes option"

record check_address_parameters_t =
  ca_address_parameters :: "bytes option"
  ca_address_parameters_length :: u8
  ca_address_to_check :: "bytes option"
  ca_result :: int

record get_printable_amount_parameters_t =
  gp_coin_configuration :: "bytes option"
  gp_coin_configuration_length :: u8
  gp_amount :: "bytes option"
  gp_amount_length :: u8
  gp_is_fee :: bool
  gp_printable_amount :: bytes

datatype swap_error_common_code_t =
    SWAP_EC_ERROR_GENERIC
  | SWAP_EC_ERROR_WRONG_AMOUNT
  | SWAP_EC_ERROR_WRONG_FEES
  | SWAP_EC_ERROR_WRONG_METHOD
  | SWAP_EC_ERROR_WRONG_DESTINATION

text \<open>The application's own error codes, \<^verbatim>\<open>sw.h\<close>.\<close>

datatype swap_error_application_specific_code_t =
    SWAP_ERROR_CODE
  | SWAP_ERROR_WRONG_TOKEN_INFO

datatype swap_end =
    Swap_error u16 swap_error_common_code_t swap_error_application_specific_code_t
  | Sched_exit int

text \<open>\<open>swap_parse_config\<close> returns the characters written to the ticker array, and the decimals.
  \<open>format_fpu64\<close> returns its verdict and the characters written.\<close>

record swap_lib =
  swap_parse_config :: "bytes \<Rightarrow> nat \<Rightarrow> nat \<Rightarrow> (bytes \<times> u8) option"
  swap_str_to_u64 :: "bytes option \<Rightarrow> nat \<Rightarrow> u64 option"
  format_fpu64 :: "nat \<Rightarrow> u64 \<Rightarrow> u8 \<Rightarrow> bool \<times> bytes"
  MAX_PRINTABLE_AMOUNT_SIZE :: nat

definition be_val :: "bytes \<Rightarrow> nat" where
  "be_val xs = foldl (\<lambda>a b. a * 256 + unat b) 0 xs"

text \<open>A number with \<open>d\<close> decimals: at least one digit before the point.\<close>

definition fpu_text :: "nat \<Rightarrow> nat \<Rightarrow> bytes" where
  "fpu_text v d =
     (let ds = dec_digits v; p = replicate (Suc d - length ds) (digit_char 0) @ ds; n = length p - d
      in take n p @ of_nat 46 # drop n p)"

text \<open>The text and a terminator fit, and where the number has digits before the point there is room
  for all decimals once more: the function asks for that much.\<close>

definition fpu_fits :: "nat \<Rightarrow> nat \<Rightarrow> nat \<Rightarrow> bool" where
  "fpu_fits n v d \<longleftrightarrow> length (fpu_text v d) < n \<and> (d < length (dec_digits v) \<longrightarrow> length (dec_digits v) + 1 + d < n)"

definition swap_ok :: "swap_lib \<Rightarrow> bool" where
  "swap_ok W \<longleftrightarrow>
     (\<forall>c n m t d. swap_parse_config W c n m = Some (t, d) \<longrightarrow> length t \<le> m \<and> terminated t) \<and>
     (\<forall>xs n. n \<le> length xs \<longrightarrow>
        swap_str_to_u64 W (Some xs) n = (if n \<le> 8 then Some (of_nat (be_val (take n xs))) else None)) \<and>
     (\<forall>n v d. 1 \<le> d \<and> fpu_fits n (unat v) (unat d) \<longrightarrow>
        (\<exists>m. format_fpu64 W n v d = (True, fpu_text (unat v) (unat d) @ zeros m))) \<and>
     (\<forall>n v d. length (snd (format_fpu64 W n v d)) \<le> n)"

section \<open>What the contract gives\<close>

lemma swap_parse_config_ok:
  "swap_ok W \<Longrightarrow> swap_parse_config W c n m = Some (t, d) \<Longrightarrow> length t \<le> m \<and> terminated t"
  unfolding swap_ok_def by blast

lemma swap_str_to_u64_ok:
  "swap_ok W \<Longrightarrow> n \<le> length xs \<Longrightarrow>
   swap_str_to_u64 W (Some xs) n = (if n \<le> 8 then Some (of_nat (be_val (take n xs))) else None)"
  unfolding swap_ok_def by blast

lemma format_fpu64_ok:
  assumes "swap_ok W" and "1 \<le> d" and "fpu_fits n (unat v) (unat d)"
  obtains m where "format_fpu64 W n v d = (True, fpu_text (unat v) (unat d) @ zeros m)"
  using assms unfolding swap_ok_def by blast

lemma format_fpu64_fits: "swap_ok W \<Longrightarrow> length (snd (format_fpu64 W n v d)) \<le> n"
  unfolding swap_ok_def by blast

text \<open>Amounts of eight bytes fit 64 bits, so nothing is lost in the conversion.\<close>

lemma be_val_append: "be_val (xs @ [b]) = be_val xs * 256 + unat b"
  by (simp add: be_val_def)

lemma be_val_bound: "be_val xs < 256 ^ length xs"
proof (induction xs rule: rev_induct)
  case Nil
  then show ?case by (simp add: be_val_def)
next
  case (snoc b xs)
  then show ?case using base256_bound [of "be_val xs" "256 ^ length xs" "unat b"]
    by (simp add: be_val_append mult.commute)
qed

lemma unat_be_val:
  assumes "length xs \<le> 8"
  shows "unat (of_nat (be_val xs) :: u64) = be_val xs"
proof -
  have "be_val xs < 256 ^ length xs" by (rule be_val_bound)
  also have "\<dots> \<le> (256 :: nat) ^ 8" using assms by (intro power_increasing) simp_all
  finally show ?thesis by (simp add: unsigned_of_nat take_bit_eq_mod)
qed

section \<open>An instance for evaluation\<close>

text \<open>A configuration is the length of the ticker, the ticker and the decimals.\<close>

definition ref_swap_lib :: swap_lib where
  "ref_swap_lib =
     \<lparr>swap_parse_config = (\<lambda>c n m.
        case c of [] \<Rightarrow> None
        | l # r \<Rightarrow>
            if unat l < m \<and> unat l < length r
            then Some (take (unat l) r @ [0], r ! unat l) else None),
      swap_str_to_u64 = (\<lambda>p n. case p of None \<Rightarrow> None
        | Some xs \<Rightarrow> if n \<le> 8 then Some (of_nat (be_val (take n xs))) else None),
      format_fpu64 = (\<lambda>n v d.
        let t = fpu_text (unat v) (unat d)
        in if length t < n then (True, t @ [0]) else (False, take n t)),
      MAX_PRINTABLE_AMOUNT_SIZE = 50\<rparr>"

lemma ref_swap_ok [simp]: "swap_ok ref_swap_lib"
proof -
  have "t @ [0] = t @ zeros 1" for t :: bytes by (simp add: zeros_def)
  then have "fpu_fits n (unat v) (unat d) \<Longrightarrow>
      \<exists>m. format_fpu64 ref_swap_lib n v d = (True, fpu_text (unat v) (unat d) @ zeros m)" for n v d
    by (auto simp: ref_swap_lib_def fpu_fits_def Let_def)
  then show ?thesis by (auto simp: swap_ok_def ref_swap_lib_def Let_def split: list.splits if_splits)
qed

end
