(* ===== verification/Swap_Validation.thy ===== *)
theory Swap_Validation
  imports Swap_Sdk
begin

text \<open>
  What the user agreed to in the exchange application, and the check of the transaction against
  it: \<^verbatim>\<open>swap/handle_swap_sign_transaction.c\<close>. The code is compiled with \<^verbatim>\<open>HAVE_SWAP\<close> only.

  \<open>swap_state\<close> is the state of the application with the globals of the exchange. \<open>keeps_promise\<close> is
  the specification: what a transaction has to be, given the validated parameters.
\<close>

section \<open>The code\<close>

record swap_validated_t =
  sv_initialized :: bool
  sv_amount :: u64
  sv_fee :: u64
  sv_recipient :: bytes
  sv_decimals :: u8
  sv_ticker :: bytes

definition zero_swap_validated :: swap_validated_t where
  "zero_swap_validated =
     \<lparr>sv_initialized = False, sv_amount = 0, sv_fee = 0, sv_recipient = zeros (ADDRESS_LEN * 2 + 1),
      sv_decimals = 0, sv_ticker = zeros MAX_TICKER_SIZE\<rparr>"

record swap_state =
  sw_app :: app_state
  G_swap_validated :: swap_validated_t
  G_swap_response_ready :: bool
  G_called_from_swap :: bool

abbreviation (input) "BOL \<equiv> ascii ''BOL'' @ [0]"

definition is_token_swap :: "swap_validated_t \<Rightarrow> bool option" where
  "is_token_swap V = do {
     same \<leftarrow> strcmp_eq (sv_ticker V) BOL;
     Some (\<not> same \<or> sv_decimals V \<noteq> EXPONENT_SMALLEST_UNIT)
   }"

text \<open>The loop that stores the recipient in upper case, from character \<open>i\<close>.\<close>

definition upper_char :: "u8 \<Rightarrow> u8" where
  "upper_char c = (if c \<ge> 97 \<and> c \<le> 122 then c - 97 + 65 else c)"

function recipient_loop :: "bytes \<Rightarrow> bytes \<Rightarrow> nat \<Rightarrow> bytes option" where
  "recipient_loop destination_address recipient i =
     (if i < ADDRESS_LEN * 2
      then do {
        c \<leftarrow> mem_read destination_address i;
        recipient \<leftarrow> mem_write recipient i [upper_char c];
        recipient_loop destination_address recipient (Suc i)
      }
      else Some recipient)"
  by pat_completeness auto
termination
  by (relation "measure (\<lambda>(_, _, i). ADDRESS_LEN * 2 - i)") auto

declare recipient_loop.simps [simp del]

text \<open>\<open>os_explicit_zero_BSS_segment\<close>: every static object of the application is zero again; the
  settings are not in that segment, and what was sent and shown has happened.\<close>

definition zero_bss :: "swap_state \<Rightarrow> swap_state" where
  "zero_bss w =
     \<lparr>sw_app = (boot_state (N_storage (sw_app w)))
        \<lparr>screen := screen (sw_app w), sent := sent (sw_app w), exited := exited (sw_app w)\<rparr>,
      G_swap_validated = zero_swap_validated, G_swap_response_ready = False, G_called_from_swap = False\<rparr>"

text \<open>The part that sets ticker and decimals; the inner \<open>None\<close> is a configuration that does not
  parse.\<close>

definition copy_currency ::
  "swap_lib \<Rightarrow> create_transaction_parameters_t \<Rightarrow> bytes \<Rightarrow> (bytes \<times> u8) option option" where
  "copy_currency W params ticker =
     (case cp_coin_configuration params of
        None \<Rightarrow> do {
          ticker \<leftarrow> mem_write ticker 0 BOL;
          Some (Some (ticker, EXPONENT_SMALLEST_UNIT))
        }
      | Some c \<Rightarrow>
          (case swap_parse_config W c (unat (cp_coin_configuration_length params)) MAX_TICKER_SIZE of
             None \<Rightarrow> Some None
           | Some (t, decimals) \<Rightarrow> do {
               ticker \<leftarrow> mem_write ticker 0 t;
               Some (Some (ticker, decimals))
             }))"

definition swap_copy_transaction_parameters ::
  "swap_lib \<Rightarrow> create_transaction_parameters_t \<Rightarrow> swap_state \<Rightarrow> (bool \<times> swap_state) option" where
  "swap_copy_transaction_parameters W params w =
     (case cp_destination_address params of
        None \<Rightarrow> Some (False, w)
      | Some destination_address \<Rightarrow> do {
          n \<leftarrow> strlen destination_address;
          if n \<noteq> ADDRESS_LEN * 2 then Some (False, w)
          else if cp_amount params = None then Some (False, w)
          else do {
            let V = zero_swap_validated;
            recipient \<leftarrow> recipient_loop destination_address (sv_recipient V) 0;
            let V = V\<lparr>sv_recipient := recipient\<rparr>;
            config \<leftarrow> copy_currency W params (sv_ticker V);
            (case config of
               None \<Rightarrow> Some (False, w)
             | Some (ticker, decimals) \<Rightarrow>
                 (case swap_str_to_u64 W (cp_amount params) (unat (cp_amount_length params)) of
                    None \<Rightarrow> Some (False, w)
                  | Some amount \<Rightarrow>
                      (case swap_str_to_u64 W (cp_fee_amount params) (unat (cp_fee_amount_length params)) of
                         None \<Rightarrow> Some (False, w)
                       | Some fee \<Rightarrow>
                           let V = V\<lparr>sv_ticker := ticker, sv_decimals := decimals, sv_amount := amount,
                                    sv_fee := fee, sv_initialized := True\<rparr>;
                               w = zero_bss w
                           in Some (True, w\<lparr>G_swap_validated := V\<rparr>))))
          }
        })"

text \<open>The characters a \<open>token_info_t\<close> points to; \<open>None\<close> for the null pointer.\<close>

definition ticker_memory :: "dynamic_token_info_t \<Rightarrow> ticker_ptr \<Rightarrow> bytes option" where
  "ticker_memory D p = (case p of
       Ticker_null \<Rightarrow> None
     | Ticker_hardcoded i \<Rightarrow> map_option te_ticker (mem_read TOKENS i)
     | Ticker_dynamic \<Rightarrow> Some (dt_ticker D))"

text \<open>The check of the token: an error, or the check goes on.\<close>

definition check_swap_token :: "swap_state \<Rightarrow> token_info_t \<Rightarrow> swap_end option option" where
  "check_swap_token w tinfo = do {
     let V = G_swap_validated w;
     token_swap \<leftarrow> is_token_swap V;
     if is_token_tx (tx_info (G_context (sw_app w)))
     then
       if token_swap
       then do {
         ticker \<leftarrow> ticker_memory (g_dynamic_token_info (sw_app w)) (ti_ticker tinfo);
         same \<leftarrow> strcmp_eq (sv_ticker V) ticker;
         Some (if \<not> same \<or> sv_decimals V \<noteq> ti_decimals tinfo
               then Some (Swap_error SW_SWAP_FAIL SWAP_EC_ERROR_WRONG_AMOUNT SWAP_ERROR_WRONG_TOKEN_INFO)
               else None)
       }
       else Some (Some (Swap_error SW_SWAP_FAIL SWAP_EC_ERROR_WRONG_METHOD SWAP_ERROR_CODE))
     else if token_swap
     then Some (Some (Swap_error SW_SWAP_FAIL SWAP_EC_ERROR_WRONG_METHOD SWAP_ERROR_CODE))
     else Some None
   }"

text \<open>\<open>Inl\<close> when the application ends in an error sent to the exchange application.\<close>

definition swap_check_validity ::
  "sdk \<Rightarrow> u64 \<Rightarrow> u64 \<Rightarrow> bytes option \<Rightarrow> token_info_t \<Rightarrow> swap_state \<Rightarrow> (swap_end + bool) option" where
  "swap_check_validity k amount fee destination tinfo w =
     (let V = G_swap_validated w in
      if \<not> sv_initialized V
      then Some (Inl (Swap_error SW_SWAP_FAIL SWAP_EC_ERROR_GENERIC SWAP_ERROR_CODE))
      else do {
        token_error \<leftarrow> check_swap_token w tinfo;
        case token_error of
          Some e \<Rightarrow> Some (Inl e)
        | None \<Rightarrow>
            if sv_amount V \<noteq> amount
            then Some (Inl (Swap_error SW_SWAP_FAIL SWAP_EC_ERROR_WRONG_AMOUNT SWAP_ERROR_CODE))
            else if sv_fee V \<noteq> fee
            then Some (Inl (Swap_error SW_SWAP_FAIL SWAP_EC_ERROR_WRONG_FEES SWAP_ERROR_CODE))
            else do {
              memory \<leftarrow> destination;
              address \<leftarrow> mem_slice memory 0 ADDRESS_LEN;
              let (r, out) = format_hex (sdk_format k) address (ADDRESS_LEN * 2 + 1);
              to \<leftarrow> mem_write (zeros (ADDRESS_LEN * 2 + 1)) 0 out;
              same \<leftarrow> strcmp_eq (sv_recipient V) to;
              Some (if \<not> same
                    then Inl (Swap_error SW_SWAP_FAIL SWAP_EC_ERROR_WRONG_DESTINATION SWAP_ERROR_CODE)
                    else Inr True)
            }
      })"

section \<open>The specification\<close>

text \<open>The shape of the validated parameters: two arrays of their size, each with a string.\<close>

definition validated_wf :: "swap_validated_t \<Rightarrow> bool" where
  "validated_wf V \<longleftrightarrow>
     length (sv_recipient V) = ADDRESS_LEN * 2 + 1 \<and> terminated (sv_recipient V) \<and>
     length (sv_ticker V) = MAX_TICKER_SIZE \<and> terminated (sv_ticker V)"

text \<open>The currency of the exchange: ticker and decimals, without a configuration the native one.\<close>

definition currency :: "swap_lib \<Rightarrow> create_transaction_parameters_t \<Rightarrow> (bytes \<times> u8) option" where
  "currency W params = (case cp_coin_configuration params of
       None \<Rightarrow> Some (ascii ''BOL'', EXPONENT_SMALLEST_UNIT)
     | Some c \<Rightarrow> map_option (\<lambda>(t, d). (cstring t, d))
         (swap_parse_config W c (unat (cp_coin_configuration_length params)) MAX_TICKER_SIZE))"

text \<open>The memory the exchange application passes: strings are terminated, numbers have their
  length.\<close>

definition params_wf :: "create_transaction_parameters_t \<Rightarrow> bool" where
  "params_wf params \<longleftrightarrow>
     (\<forall>d. cp_destination_address params = Some d \<longrightarrow> terminated d) \<and>
     (\<forall>a. cp_amount params = Some a \<longrightarrow> unat (cp_amount_length params) \<le> length a) \<and>
     (\<exists>f. cp_fee_amount params = Some f \<and> unat (cp_fee_amount_length params) \<le> length f)"

definition number_at :: "bytes option \<Rightarrow> u8 \<Rightarrow> nat" where
  "number_at p n = (case p of None \<Rightarrow> 0 | Some xs \<Rightarrow> be_val (take (unat n) xs))"

definition acceptable :: "swap_lib \<Rightarrow> create_transaction_parameters_t \<Rightarrow> bool" where
  "acceptable W params \<longleftrightarrow>
     (\<exists>d. cp_destination_address params = Some d \<and> length (cstring d) = ADDRESS_LEN * 2) \<and>
     cp_amount params \<noteq> None \<and> unat (cp_amount_length params) \<le> 8 \<and>
     unat (cp_fee_amount_length params) \<le> 8 \<and> currency W params \<noteq> None"

text \<open>The validated parameters are the ones the exchange application passed.\<close>

definition records :: "swap_lib \<Rightarrow> create_transaction_parameters_t \<Rightarrow> swap_validated_t \<Rightarrow> bool" where
  "records W params V \<longleftrightarrow>
     sv_initialized V \<and> validated_wf V \<and>
     unat (sv_amount V) = number_at (cp_amount params) (cp_amount_length params) \<and>
     unat (sv_fee V) = number_at (cp_fee_amount params) (cp_fee_amount_length params) \<and>
     currency W params = Some (cstring (sv_ticker V), sv_decimals V) \<and>
     (\<exists>d. cp_destination_address params = Some d \<and>
          cstring (sv_recipient V) = map upper_char (cstring d))"

definition native :: "swap_validated_t \<Rightarrow> bool" where
  "native V \<longleftrightarrow> cstring (sv_ticker V) = ascii ''BOL'' \<and> sv_decimals V = EXPONENT_SMALLEST_UNIT"

definition token_matches :: "swap_state \<Rightarrow> token_info_t \<Rightarrow> bool" where
  "token_matches w tinfo \<longleftrightarrow>
     cstring (sv_ticker (G_swap_validated w)) =
       ticker_text (g_dynamic_token_info (sw_app w)) (ti_ticker tinfo) \<and>
     sv_decimals (G_swap_validated w) = ti_decimals tinfo"

text \<open>A pointer that a lookup of the token databases returns.\<close>

definition ticker_valid :: "ticker_ptr \<Rightarrow> bool" where
  "ticker_valid p = (case p of
     Ticker_null \<Rightarrow> False | Ticker_hardcoded i \<Rightarrow> i < length TOKENS | Ticker_dynamic \<Rightarrow> True)"

text \<open>A transaction keeps the promise: right kind and token, amount, fee and destination.\<close>

definition keeps_promise ::
  "swap_state \<Rightarrow> u64 \<Rightarrow> u64 \<Rightarrow> bytes \<Rightarrow> token_info_t \<Rightarrow> bool" where
  "keeps_promise w amount fee address tinfo \<longleftrightarrow>
     (let V = G_swap_validated w in
      sv_initialized V \<and>
      (if is_token_tx (tx_info (G_context (sw_app w))) then \<not> native V \<and> token_matches w tinfo
       else native V) \<and>
      sv_amount V = amount \<and> sv_fee V = fee \<and> cstring (sv_recipient V) = hex_string address)"

text \<open>An error is justified: it names a part of the promise that is broken.\<close>

definition justified ::
  "swap_state \<Rightarrow> u64 \<Rightarrow> u64 \<Rightarrow> bytes \<Rightarrow> token_info_t \<Rightarrow> swap_end \<Rightarrow> bool" where
  "justified w amount fee address tinfo e =
     (let V = G_swap_validated w; token = is_token_tx (tx_info (G_context (sw_app w))) in
      case e of
        Sched_exit _ \<Rightarrow> False
      | Swap_error sw ec code \<Rightarrow> sw = SW_SWAP_FAIL \<and>
          (case (ec, code) of
             (SWAP_EC_ERROR_GENERIC, SWAP_ERROR_CODE) \<Rightarrow> \<not> sv_initialized V
           | (SWAP_EC_ERROR_WRONG_AMOUNT, SWAP_ERROR_CODE) \<Rightarrow> sv_amount V \<noteq> amount
           | (SWAP_EC_ERROR_WRONG_AMOUNT, SWAP_ERROR_WRONG_TOKEN_INFO) \<Rightarrow> token \<and> \<not> token_matches w tinfo
           | (SWAP_EC_ERROR_WRONG_FEES, SWAP_ERROR_CODE) \<Rightarrow> sv_fee V \<noteq> fee
           | (SWAP_EC_ERROR_WRONG_METHOD, SWAP_ERROR_CODE) \<Rightarrow> token = native V
           | (SWAP_EC_ERROR_WRONG_DESTINATION, SWAP_ERROR_CODE) \<Rightarrow> cstring (sv_recipient V) \<noteq> hex_string address
           | _ \<Rightarrow> False))"

section \<open>Storing the parameters\<close>

lemma validated_wf_zero [simp]: "validated_wf zero_swap_validated"
  by (simp add: validated_wf_def zero_swap_validated_def)

lemma ascii_BOL: "ascii ''BOL'' = [66, 79, 76]"
  by (simp add: ascii_def)

text \<open>The loop writes the rest of the string behind what is already there.\<close>

lemma recipient_loop_from:
  assumes "terminated d" and "length (cstring d) = 40" and "length r = 41" and "i \<le> 40"
  shows "recipient_loop d r i = Some (take i r @ map upper_char (drop i (cstring d)) @ drop 40 r)"
  using assms(3,4)
proof (induction "40 - i" arbitrary: i r)
  case 0
  then show ?case using assms(2) by (simp add: recipient_loop.simps [of d r])
next
  case (Suc n)
  then have i: "i < 40" by simp
  have "i < length d" using i assms(1,2) length_cstring_terminated by fastforce
  then have read: "mem_read d i = Some (cstring d ! i)"
    using i assms(2) by (simp add: mem_read_def nth_cstring)
  let ?r = "take i r @ upper_char (cstring d ! i) # drop (Suc i) r"
  have "mem_write r i [upper_char (cstring d ! i)] = Some ?r" using i Suc.prems by (simp add: mem_write_def)
  then have "recipient_loop d r i = recipient_loop d ?r (Suc i)"
    using i read by (simp add: recipient_loop.simps [of d r])
  also have "\<dots> = Some (take (Suc i) ?r @ map upper_char (drop (Suc i) (cstring d)) @ drop 40 ?r)"
    using Suc by (intro Suc.hyps) auto
  also have "take (Suc i) ?r = take i r @ [upper_char (cstring d ! i)]" using i Suc.prems by simp
  also have "drop 40 ?r = drop 40 r" using i Suc.prems by (simp add: drop_Cons' )
  finally have "recipient_loop d r i = Some (take i r @
      map upper_char (cstring d ! i # drop (Suc i) (cstring d)) @ drop 40 r)" by simp
  then show ?case using i assms(2) by (simp add: Cons_nth_drop_Suc)
qed

lemma upper_char_nonzero: "upper_char c = 0 \<longleftrightarrow> c = 0"
proof -
  have "c - 97 + 65 = c - 32" by simp
  then have "c - 97 + 65 \<noteq> 0" if "c \<ge> 97" using that by (auto simp: word_le_nat_alt)
  then show ?thesis by (auto simp: upper_char_def)
qed

lemma recipient_stored:
  assumes "terminated d" and "length (cstring d) = 40"
  shows "\<exists>r. recipient_loop d (zeros 41) 0 = Some r \<and> length r = 41 \<and> terminated r \<and>
     cstring r = map upper_char (cstring d)"
proof -
  have "0 \<notin> set (map upper_char (cstring d))"
    using cstring_no_nul [of d] by (auto simp: upper_char_nonzero eq_commute [of 0])
  then show ?thesis
    using recipient_loop_from [OF assms length_zeros, of 0] assms(2)
    by (simp add: cstring_append_zeros)
qed

lemma copy_currency_ok:
  assumes "swap_ok W"
  shows "case currency W params of
      None \<Rightarrow> copy_currency W params (zeros 50) = Some None
    | Some (t, d) \<Rightarrow> \<exists>ticker. copy_currency W params (zeros 50) = Some (Some (ticker, d)) \<and>
        length ticker = 50 \<and> terminated ticker \<and> cstring ticker = t"
proof (cases "cp_coin_configuration params")
  case None
  then show ?thesis by (simp add: currency_def copy_currency_def ascii_BOL mem_write_def)
next
  case (Some c)
  show ?thesis
  proof (cases "swap_parse_config W c (unat (cp_coin_configuration_length params)) 50")
    case None
    then show ?thesis using Some by (simp add: currency_def copy_currency_def)
  next
    case (Some td)
    obtain t d where td: "td = (t, d)" by (cases td)
    have "length t \<le> 50" "terminated t" using swap_parse_config_ok [OF assms] Some td by blast+
    then show ?thesis using \<open>cp_coin_configuration params = Some c\<close> Some td
      by (simp add: currency_def copy_currency_def mem_write_start cstring_terminated)
  qed
qed

lemma copy_refused:
  assumes "swap_ok W" and "params_wf params" and "\<not> acceptable W params"
  shows "swap_copy_transaction_parameters W params w = Some (False, w)"
proof (cases "\<exists>d a. cp_destination_address params = Some d \<and> length (cstring d) = 40 \<and> cp_amount params = Some a")
  case False
  then show ?thesis using assms(2)
    by (auto simp: swap_copy_transaction_parameters_def params_wf_def strlen_terminated split: option.split)
next
  case True
  then obtain d a where d: "cp_destination_address params = Some d" "length (cstring d) = 40" "cp_amount params = Some a"
    by blast
  obtain f where f: "cp_fee_amount params = Some f" "unat (cp_fee_amount_length params) \<le> length f"
    using assms(2) by (auto simp: params_wf_def)
  have "terminated d" "unat (cp_amount_length params) \<le> length a" using assms(2) d by (auto simp: params_wf_def)
  moreover obtain r where "recipient_loop d (zeros 41) 0 = Some r" using recipient_stored \<open>terminated d\<close> d(2) by blast
  ultimately show ?thesis using assms(3) d f copy_currency_ok [OF assms(1), of params]
    by (auto simp: swap_copy_transaction_parameters_def strlen_terminated zero_swap_validated_def Let_def
          swap_str_to_u64_ok [OF assms(1)] acceptable_def split: option.splits prod.splits)
qed

lemma copy_accepted:
  assumes "swap_ok W" and "params_wf params" and "acceptable W params"
  shows "\<exists>V. swap_copy_transaction_parameters W params w = Some (True, (zero_bss w)\<lparr>G_swap_validated := V\<rparr>) \<and>
     records W params V"
proof -
  obtain d a where d: "cp_destination_address params = Some d" "length (cstring d) = 40" "cp_amount params = Some a"
    using assms(3) by (auto simp: acceptable_def)
  obtain f where f: "cp_fee_amount params = Some f" "unat (cp_fee_amount_length params) \<le> length f"
    using assms(2) by (auto simp: params_wf_def)
  have len: "terminated d" "unat (cp_amount_length params) \<le> length a" using assms(2) d by (auto simp: params_wf_def)
  obtain r where r: "recipient_loop d (zeros 41) 0 = Some r" "length r = 41" "terminated r"
    "cstring r = map upper_char (cstring d)" using recipient_stored len(1) d(2) by blast
  obtain t n where c: "currency W params = Some (t, n)" using assms(3) by (auto simp: acceptable_def)
  then obtain ticker where t: "copy_currency W params (zeros 50) = Some (Some (ticker, n))"
    "length ticker = 50" "terminated ticker" "cstring ticker = t"
    using copy_currency_ok [OF assms(1), of params] by auto
  have n: "unat (cp_amount_length params) \<le> 8" "unat (cp_fee_amount_length params) \<le> 8"
    using assms(3) by (simp_all add: acceptable_def)
  let ?V = "\<lparr>sv_initialized = True, sv_amount = of_nat (be_val (take (unat (cp_amount_length params)) a)),
    sv_fee = of_nat (be_val (take (unat (cp_fee_amount_length params)) f)), sv_recipient = r,
    sv_decimals = n, sv_ticker = ticker\<rparr>"
  have "swap_copy_transaction_parameters W params w = Some (True, (zero_bss w)\<lparr>G_swap_validated := ?V\<rparr>)"
    using d f len r t n
    by (simp add: swap_copy_transaction_parameters_def strlen_terminated zero_swap_validated_def Let_def
          swap_str_to_u64_ok [OF assms(1)])
  moreover have "records W params ?V"
    using d f len r t n c by (simp add: records_def validated_wf_def number_at_def unat_be_val)
  ultimately show ?thesis by blast
qed

section \<open>Checking a transaction\<close>

lemma is_token_swap_ok: "validated_wf V \<Longrightarrow> is_token_swap V = Some (\<not> native V)"
  by (auto simp: is_token_swap_def validated_wf_def native_def strcmp_eq_terminated ascii_BOL)

lemma TOKENS_tickers: "list_all (\<lambda>e. terminated (te_ticker e)) TOKENS"
  by (simp add: TOKENS_def ticker_array_def)

lemma ticker_memory_ok:
  assumes "dynamic_wf D" and "ticker_valid p"
  shows "\<exists>m. ticker_memory D p = Some m \<and> terminated m \<and> cstring m = ticker_text D p"
proof (cases p)
  case (Ticker_hardcoded i)
  then show ?thesis using assms(2) TOKENS_tickers
    by (simp add: ticker_valid_def ticker_memory_def ticker_text_def mem_read_def list_all_length)
next
  case Ticker_dynamic
  have "terminated (dt_ticker D)"
    using assms(1) nth_mem [of 50 "dt_ticker D"] by (simp add: dynamic_wf_def terminated_def)
  then show ?thesis using Ticker_dynamic by (simp add: ticker_memory_def ticker_text_def)
qed (use assms(2) in \<open>simp add: ticker_valid_def\<close>)

lemma check_swap_token_ok:
  assumes "validated_wf (G_swap_validated w)" and "dynamic_wf (g_dynamic_token_info (sw_app w))"
    and "is_token_tx (tx_info (G_context (sw_app w))) \<longrightarrow> ticker_valid (ti_ticker tinfo)"
  shows "check_swap_token w tinfo = Some
     (if is_token_tx (tx_info (G_context (sw_app w)))
      then if native (G_swap_validated w)
           then Some (Swap_error SW_SWAP_FAIL SWAP_EC_ERROR_WRONG_METHOD SWAP_ERROR_CODE)
           else if token_matches w tinfo then None
           else Some (Swap_error SW_SWAP_FAIL SWAP_EC_ERROR_WRONG_AMOUNT SWAP_ERROR_WRONG_TOKEN_INFO)
      else if native (G_swap_validated w) then None
      else Some (Swap_error SW_SWAP_FAIL SWAP_EC_ERROR_WRONG_METHOD SWAP_ERROR_CODE))"
proof (cases "is_token_tx (tx_info (G_context (sw_app w)))")
  case False
  then show ?thesis by (simp add: check_swap_token_def is_token_swap_ok [OF assms(1)])
next
  case True
  from ticker_memory_ok [OF assms(2)] assms(3) True obtain m
    where "ticker_memory (g_dynamic_token_info (sw_app w)) (ti_ticker tinfo) = Some m" "terminated m"
      "cstring m = ticker_text (g_dynamic_token_info (sw_app w)) (ti_ticker tinfo)" by blast
  then show ?thesis using True assms(1)
    by (simp add: check_swap_token_def is_token_swap_ok strcmp_eq_terminated validated_wf_def token_matches_def)
qed

lemma check_destination_ok:
  assumes "format_ok F" and "length address = 20"
  shows "\<exists>out. format_hex F address 41 = (41, out) \<and> mem_write (zeros 41) 0 out = Some out \<and>
     terminated out \<and> cstring out = hex_string address"
  using assms format_hex_ok [OF assms(1), of address 41] hex_string_nul_free [of address]
  by (simp add: mem_write_def cstring_nul_free)

lemma check_validity_ok:
  assumes "format_ok (sdk_format k)" and "validated_wf (G_swap_validated w)"
    and "dynamic_wf (g_dynamic_token_info (sw_app w))"
    and "is_token_tx (tx_info (G_context (sw_app w))) \<longrightarrow> ticker_valid (ti_ticker tinfo)"
    and "ADDRESS_LEN \<le> length memory"
  shows "if keeps_promise w amount fee (take ADDRESS_LEN memory) tinfo
     then swap_check_validity k amount fee (Some memory) tinfo w = Some (Inr True)
     else \<exists>e. swap_check_validity k amount fee (Some memory) tinfo w = Some (Inl e) \<and>
              justified w amount fee (take ADDRESS_LEN memory) tinfo e"
proof -
  obtain out where hex: "format_hex (sdk_format k) (take 20 memory) 41 = (41, out)"
    "mem_write (zeros 41) 0 out = Some out" "terminated out" "cstring out = hex_string (take 20 memory)"
    using check_destination_ok [OF assms(1), of "take 20 memory"] assms(5) by auto
  have "mem_slice memory 0 20 = Some (take 20 memory)" using assms(5) by (simp add: mem_slice_def slice_def)
  moreover have "strcmp_eq (sv_recipient (G_swap_validated w)) out =
      Some (cstring (sv_recipient (G_swap_validated w)) = hex_string (take 20 memory))"
    using hex(3,4) assms(2) by (simp add: strcmp_eq_terminated validated_wf_def)
  ultimately show ?thesis using hex(1,2)
    by (simp add: swap_check_validity_def check_swap_token_ok [OF assms(2-4)] Let_def keeps_promise_def justified_def)
qed

lemma check_validity_accepts:
  assumes "format_ok (sdk_format k)" and "validated_wf (G_swap_validated w)"
    and "dynamic_wf (g_dynamic_token_info (sw_app w))"
    and "is_token_tx (tx_info (G_context (sw_app w))) \<longrightarrow> ticker_valid (ti_ticker tinfo)"
    and "ADDRESS_LEN \<le> length memory"
  shows "swap_check_validity k amount fee (Some memory) tinfo w = Some (Inr True) \<longleftrightarrow>
     keeps_promise w amount fee (take ADDRESS_LEN memory) tinfo"
  using check_validity_ok [OF assms, of amount fee] by (auto split: if_splits)

section \<open>Properties\<close>

text \<open>For evaluation: the application as it is called as a library, and an exchange of 256 mBOL, with
  a fee of 5, to an address written in lower case.\<close>

definition library_state :: swap_state where
  "library_state = \<lparr>sw_app = boot_state default_nvm, G_swap_validated = zero_swap_validated,
     G_swap_response_ready = False, G_called_from_swap = False\<rparr>"

definition sample_address :: bytes where
  "sample_address = replicate ADDRESS_LEN 0xAB"

definition sample_params :: create_transaction_parameters_t where
  "sample_params = \<lparr>cp_coin_configuration = None, cp_coin_configuration_length = 0,
     cp_amount = Some [1, 0], cp_amount_length = 2, cp_fee_amount = Some [5], cp_fee_amount_length = 1,
     cp_destination_address = Some (concat (replicate ADDRESS_LEN [97, 98]) @ [0])\<rparr>"

abbreviation (input) "no_token \<equiv> \<lparr>ti_ticker = Ticker_null, ti_decimals = 0\<rparr>"

lemma sample_params_ok: "params_wf sample_params" "acceptable ref_swap_lib sample_params"
proof -
  have "length (cstring (concat (replicate 20 [97, 98]) @ [0])) = 40" by code_simp
  then show "params_wf sample_params" "acceptable ref_swap_lib sample_params"
    by (simp_all add: params_wf_def acceptable_def sample_params_def currency_def)
qed

text \<open>C27. The parameters of an exchange are stored or refused as a whole. They are accepted exactly
  when there is a destination of 40 characters, an amount and a fee of at most eight bytes, and a
  configuration that parses or none. When they are refused the application keeps every global;
  when they are accepted every global is reset, and the stored amount, fee, ticker, decimals and
  recipient (in upper case) are exactly the ones passed, without loss in the conversion to 64
  bits.\<close>

theorem parameters_stored_or_refused:
  assumes "swap_ok W" and "params_wf params"
  shows "\<exists>ok w'. swap_copy_transaction_parameters W params w = Some (ok, w') \<and> ok = acceptable W params \<and>
     (if ok
      then records W params (G_swap_validated w') \<and>
           w' = (zero_bss w)\<lparr>G_swap_validated := G_swap_validated w'\<rparr>
      else w' = w)"
proof (cases "acceptable W params")
  case True
  from copy_accepted [OF assms True, of w] obtain V
    where "swap_copy_transaction_parameters W params w = Some (True, (zero_bss w)\<lparr>G_swap_validated := V\<rparr>)"
      "records W params V" by blast
  then show ?thesis using True
    by (intro exI [of _ True] exI [of _ "(zero_bss w)\<lparr>G_swap_validated := V\<rparr>"]) simp
next
  case False
  then show ?thesis using copy_refused [OF assms False, of w] by (intro exI [of _ False] exI [of _ w]) simp
qed

theorem parameters_stored_or_refused_witness:
  "\<exists>w'. swap_copy_transaction_parameters ref_swap_lib sample_params library_state = Some (True, w') \<and>
     unat (sv_amount (G_swap_validated w')) = 256"
  using parameters_stored_or_refused [of ref_swap_lib sample_params library_state] sample_params_ok
  by (auto simp: records_def number_at_def be_val_def sample_params_def)

text \<open>C19. The check of a transaction in an exchange is exact. It returns true exactly when the
  transaction keeps the promise: parameters were stored, the kind of transaction and its token are
  the agreed ones, and amount, fee and destination are equal to the stored ones. It never returns
  false, and never reads outside an object: in every other case it ends the application with an
  error that names a part of the promise that is broken.\<close>

theorem check_validity_exact:
  assumes "format_ok (sdk_format k)" and "validated_wf (G_swap_validated w)"
    and "dynamic_wf (g_dynamic_token_info (sw_app w))"
    and "is_token_tx (tx_info (G_context (sw_app w))) \<longrightarrow> ticker_valid (ti_ticker tinfo)"
    and "length address = ADDRESS_LEN"
  shows "if keeps_promise w amount fee address tinfo
     then swap_check_validity k amount fee (Some address) tinfo w = Some (Inr True)
     else \<exists>e. swap_check_validity k amount fee (Some address) tinfo w = Some (Inl e) \<and>
              justified w amount fee address tinfo e"
proof -
  from assms(5) have "20 \<le> length address" and all: "take 20 address = address" by simp_all
  from check_validity_ok [OF assms(1-4) this(1), of amount fee] show ?thesis unfolding all .
qed

theorem check_validity_exact_witness:
  "swap_check_validity ref_sdk 0 0 (Some sample_address) no_token library_state =
     Some (Inl (Swap_error SW_SWAP_FAIL SWAP_EC_ERROR_GENERIC SWAP_ERROR_CODE))"
proof -
  have "\<not> keeps_promise library_state 0 0 sample_address no_token"
    by (simp add: keeps_promise_def library_state_def zero_swap_validated_def)
  then show ?thesis
    using check_validity_exact [of ref_sdk library_state no_token sample_address 0 0]
    by (simp add: library_state_def zero_tx_info_def sample_address_def swap_check_validity_def zero_swap_validated_def)
qed

text \<open>What was agreed is what is checked. After the parameters of an exchange were stored, the
  check accepts a transaction exactly when the exchange is in the native currency and amount, fee
  and destination are the numbers and the address that were passed, whatever the case of the
  letters in which the address was written.\<close>

theorem agreed_is_checked:
  assumes "swap_ok W" and "format_ok (sdk_format k)" and "params_wf params"
    and "swap_copy_transaction_parameters W params w = Some (True, w')" and "length address = ADDRESS_LEN"
  shows "swap_check_validity k amount fee (Some address) tinfo w' = Some (Inr True) \<longleftrightarrow>
     currency W params = Some (ascii ''BOL'', EXPONENT_SMALLEST_UNIT) \<and>
     unat amount = number_at (cp_amount params) (cp_amount_length params) \<and>
     unat fee = number_at (cp_fee_amount params) (cp_fee_amount_length params) \<and>
     (\<exists>d. cp_destination_address params = Some d \<and> map upper_char (cstring d) = hex_string address)"
proof -
  have "acceptable W params" using copy_refused [OF assms(1,3), of w] assms(4) by auto
  from copy_accepted [OF assms(1,3) this, of w] assms(4) obtain V
    where w': "w' = (zero_bss w)\<lparr>G_swap_validated := V\<rparr>" and V: "records W params V" by auto
  have wf: "validated_wf (G_swap_validated w')" "dynamic_wf (g_dynamic_token_info (sw_app w'))"
    "\<not> is_token_tx (tx_info (G_context (sw_app w')))" "sv_initialized V"
    using V by (simp_all add: w' records_def zero_bss_def zero_tx_info_def)
  have "swap_check_validity k amount fee (Some address) tinfo w' = Some (Inr True) \<longleftrightarrow>
      keeps_promise w' amount fee address tinfo"
    using check_validity_accepts [OF assms(2) wf(1,2), of tinfo address amount fee] wf(3) assms(5) by simp
  also have "\<dots> \<longleftrightarrow> native V \<and> sv_amount V = amount \<and> sv_fee V = fee \<and> cstring (sv_recipient V) = hex_string address"
    using wf by (simp add: keeps_promise_def w')
  finally show ?thesis using V by (auto simp: records_def native_def word_unat_eq_iff)
qed

theorem agreed_is_checked_witness:
  "\<exists>w'. swap_copy_transaction_parameters ref_swap_lib sample_params library_state = Some (True, w') \<and>
     swap_check_validity ref_sdk 256 5 (Some sample_address) no_token w' = Some (Inr True) \<and>
     swap_check_validity ref_sdk 257 5 (Some sample_address) no_token w' \<noteq> Some (Inr True)"
proof -
  obtain w' where w': "swap_copy_transaction_parameters ref_swap_lib sample_params library_state = Some (True, w')"
    using copy_accepted [OF ref_swap_ok sample_params_ok, of library_state] by blast
  have "map upper_char (cstring (concat (replicate 20 [97, 98]) @ [0])) = hex_string sample_address"
    by code_simp
  then show ?thesis using w' sample_params_ok(1)
      agreed_is_checked [OF ref_swap_ok _ _ w', of ref_sdk sample_address 256 5 no_token]
      agreed_is_checked [OF ref_swap_ok _ _ w', of ref_sdk sample_address 257 5 no_token]
    by (simp add: currency_def sample_params_def number_at_def be_val_def sample_address_def)
qed

end
