(* ===== verification/Swap_Queries.thy ===== *)
theory Swap_Queries
  imports Swap_Validation Get_Handlers
begin

text \<open>
  The questions the exchange application asks before a swap: whether an address belongs to the
  device (\<^verbatim>\<open>swap/handle_check_address.c\<close>), and how to print an amount
  (\<^verbatim>\<open>swap/handle_get_printable_amount.c\<close>).
\<close>

section \<open>The code\<close>

text \<open>The path is read into an array on the stack that is not initialised, the argument
  \<open>stack_path\<close>; the verdicts of the two reads are not looked at.\<close>

definition swap_handle_check_address ::
  "sdk \<Rightarrow> u32 list \<Rightarrow> check_address_parameters_t \<Rightarrow> check_address_parameters_t option" where
  "swap_handle_check_address k stack_path params =
     (let params = params\<lparr>ca_result := 0\<rparr> in
      case ca_address_parameters params of
        None \<Rightarrow> Some params
      | Some address_parameters \<Rightarrow>
          (case ca_address_to_check params of
             None \<Rightarrow> Some params
           | Some address_to_check \<Rightarrow> do {
               n \<leftarrow> strlen address_to_check;
               if n \<noteq> ADDRESS_LEN * 2 then Some params
               else do {
                 let buf = \<lparr>buf_ptr = address_parameters,
                            buf_size = unat (ca_address_parameters_length params), buf_offset = 0\<rparr>;
                 let (_, path_len, buf) = buffer_read_u8 (sdk_buffer k) buf;
                 let (_, elements, buf) = buffer_read_bip32_path (sdk_buffer k) buf (unat path_len);
                 path \<leftarrow> mem_write stack_path 0 elements;
                 path \<leftarrow> mem_slice path 0 (unat path_len);
                 let (ret, pk, cc) = bip32_derive_get_pubkey_256 (sdk_crypto k) CX_CURVE_256K1 path (unat path_len) CX_SHA512;
                 pk \<leftarrow> mem_write (zeros PUBKEY_LEN) 0 pk;
                 cc \<leftarrow> mem_write (zeros CHAINCODE_LEN) 0 cc;
                 if ret \<noteq> CX_OK then Some params
                 else do {
                   (_, address) \<leftarrow> address_from_pubkey k pk (zeros ADDRESS_LEN) ADDRESS_LEN;
                   let (r, out) = format_hex (sdk_format k) address 41;
                   derived_address \<leftarrow> mem_write (zeros 41) 0 out;
                   same \<leftarrow> strncmp_eq 41 derived_address address_to_check;
                   Some (if \<not> same then params else params\<lparr>ca_result := 1\<rparr>)
                 }
               }
             }))"

text \<open>Ticker and decimals of an amount: the native currency for a fee or without a configuration.
  The inner \<open>None\<close> is a configuration that does not parse.\<close>

definition amount_currency ::
  "swap_lib \<Rightarrow> get_printable_amount_parameters_t \<Rightarrow> (bytes \<times> u8) option option" where
  "amount_currency W params =
     (let ticker = BOL @ zeros (MAX_TICKER_SIZE - 4) in
      if gp_is_fee params then Some (Some (ticker, EXPONENT_SMALLEST_UNIT))
      else case gp_coin_configuration params of
        None \<Rightarrow> Some (Some (ticker, EXPONENT_SMALLEST_UNIT))
      | Some c \<Rightarrow>
          (case swap_parse_config W c (unat (gp_coin_configuration_length params)) MAX_TICKER_SIZE of
             None \<Rightarrow> Some None
           | Some (t, decimals) \<Rightarrow> do {
               ticker \<leftarrow> mem_write ticker 0 t;
               Some (Some (ticker, decimals))
             }))"

text \<open>The verdict of \<open>format_fpu64\<close> is not looked at.\<close>

definition swap_handle_get_printable_amount ::
  "swap_lib \<Rightarrow> get_printable_amount_parameters_t \<Rightarrow> get_printable_amount_parameters_t option" where
  "swap_handle_get_printable_amount W params =
     (let params = params\<lparr>gp_printable_amount := zeros (MAX_PRINTABLE_AMOUNT_SIZE W)\<rparr> in
      case swap_str_to_u64 W (gp_amount params) (unat (gp_amount_length params)) of
        None \<Rightarrow> Some params
      | Some raw_amount \<Rightarrow> do {
          currency \<leftarrow> amount_currency W params;
          case currency of
            None \<Rightarrow> Some params
          | Some (ticker, decimals) \<Rightarrow> do {
              let (_, out) = format_fpu64 W 30 raw_amount decimals;
              formatted_amount \<leftarrow> mem_write (zeros 30) 0 out;
              n \<leftarrow> strlen formatted_amount;
              m \<leftarrow> strlen ticker;
              printable \<leftarrow> snprintf_into (gp_printable_amount params) (MAX_PRINTABLE_AMOUNT_SIZE W)
                             (take n formatted_amount @ 32 # take m ticker);
              Some (params\<lparr>gp_printable_amount := printable\<rparr>)
            }
        })"

section \<open>Addresses\<close>

lemma check_address_path_ok:
  assumes "buffer_ok B" and "unat n \<le> length p" and "path_request (take (unat n) p) = Some path"
    and "length stack_path = MAX_BIP32_PATH"
  shows "\<exists>len b elements c whole.
     buffer_read_u8 B \<lparr>buf_ptr = p, buf_size = unat (n :: u8), buf_offset = 0\<rparr> = (True, len, b) \<and>
     buffer_read_bip32_path B b (unat len) = (True, elements, c) \<and>
     mem_write stack_path 0 elements = Some whole \<and> mem_slice whole 0 (unat len) = Some path \<and>
     unat len = length path"
proof -
  let ?b = "\<lparr>buf_ptr = p, buf_size = unat n, buf_offset = 0\<rparr>"
  have wf: "buf_wf ?b" and rest: "buf_rest ?b = take (unat n) p"
    using assms(2) by (simp_all add: buf_wf_def buf_rest_def buf_left_def slice_def)
  from assms(3) obtain len r where r: "take (unat n) p = len # r" "1 \<le> unat len" "unat len \<le> MAX_BIP32_PATH"
      "4 * unat len \<le> length r" "path = be32_vals (unat len) r"
    by (auto simp: path_request_def split: list.splits if_splits)
  have left: "buf_left ?b = Suc (length r)" using r(1) wf rest by (metis length_Cons length_buf_rest)
  have u8: "buffer_read_u8 B ?b = (True, len, advance 1 ?b)"
    using buffer_read_u8_ok [OF assms(1) wf] left r(1) rest by simp
  have "buf_wf (advance 1 ?b)" "buf_rest (advance 1 ?b) = r" "buf_left (advance 1 ?b) = length r"
    using wf left r(1) rest by (simp_all add: buf_rest_advance)
  then have "buffer_read_bip32_path B (advance 1 ?b) (unat len) = (True, path, advance (4 * unat len) (advance 1 ?b))"
    using buffer_path_ok [OF assms(1), of "advance 1 ?b" "unat len"] r by simp
  moreover have "length path = unat len" using r by (simp add: length_be32_vals)
  ultimately show ?thesis using u8 r(3) assms(4)
    by (simp add: mem_write_def mem_slice_def slice_def)
qed

text \<open>A digest of 40 characters compared over 41 bytes is the whole string.\<close>

lemma derived_address_compared:
  assumes "format_ok F" and "length address = 20" and "terminated s" and "length (cstring s) = 40"
  shows "\<exists>out. format_hex F address 41 = (41, out) \<and> mem_write (zeros 41) 0 out = Some out \<and>
     strncmp_eq 41 out s = Some (cstring s = hex_string address)"
proof -
  obtain out where out: "format_hex F address 41 = (41, out)" "mem_write (zeros 41) 0 out = Some out"
    "terminated out" "cstring out = hex_string address"
    using check_destination_ok [OF assms(1,2)] by blast
  then have "strncmp_eq 41 out s = Some (cstring s = hex_string address)"
    using assms by (auto simp: strncmp_eq_terminated)
  with out show ?thesis by blast
qed

section \<open>Amounts\<close>

definition printed_currency :: "swap_lib \<Rightarrow> get_printable_amount_parameters_t \<Rightarrow> (bytes \<times> u8) option" where
  "printed_currency W params =
     (if gp_is_fee params then Some (ascii ''BOL'', EXPONENT_SMALLEST_UNIT)
      else case gp_coin_configuration params of
        None \<Rightarrow> Some (ascii ''BOL'', EXPONENT_SMALLEST_UNIT)
      | Some c \<Rightarrow> map_option (\<lambda>(t, d). (cstring t, d))
          (swap_parse_config W c (unat (gp_coin_configuration_length params)) MAX_TICKER_SIZE))"

lemma currency_output [simp]:
  "amount_currency W (params\<lparr>gp_printable_amount := b\<rparr>) = amount_currency W params"
  "printed_currency W (params\<lparr>gp_printable_amount := b\<rparr>) = printed_currency W params"
  by (simp_all add: amount_currency_def printed_currency_def Let_def cong: if_cong option.case_cong)

lemma amount_currency_ok:
  assumes "swap_ok W"
  shows "case printed_currency W params of
      None \<Rightarrow> amount_currency W params = Some None
    | Some (t, d) \<Rightarrow> \<exists>ticker. amount_currency W params = Some (Some (ticker, d)) \<and>
        terminated ticker \<and> cstring ticker = t"
proof (cases "gp_is_fee params \<or> gp_coin_configuration params = None")
  case True
  then show ?thesis by (auto simp: printed_currency_def amount_currency_def ascii_BOL)
next
  case False
  then obtain c where c: "\<not> gp_is_fee params" "gp_coin_configuration params = Some c" by blast
  show ?thesis
  proof (cases "swap_parse_config W c (unat (gp_coin_configuration_length params)) 50")
    case None
    then show ?thesis using c by (simp add: printed_currency_def amount_currency_def)
  next
    case (Some td)
    obtain t d where td: "td = (t, d)" by (cases td)
    have "length t \<le> 50" "terminated t" using swap_parse_config_ok [OF assms] Some td by blast+
    then show ?thesis using c Some td
      by (simp add: printed_currency_def amount_currency_def mem_write_start ascii_BOL cstring_terminated)
  qed
qed

text \<open>The decimal text of an amount: digits and one point, from which the amount can be read back.\<close>

definition fpu_digits :: "nat \<Rightarrow> nat \<Rightarrow> bytes" where
  "fpu_digits v d = replicate (Suc d - length (dec_digits v)) (digit_char 0) @ dec_digits v"

lemma fpu_text_digits:
  "fpu_text v d = take (length (fpu_digits v d) - d) (fpu_digits v d) @ of_nat 46
     # drop (length (fpu_digits v d) - d) (fpu_digits v d)"
  by (simp add: fpu_text_def fpu_digits_def Let_def)

lemma dec_val_fpu_digits: "dec_val (fpu_digits v d) = v"
proof -
  have "foldl (\<lambda>a c. a * 10 + (unat c - 48)) 0 (replicate n (digit_char 0)) = (0 :: nat)" for n
    by (induction n) (simp_all add: digit_char_val)
  then show ?thesis using dec_val_dec_digits [of v] by (simp add: fpu_digits_def dec_val_def)
qed

lemma length_fpu_text: "length (fpu_text v d) = max (Suc d) (length (dec_digits v)) + 1"
  by (simp add: fpu_text_digits fpu_digits_def)

lemma fpu_text_inject:
  assumes "fpu_text v d = fpu_text u d"
  shows "v = u"
proof -
  let ?p = "fpu_digits v d" and ?q = "fpu_digits u d"
  have "length (fpu_text v d) = Suc (length ?p)" "length (fpu_text u d) = Suc (length ?q)"
    by (simp_all add: fpu_text_digits)
  with assms have "length ?p = length ?q" by simp
  with assms have "take (length ?p - d) ?p = take (length ?p - d) ?q" "drop (length ?p - d) ?p = drop (length ?p - d) ?q"
    by (simp_all add: fpu_text_digits)
  then have "?p = ?q" by (metis append_take_drop_id)
  then show ?thesis by (metis dec_val_fpu_digits)
qed

lemma fpu_text_nul_free: "0 \<notin> set (fpu_text v d)"
proof -
  have "\<not> is_digit 0" by (simp add: is_digit_def)
  then have "0 \<notin> set (dec_digits v)" using dec_digits_are_digits by blast
  moreover have "digit_char 0 \<noteq> 0" by (simp add: digit_char_def)
  ultimately have "0 \<notin> set (fpu_digits v d)" by (auto simp: fpu_digits_def)
  then show ?thesis by (auto simp: fpu_text_digits dest: in_set_takeD in_set_dropD)
qed

text \<open>Printing: what the format call left in the zeroed buffer, a blank, the ticker; cut to the
  output array.\<close>

lemma snprintf_into_zeros:
  assumes "0 < n" and "0 \<notin> set txt"
  shows "\<exists>b. snprintf_into (zeros n) n txt = Some b \<and> length b = n \<and> cstring b = take (n - 1) txt"
proof -
  have "0 \<notin> set (take (n - 1) txt)" using assms(2) by (meson in_set_takeD)
  then show ?thesis using assms(1) by (simp add: snprintf_into_def mem_write_def cstring_nul_free)
qed

lemma print_amount:
  assumes W: "swap_ok W" "0 < MAX_PRINTABLE_AMOUNT_SIZE W"
    and a: "gp_amount params = Some a" "unat (gp_amount_length params) \<le> length a" "unat (gp_amount_length params) \<le> 8"
    and c: "printed_currency W params = Some (t, d)"
    and out: "snd (format_fpu64 W 30 (of_nat (be_val (take (unat (gp_amount_length params)) a))) d) = out"
      "terminated (out @ zeros (30 - length out))"
  shows "\<exists>b. swap_handle_get_printable_amount W params = Some (params\<lparr>gp_printable_amount := b\<rparr>) \<and>
     length b = MAX_PRINTABLE_AMOUNT_SIZE W \<and>
     cstring b = take (MAX_PRINTABLE_AMOUNT_SIZE W - 1) (cstring (out @ zeros (30 - length out)) @ 32 # t)"
proof -
  let ?m = "MAX_PRINTABLE_AMOUNT_SIZE W"
  define w where "w = out @ zeros (30 - length out)"
  obtain ticker where ticker: "amount_currency W (params\<lparr>gp_printable_amount := zeros ?m\<rparr>) = Some (Some (ticker, d))"
    "terminated ticker" "cstring ticker = t"
    using amount_currency_ok [OF W(1), of params] c by auto
  have "length out \<le> 30" using format_fpu64_fits [OF W(1)] out(1) by blast
  then have wr: "mem_write (zeros 30) 0 out = Some w" by (simp add: mem_write_start w_def)
  have "0 \<notin> set (cstring w @ 32 # t)" using cstring_no_nul ticker(3) by auto
  from snprintf_into_zeros [OF W(2) this] obtain b where
    b: "snprintf_into (zeros ?m) ?m (cstring w @ 32 # t) = Some b" "length b = ?m"
      "cstring b = take (?m - 1) (cstring w @ 32 # t)" by blast
  obtain ok where "format_fpu64 W 30 (of_nat (be_val (take (unat (gp_amount_length params)) a))) d = (ok, out)"
    using out(1) by (metis prod.collapse)
  then show ?thesis unfolding w_def [symmetric] using b ticker wr a out(2) [folded w_def]
    by (intro exI [of _ b])
       (simp add: swap_handle_get_printable_amount_def swap_str_to_u64_ok [OF W(1)] strlen_terminated take_cstring)
qed

lemma print_nothing:
  assumes "swap_ok W" and "0 < MAX_PRINTABLE_AMOUNT_SIZE W"
    and "gp_amount params = Some a" and "unat (gp_amount_length params) \<le> length a"
    and "\<not> (unat (gp_amount_length params) \<le> 8 \<and> printed_currency W params \<noteq> None)"
  shows "\<exists>b. swap_handle_get_printable_amount W params = Some (params\<lparr>gp_printable_amount := b\<rparr>) \<and> cstring b = []"
proof (intro exI conjI)
  let ?b = "zeros (MAX_PRINTABLE_AMOUNT_SIZE W)"
  show "swap_handle_get_printable_amount W params = Some (params\<lparr>gp_printable_amount := ?b\<rparr>)"
    using assms(3-5) amount_currency_ok [OF assms(1), of params]
    by (cases "printed_currency W params")
       (auto simp: swap_handle_get_printable_amount_def swap_str_to_u64_ok [OF assms(1)])
  show "cstring ?b = []" using assms(2) cstring_append_zeros [of "[]"] by simp
qed

lemma amount_digits_length: "length (dec_digits (unat (w :: u64))) \<le> 20"
proof -
  have "unat w < 2 ^ LENGTH(64)" by (rule unsigned_less)
  then have "unat w < 10 ^ Suc 19" by simp
  then have "length (dec_digits (unat w)) \<le> Suc 19" by (rule dec_digits_length)
  then show ?thesis by simp
qed

lemma filter_fpu_text: "filter is_digit (fpu_text v d) = fpu_digits v d"
proof -
  have "\<forall>c \<in> set (fpu_digits v d). is_digit c"
    using dec_digits_are_digits by (auto simp: fpu_digits_def is_digit_digit_char)
  then have "filter is_digit (fpu_digits v d) = fpu_digits v d" by simp
  then have "filter is_digit (take n (fpu_digits v d)) @ filter is_digit (drop n (fpu_digits v d)) = fpu_digits v d" for n
    by (metis append_take_drop_id filter_append)
  then show ?thesis by (simp add: fpu_text_digits is_digit_def)
qed

lemma few_decimals_fit: "d \<le> 8 \<Longrightarrow> fpu_fits 30 (unat (w :: u64)) d"
  using amount_digits_length [of w] by (simp add: fpu_fits_def length_fpu_text)

lemma native_read_back:
  assumes "26 \<le> m"
  shows "dec_val (filter is_digit (take (m - 1) (fpu_text (unat (w :: u64)) 3 @ 32 # ascii ''BOL''))) = unat w"
proof -
  have "length (fpu_text (unat w) 3) \<le> 21" using amount_digits_length [of w] by (simp add: length_fpu_text)
  then have "take (m - 1) (fpu_text (unat w) 3 @ 32 # ascii ''BOL'') = fpu_text (unat w) 3 @ 32 # ascii ''BOL''"
    using assms by (intro take_all) (simp add: ascii_BOL)
  then show ?thesis by (simp add: filter_fpu_text dec_val_fpu_digits ascii_BOL is_digit_def)
qed

section \<open>Properties\<close>

definition sample_question :: check_address_parameters_t where
  "sample_question =
     \<lparr>ca_address_parameters = Some [1, 0x80, 0, 0, 44], ca_address_parameters_length = 5,
      ca_address_to_check = Some (hex_string (replicate ADDRESS_LEN 1) @ [0]), ca_result = 7\<rparr>"

text \<open>C29. An address is confirmed exactly when it is the one of the device. For a well-formed path
  and an address of 40 characters the result is 1 exactly when the key at that path can be derived
  and the characters are the upper-case hexadecimal of the address of that key (of the zero
  address, should the hash fail, whose verdict is not looked at); the question changes nothing
  else. The comparison distinguishes the case of letters.\<close>

theorem check_address_exact:
  assumes "sdk_ok k" and "length stack_path = MAX_BIP32_PATH"
    and "ca_address_parameters params = Some p" and "unat (ca_address_parameters_length params) \<le> length p"
    and "path_request (take (unat (ca_address_parameters_length params)) p) = Some path"
    and "ca_address_to_check params = Some s" and "terminated s"
    and "bip32_derive_get_pubkey_256 (sdk_crypto k) CX_CURVE_256K1 path (length path) CX_SHA512 = (ret, pk, cc)"
    and "cx_keccak_256_hash (sdk_crypto k) (tl pk) = (err, h)"
  shows "swap_handle_check_address k stack_path params = Some (params\<lparr>ca_result :=
     (if ret = CX_OK \<and> cstring s = hex_string (if err = CX_OK then drop 12 h else zeros ADDRESS_LEN)
      then 1 else 0)\<rparr>)"
proof (cases "length (cstring s) = 40")
  case False
  have "length h = 32" using assms(1,9) unfolding sdk_ok_def crypto_ok_def by (metis snd_conv)
  then have "cstring s \<noteq> hex_string (if err = CX_OK then drop 12 h else zeros 20)" using False by auto
  then show ?thesis using False assms(3,6,7)
    by (simp add: swap_handle_check_address_def strlen_terminated)
next
  case True
  have k: "buffer_ok (sdk_buffer k)" "crypto_ok (sdk_crypto k)" "format_ok (sdk_format k)"
    using assms(1) by (simp_all add: sdk_ok_def)
  have len: "length h = 32" "length pk = 65" "length cc = 32"
    using k(2) assms(8,9) unfolding crypto_ok_def by (metis fst_conv snd_conv)+
  from check_address_path_ok [OF k(1) assms(4,5,2)] obtain n b elements c whole where
    read: "buffer_read_u8 (sdk_buffer k) \<lparr>buf_ptr = p, buf_size = unat (ca_address_parameters_length params),
        buf_offset = 0\<rparr> = (True, n, b)" "buffer_read_bip32_path (sdk_buffer k) b (unat n) = (True, elements, c)"
      "mem_write stack_path 0 elements = Some whole" "mem_slice whole 0 (unat n) = Some path" "unat n = length path"
    by blast
  define address where "address = (if err = CX_OK then drop 12 h else zeros 20)"
  have "length address = 20" using len by (simp add: address_def)
  from derived_address_compared [OF k(3) this assms(7) True] obtain out where
    out: "format_hex (sdk_format k) address 41 = (41, out)" "mem_write (zeros 41) 0 out = Some out"
      "strncmp_eq 41 out s = Some (cstring s = hex_string address)" by blast
  have "address_from_pubkey k pk (zeros 20) 20 = Some (err = CX_OK, address)"
    using address_from_pubkey_ok [OF k(2) len(2) length_zeros assms(9)] by (simp add: address_def)
  moreover have "mem_write (zeros 65) 0 pk = Some pk" "mem_write (zeros 32) 0 cc = Some cc"
    using len by (simp_all add: mem_write_def)
  ultimately show ?thesis unfolding address_def [symmetric] using read out True assms(3,6,7,8)
    by (cases "ret = CX_OK") (simp_all add: swap_handle_check_address_def strlen_terminated)
qed

theorem check_address_exact_witness:
  "\<exists>params'. swap_handle_check_address ref_sdk (replicate MAX_BIP32_PATH 0) sample_question = Some params' \<and>
     ca_result params' = 1"
proof -
  let ?path = "[be32_val 0x80 0 0 44]" and ?pk = "4 # replicate 64 1 :: bytes"
  have q: "ca_address_parameters sample_question = Some [1, 0x80, 0, 0, 44]"
    "unat (ca_address_parameters_length sample_question) \<le> length [1, 0x80, 0, 0, 44 :: u8]"
    "ca_address_to_check sample_question = Some (hex_string (replicate 20 1) @ [0])"
    "terminated (hex_string (replicate 20 1) @ [0])"
    by (simp_all add: sample_question_def)
  have path: "path_request (take (unat (ca_address_parameters_length sample_question)) [1, 0x80, 0, 0, 44]) = Some ?path"
    by (simp add: path_request_def MAX_BIP32_PATH_def sample_question_def)
  have key: "bip32_derive_get_pubkey_256 (sdk_crypto ref_sdk) CX_CURVE_256K1 ?path (length ?path) CX_SHA512 =
      (CX_OK, ?pk, replicate 32 7)" by (simp add: ref_crypto_lib_def)
  have hash: "cx_keccak_256_hash (sdk_crypto ref_sdk) (tl ?pk) = (CX_OK, replicate 32 1)"
    by (simp add: ref_crypto_lib_def ref_digest_def)
  have "cstring (hex_string (replicate 20 1) @ [0]) = hex_string (drop 12 (replicate 32 1))"
    by (simp add: cstring_nul_free hex_string_nul_free)
  note check_address_exact [OF ref_sdk_ok length_replicate q(1,2) path q(3,4) key hash, unfolded this simp_thms if_True]
  then show ?thesis by simp
qed

text \<open>The question for an address reads outside its stack array when the path it is given claims
  more than ten elements: the reads of the path are refused, but their verdict is not looked at,
  and the key derivation gets the claimed length.\<close>

theorem check_address_long_path_faults:
  assumes "buffer_ok (sdk_buffer k)" and "length stack_path = MAX_BIP32_PATH"
    and "ca_address_parameters params = Some (n # p)"
    and "1 \<le> ca_address_parameters_length params"
    and "unat (ca_address_parameters_length params) \<le> length (n # p)" and "MAX_BIP32_PATH < unat n"
    and "ca_address_to_check params = Some s" and "terminated s" and "length (cstring s) = ADDRESS_LEN * 2"
  shows "swap_handle_check_address k stack_path params = None"
proof -
  let ?b = "\<lparr>buf_ptr = n # p, buf_size = unat (ca_address_parameters_length params), buf_offset = 0\<rparr>"
  have wf: "buf_wf ?b" and left: "1 \<le> buf_left ?b"
    using assms(4,5) by (simp_all add: buf_wf_def buf_left_def word_le_nat_alt)
  moreover have "buf_rest ?b ! 0 = n" using left wf by (simp add: buf_rest_def buf_left_def buf_wf_def)
  ultimately have u8: "buffer_read_u8 (sdk_buffer k) ?b = (True, n, advance 1 ?b)"
    using buffer_read_u8_ok [OF assms(1), of ?b] by simp
  obtain ok elements c where path: "buffer_read_bip32_path (sdk_buffer k) (advance 1 ?b) (unat n) = (ok, elements, c)"
    by (metis prod_cases3)
  have "buf_wf (advance 1 ?b)" using wf left by simp
  then have "length elements \<le> MAX_BIP32_PATH"
    using buffer_path_fail [OF assms(1), of "advance 1 ?b" "unat n"] assms(6) path by simp
  then obtain whole where "mem_write stack_path 0 elements = Some whole" "length whole = MAX_BIP32_PATH"
    using assms(2) by (simp add: mem_write_def)
  then show ?thesis using u8 path assms(3,6-9)
    by (simp add: swap_handle_check_address_def strlen_terminated mem_slice_def)
qed

theorem check_address_long_path_faults_witness:
  "swap_handle_check_address ref_sdk (replicate MAX_BIP32_PATH 0)
     (sample_question\<lparr>ca_address_parameters := Some [11, 0, 0, 0, 0]\<rparr>) = None"
proof -
  have "length (cstring (hex_string (replicate 20 1) @ [0])) = 40"
    by (simp add: cstring_nul_free hex_string_nul_free)
  then show ?thesis
    using check_address_long_path_faults [where k = ref_sdk and stack_path = "replicate MAX_BIP32_PATH 0"
        and params = "sample_question\<lparr>ca_address_parameters := Some [11, 0, 0, 0, 0]\<rparr>" and n = 11 and p = "[0, 0, 0, 0]"]
    by (simp add: sample_question_def MAX_BIP32_PATH_def)
qed

text \<open>C30. An amount is printed as its decimal text, a blank and the ticker, cut to the size of the
  output array; an amount of more than eight bytes or a configuration that does not parse prints
  nothing. In the native currency nothing is cut, and the amount can be read back from the digits
  printed. (Assumed of a configuration: at least one decimal, and an amount that fits the buffer of
  30 characters; with up to 8 decimals every amount does, by lemma few_decimals_fit.)\<close>

theorem printable_amount_exact:
  assumes "swap_ok W" and "26 \<le> MAX_PRINTABLE_AMOUNT_SIZE W" and "gp_amount params = Some a"
    and "unat (gp_amount_length params) \<le> length a"
    and "case printed_currency W params of
           None \<Rightarrow> True
         | Some (t, d) \<Rightarrow> 1 \<le> d \<and> (unat (gp_amount_length params) \<le> 8 \<longrightarrow>
             fpu_fits 30 (number_at (gp_amount params) (gp_amount_length params)) (unat d))"
  shows "\<exists>b. swap_handle_get_printable_amount W params = Some (params\<lparr>gp_printable_amount := b\<rparr>) \<and>
     cstring b =
       (case printed_currency W params of
          None \<Rightarrow> []
        | Some (t, d) \<Rightarrow>
            if unat (gp_amount_length params) \<le> 8
            then take (MAX_PRINTABLE_AMOUNT_SIZE W - 1)
                   (fpu_text (number_at (gp_amount params) (gp_amount_length params)) (unat d) @ 32 # t)
            else []) \<and>
     (printed_currency W params = Some (ascii ''BOL'', EXPONENT_SMALLEST_UNIT) \<and>
      unat (gp_amount_length params) \<le> 8 \<longrightarrow>
        dec_val (filter is_digit (cstring b)) = number_at (gp_amount params) (gp_amount_length params))"
proof (cases "unat (gp_amount_length params) \<le> 8 \<and> printed_currency W params \<noteq> None")
  case False
  then show ?thesis using print_nothing [OF assms(1) _ assms(3,4) False] assms(2)
    by (auto split: option.split)
next
  case True
  then obtain t d where c: "printed_currency W params = Some (t, d)" and n: "unat (gp_amount_length params) \<le> 8" by auto
  let ?v = "be_val (take (unat (gp_amount_length params)) a)"
  have v: "unat (of_nat ?v :: u64) = ?v" using n by (intro unat_be_val) simp
  have d: "1 \<le> d" "fpu_fits 30 ?v (unat d)" using assms(3,5) c n by (simp_all add: number_at_def)
  obtain m where f: "format_fpu64 W 30 (of_nat ?v) d = (True, fpu_text ?v (unat d) @ zeros m)"
    using format_fpu64_ok [OF assms(1) d(1), of 30 "of_nat ?v"] v d(2) by metis
  then have out: "snd (format_fpu64 W 30 (of_nat ?v) d) = fpu_text ?v (unat d) @ zeros m" by simp
  have "length (fpu_text ?v (unat d)) + m \<le> 30" using format_fpu64_fits [OF assms(1), of 30 "of_nat ?v" d] out by simp
  moreover have "length (fpu_text ?v (unat d)) < 30" using d(2) by (simp add: fpu_fits_def)
  ultimately have z: "zeros m @ zeros (30 - (length (fpu_text ?v (unat d)) + m)) = 0 # zeros (29 - length (fpu_text ?v (unat d)))"
    by (simp add: zeros_def replicate_add [symmetric] replicate_Suc [symmetric] del: replicate_Suc)
  have "0 < MAX_PRINTABLE_AMOUNT_SIZE W" using assms(2) by simp
  from print_amount [OF assms(1) this assms(3,4) n c out] obtain b where
    b: "swap_handle_get_printable_amount W params = Some (params\<lparr>gp_printable_amount := b\<rparr>)"
      "cstring b = take (MAX_PRINTABLE_AMOUNT_SIZE W - 1) (fpu_text ?v (unat d) @ 32 # t)"
    by (auto simp: z cstring_nul_free fpu_text_nul_free)
  moreover have "dec_val (filter is_digit (cstring b)) = ?v" if "(t, d) = (ascii ''BOL'', 3)"
    using native_read_back [of "MAX_PRINTABLE_AMOUNT_SIZE W" "of_nat ?v"] that v b(2) assms(2) by simp
  ultimately show ?thesis using c n assms(3) by (auto simp: number_at_def)
qed

theorem printable_amount_exact_witness:
  "\<exists>params'. swap_handle_get_printable_amount ref_swap_lib
      \<lparr>gp_coin_configuration = None, gp_coin_configuration_length = 0, gp_amount = Some [1, 0],
       gp_amount_length = 2, gp_is_fee = True, gp_printable_amount = zeros 50\<rparr> = Some params' \<and>
     cstring (gp_printable_amount params') = ascii ''0.256 BOL''"
proof -
  let ?p = "\<lparr>gp_coin_configuration = None, gp_coin_configuration_length = 0, gp_amount = Some [1, 0],
       gp_amount_length = 2, gp_is_fee = True, gp_printable_amount = zeros 50\<rparr>"
  have c: "printed_currency ref_swap_lib ?p = Some (ascii ''BOL'', 3)" by (simp add: printed_currency_def)
  have t: "fpu_text (number_at (Some [1, 0]) 2) (unat (3 :: u8)) @ 32 # ascii ''BOL'' = ascii ''0.256 BOL''"
    by (simp add: number_at_def be_val_def fpu_text_def dec_digits.simps digit_char_def ascii_def)
  have m: "MAX_PRINTABLE_AMOUNT_SIZE ref_swap_lib = 50" by (simp add: ref_swap_lib_def)
  have f: "fpu_fits 30 (number_at (Some [1, 0]) 2) 3"
    by (simp add: fpu_fits_def number_at_def be_val_def fpu_text_def dec_digits.simps digit_char_def)
  from printable_amount_exact [of ref_swap_lib ?p "[1, 0]"] c m t f show ?thesis
    by (auto simp: ascii_def)
qed

text \<open>Once amount and currency are read the output is never empty, also when \<open>format_fpu64\<close> fails:
  whatever it left in the buffer is printed before the ticker, or the scan for its end leaves the
  buffer.\<close>

theorem format_verdict_ignored:
  assumes "swap_ok W" and "2 \<le> MAX_PRINTABLE_AMOUNT_SIZE W" and "gp_amount params = Some a"
    and "unat (gp_amount_length params) \<le> length a" and "unat (gp_amount_length params) \<le> 8"
    and "printed_currency W params = Some (t, d)"
  shows "swap_handle_get_printable_amount W params = None \<or>
     (\<exists>b. swap_handle_get_printable_amount W params = Some (params\<lparr>gp_printable_amount := b\<rparr>) \<and> cstring b \<noteq> [])"
proof -
  let ?v = "of_nat (be_val (take (unat (gp_amount_length params)) a)) :: u64"
  obtain out where out: "snd (format_fpu64 W 30 ?v d) = out" by blast
  show ?thesis
  proof (cases "terminated (out @ zeros (30 - length out))")
    case True
    have "0 < MAX_PRINTABLE_AMOUNT_SIZE W" using assms(2) by simp
    from print_amount [OF assms(1) this assms(3-6) out True] obtain b where
      "swap_handle_get_printable_amount W params = Some (params\<lparr>gp_printable_amount := b\<rparr>)"
      "cstring b = take (MAX_PRINTABLE_AMOUNT_SIZE W - 1) (cstring (out @ zeros (30 - length out)) @ 32 # t)" by blast
    moreover from this(2) have "cstring b \<noteq> []" using assms(2) by simp
    ultimately show ?thesis by blast
  next
    case False
    have "length out \<le> 30" using format_fpu64_fits [OF assms(1)] out by blast
    then have w: "mem_write (zeros 30) 0 out = Some (out @ zeros (30 - length out))" by (simp add: mem_write_start)
    obtain ticker where "amount_currency W params = Some (Some (ticker, d))"
      using amount_currency_ok [OF assms(1), of params] assms(6) by auto
    moreover obtain ok where "format_fpu64 W 30 ?v d = (ok, out)" using out by (metis prod.collapse)
    ultimately show ?thesis using w assms(3-5) False
      by (simp add: swap_handle_get_printable_amount_def swap_str_to_u64_ok [OF assms(1)] strlen_terminated)
  qed
qed

end
