(* ===== verification/Swap_Sign.thy ===== *)
theory Swap_Sign
  imports Swap_Queries Sign_Tx
begin

text \<open>
  The parts of \<^verbatim>\<open>handler/sign_tx.c\<close> under \<^verbatim>\<open>HAVE_SWAP\<close>: in an exchange the email is not shown again,
  but checked against what the user agreed to, signed, and the application ends.

  The code reads two members of the transaction, \<^verbatim>\<open>value\<close> and \<^verbatim>\<open>fee\<close>, that \<open>email_t\<close> does not have;
  they are parameters here. The destination it checks is the 20 bytes at the \<open>to\<close> pointer.

  An operation that may end the application returns the state and either how it ended or its
  return value. When \<open>G_swap_response_ready\<close> is set the SDK leaves the application with the next
  response; \<open>validate_transaction\<close> sends one and does nothing after it, so that is not modelled
  apart from the exit that follows.
\<close>

section \<open>The code\<close>

definition lift_app :: "swap_state \<Rightarrow> result \<Rightarrow> (swap_state \<times> (swap_end + int)) option" where
  "lift_app w r = map_option (\<lambda>(n, s). (w\<lparr>sw_app := s\<rparr>, Inr n)) r"

definition check_and_sign_swap_tx ::
  "sdk \<Rightarrow> (email_t \<Rightarrow> u64) \<Rightarrow> (email_t \<Rightarrow> u64) \<Rightarrow> swap_state \<Rightarrow> (swap_state \<times> swap_end) option" where
  "check_and_sign_swap_tx k tx_value tx_fee w =
     (if G_swap_response_ready w then Some (w, Sched_exit (-1))
      else do {
        let w = w\<lparr>G_swap_response_ready := True\<rparr>;
        let t = tx_info (G_context (sw_app w));
        let tx = transaction t;
        valid \<leftarrow> swap_check_validity k (tx_value tx) (tx_fee tx)
                   (map_option (\<lambda>p. drop p (raw_tx t)) (tx_to tx)) (token_info t) w;
        case valid of
          Inl ending \<Rightarrow> Some (w, ending)
        | Inr ok \<Rightarrow>
            if ok
            then do {
              s \<leftarrow> validate_transaction k True (sw_app w);
              Some (w\<lparr>sw_app := s\<rparr>, Sched_exit 0)
            }
            else Some (w, Sched_exit 0)
      })"

text \<open>\<open>handler_sign_tx\<close> of the build with \<^verbatim>\<open>HAVE_SWAP\<close>.\<close>

definition handler_sign_tx_swap ::
  "sdk \<Rightarrow> (email_t \<Rightarrow> u64) \<Rightarrow> (email_t \<Rightarrow> u64) \<Rightarrow> buffer_t \<Rightarrow> u8 \<Rightarrow> bool \<Rightarrow> bool \<Rightarrow> swap_state \<Rightarrow>
   (swap_state \<times> (swap_end + int)) option" where
  "handler_sign_tx_swap k tx_value tx_fee cdata chunk more_chunks is_token w =
     (let rt = (if is_token then CONFIRM_TOKEN_TRANSACTION else CONFIRM_TRANSACTION) in
      if chunk = 0 then lift_app w (init_transaction_context k cdata rt (sw_app w))
      else do {
        (err, s) \<leftarrow> accumulate_transaction_data k cdata rt (sw_app w);
        if err \<noteq> SWO_SUCCESS then lift_app w (io_send_sw k err s)
        else if more_chunks then lift_app w (io_send_sw k SWO_SUCCESS s)
        else do {
          (err, s) \<leftarrow> process_transaction k is_token s;
          if err \<noteq> SWO_SUCCESS
          then if G_called_from_swap w
               then Some (w\<lparr>sw_app := s\<rparr>, Inl (Swap_error SW_SWAP_FAIL SWAP_EC_ERROR_GENERIC SWAP_ERROR_CODE))
               else lift_app w (io_send_sw k err s)
          else if G_called_from_swap w
          then do {
            (w, ending) \<leftarrow> check_and_sign_swap_tx k tx_value tx_fee (w\<lparr>sw_app := s\<rparr>);
            Some (w, Inl ending)
          }
          else lift_app w (ui_display_transaction k s)
        }
      })"

text \<open>The build with exchange support handles a chunk like the build without it when it is not called
  from the exchange application.\<close>

lemma handler_equivalent:
  assumes "\<not> G_called_from_swap w"
  shows "handler_sign_tx_swap k tx_value tx_fee b chunk more_chunks tok w =
     lift_app w (handler_sign_tx k b chunk more_chunks tok (sw_app w))"
  using assms
  by (auto simp: handler_sign_tx_swap_def handler_sign_tx_def Let_def lift_app_def split: Option.bind_splits)

section \<open>The check and the signature\<close>

text \<open>What ends an exchange: a second transaction, an error that names what is broken, or the
  signature. The 20 bytes of the destination lie inside the payload's object.\<close>

definition promise_kept ::
  "swap_validated_t \<Rightarrow> (email_t \<Rightarrow> u64) \<Rightarrow> (email_t \<Rightarrow> u64) \<Rightarrow> email_t \<Rightarrow> bytes \<Rightarrow> bool" where
  "promise_kept V tx_value tx_fee tx address \<longleftrightarrow>
     sv_initialized V \<and> native V \<and> sv_amount V = tx_value tx \<and> sv_fee V = tx_fee tx \<and>
     cstring (sv_recipient V) = hex_string address"

lemma keeps_promise_native:
  "\<not> is_token_tx (tx_info (G_context (sw_app w))) \<Longrightarrow>
   keeps_promise w (tx_value tx) (tx_fee tx) address tinfo = promise_kept (G_swap_validated w) tx_value tx_fee tx address"
  by (simp add: keeps_promise_def promise_kept_def Let_def)

lemma justified_error: "justified w amount fee address tinfo e \<Longrightarrow> \<exists>ec code. e = Swap_error SW_SWAP_FAIL ec code"
  by (auto simp: justified_def Let_def split: swap_end.splits)

lemma check_and_sign_exact:
  assumes k: "sdk_ok k" and s: "state_wf (sw_app w)" and V: "validated_wf (G_swap_validated w)"
    and tok: "\<not> is_token_tx (tx_info (G_context (sw_app w)))"
    and p: "tx_to (transaction (tx_info (G_context (sw_app w)))) = Some p" "p + ADDRESS_LEN \<le> MAX_TRANSACTION_LEN"
    and fresh: "\<not> G_swap_response_ready w"
  defines "t \<equiv> tx_info (G_context (sw_app w))"
  shows "if \<not> promise_kept (G_swap_validated w) tx_value tx_fee (transaction t) (take ADDRESS_LEN (drop p (raw_tx t)))
     then \<exists>ec code. check_and_sign_swap_tx k tx_value tx_fee w =
            Some (w\<lparr>G_swap_response_ready := True\<rparr>, Swap_error SW_SWAP_FAIL ec code)
     else if \<not> path_ok (sw_app w) then check_and_sign_swap_tx k tx_value tx_fee w = None
     else \<exists>s'. check_and_sign_swap_tx k tx_value tx_fee w =
            Some (w\<lparr>G_swap_response_ready := True, sw_app := s'\<rparr>, Sched_exit 0) \<and>
          same_review (sw_app w) s' \<and>
          sent s' = sent (sw_app w) @ [sign_answer k (signing_path (G_context (sw_app w))) (m_hash t)]"
proof -
  let ?w = "w\<lparr>G_swap_response_ready := True\<rparr>" and ?m = "drop p (raw_tx t)"
  have C: "crypto_ok (sdk_crypto k)" and F: "format_ok (sdk_format k)" using k by (simp_all add: sdk_ok_def)
  have D: "dynamic_wf (g_dynamic_token_info (sw_app ?w))" and G: "context_wf (G_context (sw_app w))"
    using s by (simp_all add: state_wf_def)
  have m: "20 \<le> length ?m" using p(2) G by (simp add: t_def context_wf_def)
  have "if promise_kept (G_swap_validated w) tx_value tx_fee (transaction t) (take 20 ?m)
    then swap_check_validity k (tx_value (transaction t)) (tx_fee (transaction t)) (Some ?m) (token_info t) ?w = Some (Inr True)
    else \<exists>ec code. swap_check_validity k (tx_value (transaction t)) (tx_fee (transaction t)) (Some ?m) (token_info t) ?w =
      Some (Inl (Swap_error SW_SWAP_FAIL ec code))"
    using check_validity_ok [OF F _ D _ m, of "token_info t" "tx_value (transaction t)" "tx_fee (transaction t)"] V tok
      keeps_promise_native [of ?w tx_value "transaction t" tx_fee] justified_error by (fastforce split: if_splits)
  moreover have "check_and_sign_swap_tx k tx_value tx_fee w = do {
      valid \<leftarrow> swap_check_validity k (tx_value (transaction t)) (tx_fee (transaction t)) (Some ?m) (token_info t) ?w;
      case valid of Inl e \<Rightarrow> Some (?w, e)
      | Inr x \<Rightarrow> if x then do { s \<leftarrow> validate_transaction k True (sw_app w); Some (?w\<lparr>sw_app := s\<rparr>, Sched_exit 0) }
          else Some (?w, Sched_exit 0) }"
    using fresh p(1) by (simp add: check_and_sign_swap_tx_def t_def Let_def cong: sum.case_cong if_cong)
  moreover have "if path_ok (sw_app w)
    then \<exists>s'. validate_transaction k True (sw_app w) = Some s' \<and> same_review (sw_app w) s' \<and>
      sent s' = sent (sw_app w) @ [sign_answer k (signing_path (G_context (sw_app w))) (m_hash t)]
    else validate_transaction k True (sw_app w) = None"
    using validate_transaction_approve [OF C G] validate_transaction_long_path [OF G] by (auto simp: path_ok_def t_def not_le)
  ultimately show ?thesis by (auto split: if_splits)
qed

section \<open>A chunk in an exchange\<close>

text \<open>What an exchange needs of the state, whatever the host has sent.\<close>

definition exchange_ready :: "swap_state \<Rightarrow> bool" where
  "exchange_ready w \<longleftrightarrow> state_wf (sw_app w) \<and> validated_wf (G_swap_validated w) \<and> G_called_from_swap w"

abbreviation (input) "extended b s \<equiv> (s :: app_state)\<lparr>G_context := extend_context (buf_rest b) (G_context s)\<rparr>"
abbreviation (input) "request_of tok \<equiv> (if tok then CONFIRM_TOKEN_TRANSACTION else CONFIRM_TRANSACTION)"

text \<open>The last chunk of a request, after it was appended.\<close>

definition last_chunk_swap ::
  "sdk \<Rightarrow> (email_t \<Rightarrow> u64) \<Rightarrow> (email_t \<Rightarrow> u64) \<Rightarrow> bool \<Rightarrow> app_state \<Rightarrow> swap_state \<Rightarrow> (swap_state \<times> swap_end) option" where
  "last_chunk_swap k tx_value tx_fee tok s w = do {
     (err, s) \<leftarrow> process_transaction k tok s;
     if err \<noteq> SWO_SUCCESS
     then Some (w\<lparr>sw_app := s\<rparr>, Swap_error SW_SWAP_FAIL SWAP_EC_ERROR_GENERIC SWAP_ERROR_CODE)
     else check_and_sign_swap_tx k tx_value tx_fee (w\<lparr>sw_app := s\<rparr>)
   }"

lemma handler_later_chunk:
  assumes k: "sdk_ok k" and w: "exchange_ready w" and b: "buf_wf b" "buf_offset b = 0" and chunk: "chunk \<noteq> 0"
  shows "handler_sign_tx_swap k tx_value tx_fee b chunk more_chunks tok w =
     (let s = sw_app w in
      if req_type (G_context s) \<noteq> request_of tok then lift_app w (io_send_sw k SWO_CONDITIONS_NOT_SATISFIED s)
      else if raw_tx_len (tx_info (G_context s)) + length (buf_rest b) > MAX_TRANSACTION_LEN
      then lift_app w (io_send_sw k SWO_WRONG_DATA_LENGTH s)
      else if more_chunks then lift_app w (io_send_sw k SWO_SUCCESS (extended b s))
      else map_option (map_prod id Inl) (last_chunk_swap k tx_value tx_fee tok (extended b s) w))"
proof -
  have "buffer_ok (sdk_buffer k)" "context_wf (G_context (sw_app w))" "G_called_from_swap w"
    using k w by (simp_all add: sdk_ok_def exchange_ready_def state_wf_def)
  with accumulate_ok [OF _ b] chunk show ?thesis
    by (auto simp: handler_sign_tx_swap_def last_chunk_swap_def Let_def split: Option.bind_splits)
qed

text \<open>A chunk that does not end the application is answered without data.\<close>

definition answered_chunk :: "swap_state \<Rightarrow> global_ctx_t \<Rightarrow> u16 \<Rightarrow> swap_state" where
  "answered_chunk w G sw = w\<lparr>sw_app := (sw_app w)\<lparr>G_context := G, sent := sent (sw_app w) @ [sw_answer sw]\<rparr>\<rparr>"

lemma lift_send: "lift_app w (io_send_sw k sw ((sw_app w)\<lparr>G_context := G\<rparr>)) = Some (w', Inr n) \<Longrightarrow> w' = answered_chunk w G sw"
  by (auto simp: lift_app_def io_send_sw_eq sw_answer_def answered_chunk_def)

lemma first_chunk_swap:
  assumes k: "sdk_ok k" and b: "buf_wf b"
  shows "\<exists>G sw n. handler_sign_tx_swap k tx_value tx_fee b 0 more_chunks tok w = Some (answered_chunk w G sw, Inr n) \<and>
     context_wf G \<and> (path_request (buf_rest b) \<noteq> None \<longrightarrow> unat (bip32_path_len G) \<le> MAX_BIP32_PATH)"
proof -
  have B: "buffer_ok (sdk_buffer k)" using k by (simp add: sdk_ok_def)
  from init_transaction_context_ok [OF B b, of "request_of tok" "sw_app w"] obtain r m p where
    "length p = MAX_BIP32_PATH" and i: "init_transaction_context k b (request_of tok) (sw_app w) =
      Some (r, (sw_app w)\<lparr>G_context := path_context (request_of tok) m p,
        sent := sent (sw_app w) @ [sw_answer (if path_request (buf_rest b) = None then SWO_WRONG_DATA_LENGTH else SWO_SUCCESS)]\<rparr>)"
    "\<forall>path. path_request (buf_rest b) = Some path \<longrightarrow> unat m \<le> MAX_BIP32_PATH \<and> take (unat m) p = path" by blast
  then have "context_wf (path_context (request_of tok) m p)" by (intro path_context_wf)
  moreover have "bip32_path_len (path_context (request_of tok) m p) = m" by (simp add: path_context_def)
  ultimately show ?thesis using i
    by (intro exI [of _ "path_context (request_of tok) m p"]) (auto simp: handler_sign_tx_swap_def lift_app_def answered_chunk_def)
qed

lemma chunk_goes_on:
  assumes k: "sdk_ok k" and w: "exchange_ready w" and b: "buf_wf b" "buf_offset b = 0"
    and run: "handler_sign_tx_swap k tx_value tx_fee b chunk more_chunks tok w = Some (w', Inr n)"
  shows "\<exists>G sw. w' = answered_chunk w G sw \<and> context_wf G \<and>
     (chunk = 0 \<longrightarrow> path_request (buf_rest b) \<noteq> None \<longrightarrow> unat (bip32_path_len G) \<le> MAX_BIP32_PATH) \<and>
     (chunk \<noteq> 0 \<longrightarrow> bip32_path_len G = bip32_path_len (G_context (sw_app w)))"
proof (cases "chunk = 0")
  case True
  then show ?thesis using first_chunk_swap [OF k b(1), of tx_value tx_fee more_chunks tok w] run by auto
next
  case False
  let ?s = "sw_app w"
  have G: "context_wf (G_context ?s)" using w by (simp add: exchange_ready_def state_wf_def)
  consider (refused) sw where "lift_app w (io_send_sw k sw (?s\<lparr>G_context := G_context ?s\<rparr>)) = Some (w', Inr n)"
    | (stored) "raw_tx_len (tx_info (G_context ?s)) + length (buf_rest b) \<le> 2600"
        "lift_app w (io_send_sw k SWO_SUCCESS (extended b ?s)) = Some (w', Inr n)"
    using run by (auto simp: handler_later_chunk [OF k w b False] Let_def split: if_splits)
  then show ?thesis
  proof cases
    case (refused sw)
    then show ?thesis using lift_send [OF refused] G False by auto
  next
    case stored
    then show ?thesis using lift_send [OF stored(2)] extend_context_wf [OF G stored(1)] False by fastforce
  qed
qed

text \<open>The payload of the last chunk, its fields and its digest.\<close>

lemma recipient_inside: "wf_email e \<Longrightarrow> recipient_offset e + ADDRESS_LEN \<le> MAX_TRANSACTION_LEN"
  by (simp add: wf_email_def text_field_wf_def recipient_offset_def)

lemma last_chunk_exact:
  assumes k: "sdk_ok k" and w: "exchange_ready w" and s: "s = extended b (sw_app w)"
    and fits: "raw_tx_len (tx_info (G_context (sw_app w))) + length (buf_rest b) \<le> MAX_TRANSACTION_LEN"
    and hash: "cx_hash_sha256 (sdk_crypto k) (payload (sw_app w) @ buf_rest b) 32 = (n, h)"
  shows "case (if n = 32 then parse_email (payload (sw_app w) @ buf_rest b) else Inl WRONG_LENGTH_ERROR) of
     Inl _ \<Rightarrow> \<exists>s'. last_chunk_swap k tx_value tx_fee tok s w =
         Some (w\<lparr>sw_app := s'\<rparr>, Swap_error SW_SWAP_FAIL SWAP_EC_ERROR_GENERIC SWAP_ERROR_CODE) \<and> sent s' = sent (sw_app w)
   | Inr e \<Rightarrow> \<exists>tx. email_view (raw_tx (tx_info (G_context s))) tx = e \<and> tx_to tx = Some (recipient_offset e) \<and>
       last_chunk_swap k tx_value tx_fee tok s w =
         check_and_sign_swap_tx k tx_value tx_fee (w\<lparr>sw_app := s\<lparr>G_context := parsed_context tx h (G_context s)\<rparr>\<rparr>) \<and>
       state_wf (s\<lparr>G_context := parsed_context tx h (G_context s)\<rparr>)"
proof -
  have B: "buffer_ok (sdk_buffer k)" and C: "crypto_ok (sdk_crypto k)" using k by (simp_all add: sdk_ok_def)
  have wf: "state_wf (sw_app w)" and G: "context_wf (G_context (sw_app w))" using w by (simp_all add: exchange_ready_def state_wf_def)
  have G1: "context_wf (G_context s)" using extend_context_wf [OF G fits] s by simp
  have p: "payload s = payload (sw_app w) @ buf_rest b" unfolding s by (rule payload_extend [OF G])
  have "length h = 32" using C hash unfolding crypto_ok_def by (metis snd_conv)
  then have "state_wf (s\<lparr>G_context := parsed_context tx h (G_context s)\<rparr>)" for tx
    using state_wf_context [OF wf parsed_context_wf [OF G1]] s by simp
  with process_transaction_ok [OF B C G1, unfolded p, OF hash, of tok] s show ?thesis
    by (auto simp: last_chunk_swap_def split: sum.splits if_splits)
qed

lemma parsed_swap_state:
  fixes w b tx h
  defines "s \<equiv> extended b (sw_app w)"
  defines "v \<equiv> w\<lparr>sw_app := s\<lparr>G_context := parsed_context tx h (G_context s)\<rparr>\<rparr>"
  shows "\<not> is_token_tx (tx_info (G_context (sw_app v)))" "transaction (tx_info (G_context (sw_app v))) = tx"
    "raw_tx (tx_info (G_context (sw_app v))) = raw_tx (tx_info (G_context s))" "m_hash (tx_info (G_context (sw_app v))) = h"
    "signing_path (G_context (sw_app v)) = signing_path (G_context (sw_app w))" "sent (sw_app v) = sent (sw_app w)"
    "G_swap_validated v = G_swap_validated w" "G_swap_response_ready v = G_swap_response_ready w"
  by (simp_all add: v_def s_def parsed_context_def signing_path_def)

lemma payload_swap:
  assumes "exchange_ready w"
    and "same_review ((extended b (sw_app w))\<lparr>G_context := parsed_context tx h (extend_context (buf_rest b) (G_context (sw_app w)))\<rparr>) s'"
  shows "payload s' = payload (sw_app w) @ buf_rest b"
  using assms payload_extend [of "sw_app w" "buf_rest b"]
  by (simp add: exchange_ready_def state_wf_def same_review_def payload_def parsed_context_def)

text \<open>How a message ends the exchange: signed exactly when the promise is kept.\<close>

definition message_ends ::
  "(email_t \<Rightarrow> u64) \<Rightarrow> (email_t \<Rightarrow> u64) \<Rightarrow> sdk \<Rightarrow> swap_state \<Rightarrow> bytes \<Rightarrow> bytes \<Rightarrow> email \<Rightarrow> swap_state \<Rightarrow> swap_end \<Rightarrow> bool" where
  "message_ends tx_value tx_fee k w pl h e w' ending \<longleftrightarrow>
     payload (sw_app w') = pl \<and> G_swap_response_ready w' \<and>
     (let t = tx_info (G_context (sw_app w')) in
        email_view (raw_tx t) (transaction t) = e \<and>
        (if promise_kept (G_swap_validated w) tx_value tx_fee (transaction t) (take ADDRESS_LEN (drop (recipient_offset e) (raw_tx t)))
         then ending = Sched_exit 0 \<and> sent (sw_app w') = sent (sw_app w) @ [sign_answer k (signing_path (G_context (sw_app w))) h]
         else sent (sw_app w') = sent (sw_app w) \<and> (\<exists>ec code. ending = Swap_error SW_SWAP_FAIL ec code)))"

lemma last_chunk_message:
  fixes tx_value tx_fee :: "email_t \<Rightarrow> u64" and tok :: bool
  assumes k: "sdk_ok k" and w: "exchange_ready w" "\<not> G_swap_response_ready w"
    and fits: "raw_tx_len (tx_info (G_context (sw_app w))) + length (buf_rest b) \<le> MAX_TRANSACTION_LEN"
    and hash: "cx_hash_sha256 (sdk_crypto k) (payload (sw_app w) @ buf_rest b) 32 = (32, h)"
    and e: "parse_email (payload (sw_app w) @ buf_rest b) = Inr e"
  defines "r \<equiv> last_chunk_swap k tx_value tx_fee tok (extended b (sw_app w)) w"
  shows "r = Some (w', ending) \<Longrightarrow> message_ends tx_value tx_fee k w (payload (sw_app w) @ buf_rest b) h e w' ending"
    and "path_ok (sw_app w) \<Longrightarrow> r \<noteq> None"
proof -
  let ?s = "extended b (sw_app w)"
  from last_chunk_exact [OF k w(1) refl fits hash, of tx_value tx_fee tok] e obtain tx where
    tx: "email_view (raw_tx (tx_info (G_context ?s))) tx = e" "tx_to tx = Some (recipient_offset e)"
    "r = check_and_sign_swap_tx k tx_value tx_fee (w\<lparr>sw_app := ?s\<lparr>G_context := parsed_context tx h (G_context ?s)\<rparr>\<rparr>)"
    "state_wf (?s\<lparr>G_context := parsed_context tx h (G_context ?s)\<rparr>)" by (auto simp: r_def)
  let ?w = "w\<lparr>sw_app := ?s\<lparr>G_context := parsed_context tx h (G_context ?s)\<rparr>\<rparr>"
  note t = parsed_swap_state [where w = w and b = b and tx = tx and h = h]
  have in_raw: "recipient_offset e + 20 \<le> 2600" using e recipient_inside by (simp add: parse_email_Inr)
  have V: "validated_wf (G_swap_validated ?w)" using w(1) by (simp add: exchange_ready_def)
  note exact = check_and_sign_exact [OF k _ V t(1), of "recipient_offset e" tx_value tx_fee, unfolded t]
  have "payload (sw_app ?w) = payload (sw_app w) @ buf_rest b"
    using payload_swap [OF w(1), where b = b and tx = tx and h = h and s' = "sw_app ?w"] by (simp add: same_review_def)
  then show "message_ends tx_value tx_fee k w (payload (sw_app w) @ buf_rest b) h e w' ending" if "r = Some (w', ending)"
    using exact tx in_raw w that t payload_swap [OF w(1), where b = b and tx = tx and h = h]
    by (auto simp: message_ends_def same_review_def Let_def split: if_splits)
  have "path_ok (sw_app ?w) = path_ok (sw_app w)" by (simp add: path_ok_def parsed_context_def)
  then show "r \<noteq> None" if "path_ok (sw_app w)" using exact tx in_raw w that by (auto split: if_splits)
qed

text \<open>Every end of an exchange with the application's own response.\<close>

lemma chunk_ends:
  assumes k: "sdk_ok k" and w: "exchange_ready w" and b: "buf_wf b" "buf_offset b = 0"
    and run: "handler_sign_tx_swap k tx_value tx_fee b chunk more_chunks tok w = Some (w', Inl ending)"
    and new: "sent (sw_app w') \<noteq> sent (sw_app w)"
  shows "\<exists>e n h. parse_email (payload (sw_app w) @ buf_rest b) = Inr e \<and>
     cx_hash_sha256 (sdk_crypto k) (payload (sw_app w) @ buf_rest b) 32 = (n, h) \<and>
     message_ends tx_value tx_fee k w (payload (sw_app w) @ buf_rest b) h e w' ending \<and> \<not> G_swap_response_ready w"
proof -
  have "chunk \<noteq> 0" using run first_chunk_swap [OF k b(1), of tx_value tx_fee more_chunks tok w] by auto
  with run have fits: "raw_tx_len (tx_info (G_context (sw_app w))) + length (buf_rest b) \<le> 2600"
    and last: "last_chunk_swap k tx_value tx_fee tok (extended b (sw_app w)) w = Some (w', ending)"
    by (auto simp: handler_later_chunk [OF k w b] Let_def lift_app_def split: if_splits)
  obtain n h where hash: "cx_hash_sha256 (sdk_crypto k) (payload (sw_app w) @ buf_rest b) 32 = (n, h)" by fastforce
  note exact = last_chunk_exact [OF k w refl fits hash, of tx_value tx_fee tok]
  have n: "n = 32" using exact last new by (cases "n = 32") auto
  obtain e where e: "parse_email (payload (sw_app w) @ buf_rest b) = Inr e"
    using exact last new n by (cases "parse_email (payload (sw_app w) @ buf_rest b)") auto
  have "\<not> G_swap_response_ready w" using exact last e n new by (auto simp: check_and_sign_swap_tx_def)
  with last_chunk_message(1) [OF k w this fits hash [unfolded n] e last] e hash show ?thesis by blast
qed

text \<open>With a path that fits, no chunk leaves an object.\<close>

lemma chunk_total:
  assumes k: "sdk_ok k" and w: "exchange_ready w" "path_ok (sw_app w)" and b: "buf_wf b" "buf_offset b = 0"
  shows "handler_sign_tx_swap k tx_value tx_fee b chunk more_chunks tok w \<noteq> None"
proof (cases "chunk = 0")
  case True
  then show ?thesis using first_chunk_swap [OF k b(1), of tx_value tx_fee more_chunks tok w] by auto
next
  case False
  have "last_chunk_swap k tx_value tx_fee tok (extended b (sw_app w)) w \<noteq> None"
    if fits: "raw_tx_len (tx_info (G_context (sw_app w))) + length (buf_rest b) \<le> 2600"
  proof -
    obtain n h where hash: "cx_hash_sha256 (sdk_crypto k) (payload (sw_app w) @ buf_rest b) 32 = (n, h)" by fastforce
    note exact = last_chunk_exact [OF k w(1) refl fits hash, of tx_value tx_fee tok]
    show ?thesis
    proof (cases "n = 32 \<and> \<not> G_swap_response_ready w")
      case True
      then show ?thesis using exact last_chunk_message(2) [OF k w(1) _ fits, where h = h and tx_value = tx_value and tx_fee = tx_fee and tok = tok] hash w(2)
        by (cases "parse_email (payload (sw_app w) @ buf_rest b)") auto
    next
      case False
      then show ?thesis using exact by (auto simp: check_and_sign_swap_tx_def split: sum.splits if_splits)
    qed
  qed
  then show ?thesis by (auto simp: handler_later_chunk [OF k w(1) b False] Let_def lift_app_def io_send_sw_eq)
qed

text \<open>In an exchange the last chunk of a signing request always ends the application, and it is
  signed exactly when the promise is kept. If the payload is no message, the exchange application
  gets the generic error; if it is a message, the fields of the context are the fields of that
  message, and the answer is the signature over the SHA-256 of the payload when the stored
  parameters are in the native currency and agree with the amount, the fee and the 20 bytes at the
  recipient of the message, and otherwise the error that \<open>send_swap_error_simple\<close> reports, which is the
  \<open>swap_end\<close>, with no other response. The 20 bytes are always inside the payload's object.\<close>

lemma last_chunk_decides:
  assumes "sdk_ok k" and "exchange_ready w" and "path_ok (sw_app w)" and "\<not> G_swap_response_ready w"
    and "buf_wf b" and "buf_offset b = 0" and "chunk \<noteq> 0"
    and "req_type (G_context (sw_app w)) = (if tok then CONFIRM_TOKEN_TRANSACTION else CONFIRM_TRANSACTION)"
    and "raw_tx_len (tx_info (G_context (sw_app w))) + length (buf_rest b) \<le> MAX_TRANSACTION_LEN"
    and "cx_hash_sha256 (sdk_crypto k) (payload (sw_app w) @ buf_rest b) 32 = (32, h)"
  shows "\<exists>w' ending. handler_sign_tx_swap k tx_value tx_fee b chunk False tok w = Some (w', Inl ending) \<and>
     (case parse_email (payload (sw_app w) @ buf_rest b) of
        Inl _ \<Rightarrow> ending = Swap_error SW_SWAP_FAIL SWAP_EC_ERROR_GENERIC SWAP_ERROR_CODE \<and> sent (sw_app w') = sent (sw_app w)
      | Inr e \<Rightarrow> payload (sw_app w') = payload (sw_app w) @ buf_rest b \<and>
          (let t = tx_info (G_context (sw_app w')); V = G_swap_validated w in
           email_view (raw_tx t) (transaction t) = e \<and>
           (if promise_kept V tx_value tx_fee (transaction t) (take ADDRESS_LEN (drop (recipient_offset e) (raw_tx t)))
            then ending = Sched_exit 0 \<and> sent (sw_app w') = sent (sw_app w) @ [sign_answer k (signing_path (G_context (sw_app w))) h]
            else sent (sw_app w') = sent (sw_app w) \<and> (\<exists>ec code. ending = Swap_error SW_SWAP_FAIL ec code))))"
proof -
  have handler: "handler_sign_tx_swap k tx_value tx_fee b chunk False tok w =
      map_option (map_prod id Inl) (last_chunk_swap k tx_value tx_fee tok (extended b (sw_app w)) w)"
    using assms(8,9) by (simp add: handler_later_chunk [OF assms(1,2,5-7)] Let_def)
  show ?thesis
  proof (cases "parse_email (payload (sw_app w) @ buf_rest b)")
    case (Inl st)
    then show ?thesis using last_chunk_exact [OF assms(1,2) refl assms(9,10), of tx_value tx_fee tok] handler by auto
  next
    case (Inr e)
    from last_chunk_message [OF assms(1,2,4,9,10) Inr, where tx_value = tx_value and tx_fee = tx_fee and tok = tok] assms(3) obtain w' ending where
      "last_chunk_swap k tx_value tx_fee tok (extended b (sw_app w)) w = Some (w', ending)"
      "message_ends tx_value tx_fee k w (payload (sw_app w) @ buf_rest b) h e w' ending" by auto
    then show ?thesis using handler Inr by (auto simp: message_ends_def Let_def)
  qed
qed

section \<open>Properties\<close>

text \<open>An exchange for evaluation: the context of a session whose path was received, and the promise
  that the sample message keeps. The 20 bytes at its recipient are the last ones of its encoding.\<close>

definition session_start :: app_state where
  "session_start = (boot_state default_nvm)\<lparr>G_context := zero_context\<lparr>req_type := CONFIRM_TRANSACTION\<rparr>\<rparr>"

definition sample_destination :: bytes where
  "sample_destination = take ADDRESS_LEN (drop (recipient_offset sample_email) (encode_email sample_email))"

definition sample_promise :: swap_validated_t where
  "sample_promise = \<lparr>sv_initialized = True, sv_amount = 7, sv_fee = 2,
     sv_recipient = hex_string sample_destination @ [0], sv_decimals = EXPONENT_SMALLEST_UNIT, sv_ticker = BOL @ zeros 46\<rparr>"

definition sample_exchange :: swap_state where
  "sample_exchange = \<lparr>sw_app = session_start, G_swap_validated = sample_promise, G_swap_response_ready = False,
     G_called_from_swap = True\<rparr>"

lemma session_start_simps [simp]:
  "state_wf session_start" "path_ok session_start" "payload session_start = []" "sent session_start = []"
  "req_type (G_context session_start) = CONFIRM_TRANSACTION" "raw_tx_len (tx_info (G_context session_start)) = 0"
  "raw_tx (tx_info (G_context session_start)) = zeros 2600"
  using context_wf_zero
  by (auto simp: session_start_def path_ok_def payload_def context_wf_def zero_tx_info_def intro!: state_wf_context)

lemma sample_destination_inside:
  "recipient_offset sample_email = 24" "length sample_destination = ADDRESS_LEN"
  using length_sample_email by (simp_all add: sample_destination_def recipient_offset_def sample_email_def ascii_def)

lemma sample_promise_wf: "validated_wf sample_promise" and sample_promise_native: "native sample_promise"
  and sample_promise_recipient: "cstring (sv_recipient sample_promise) = hex_string sample_destination"
  using sample_destination_inside(2)
  by (simp_all add: sample_promise_def validated_wf_def native_def ascii_BOL cstring_nul_free hex_string_nul_free)

lemma sample_exchange_ready:
  "exchange_ready sample_exchange" "\<not> G_swap_response_ready sample_exchange" "sw_app sample_exchange = session_start"
  "G_swap_validated sample_exchange = sample_promise"
  using sample_promise_wf by (simp_all add: sample_exchange_def exchange_ready_def)

lemma sample_payload:
  "wf_email sample_email" "parse_email (encode_email sample_email) = Inr sample_email"
  using wf_sample_email by (simp_all add: parse_email_Inr)

lemma destination_of_payload:
  assumes "payload s = encode_email sample_email"
  shows "take ADDRESS_LEN (drop (recipient_offset sample_email) (raw_tx (tx_info (G_context s)))) = sample_destination"
proof -
  let ?n = "raw_tx_len (tx_info (G_context s))" and ?raw = "raw_tx (tx_info (G_context s))"
  have "44 \<le> ?n" using arg_cong [OF assms, of length] length_sample_email by (simp add: payload_def)
  then have "take 20 (drop 24 ?raw) = take 20 (drop 24 (take ?n ?raw))" by (simp add: drop_take min_def)
  then show ?thesis using assms sample_destination_inside(1) by (simp add: payload_def sample_destination_def)
qed

lemma sample_promise_signed:
  assumes "message_ends (\<lambda>_. 7) (\<lambda>_. 2) ref_sdk sample_exchange (encode_email sample_email) h sample_email w' ending"
  shows "ending = Sched_exit 0" and "\<exists>r. sent (sw_app w') = [r] \<and> resp_data r \<noteq> []"
proof -
  have "promise_kept sample_promise (\<lambda>_. 7) (\<lambda>_. 2) tx sample_destination" for tx
    using sample_promise_native sample_promise_recipient by (simp add: promise_kept_def sample_promise_def)
  moreover have "payload (sw_app w') = encode_email sample_email" using assms by (simp add: message_ends_def)
  note destination_of_payload [OF this]
  moreover have "resp_data (sign_answer ref_sdk q d) \<noteq> []" for q d by (simp add: sign_answer_def ref_crypto_lib_def)
  ultimately show "ending = Sched_exit 0" and "\<exists>r. sent (sw_app w') = [r] \<and> resp_data r \<noteq> []"
    using assms sample_exchange_ready(3,4) by (auto simp: message_ends_def Let_def split: if_splits)
qed

lemma sample_signed:
  obtains w' r where "handler_sign_tx_swap ref_sdk (\<lambda>_. 7) (\<lambda>_. 2) (payload_buffer (encode_email sample_email)) 1 False False
      sample_exchange = Some (w', Inl (Sched_exit 0))"
    and "sent (sw_app w') = [r]" and "resp_data r \<noteq> []"
proof -
  let ?b = "payload_buffer (encode_email sample_email)"
  obtain h where hash: "cx_hash_sha256 (sdk_crypto ref_sdk) (payload (sw_app sample_exchange) @ buf_rest ?b) 32 = (32, h)"
    by (simp add: ref_crypto_lib_def)
  have e: "parse_email (payload (sw_app sample_exchange) @ buf_rest ?b) = Inr sample_email"
    and fits: "raw_tx_len (tx_info (G_context (sw_app sample_exchange))) + length (buf_rest ?b) \<le> 2600"
    using sample_payload(2) length_sample_email by (simp_all add: sample_exchange_ready(3))
  from last_chunk_message [OF ref_sdk_ok sample_exchange_ready(1,2) fits hash e, where tx_value = "\<lambda>_. 7" and tx_fee = "\<lambda>_. 2" and tok = False]
  obtain w' ending where w': "last_chunk_swap ref_sdk (\<lambda>_. 7) (\<lambda>_. 2) False (extended ?b session_start) sample_exchange = Some (w', ending)"
    "message_ends (\<lambda>_. 7) (\<lambda>_. 2) ref_sdk sample_exchange (encode_email sample_email) h sample_email w' ending"
    by (auto simp: sample_exchange_ready(3))
  have "handler_sign_tx_swap ref_sdk (\<lambda>_. 7) (\<lambda>_. 2) ?b 1 False False sample_exchange = Some (w', Inl ending)"
    using w'(1) fits handler_later_chunk [OF ref_sdk_ok sample_exchange_ready(1), of ?b 1 "\<lambda>_. 7" "\<lambda>_. 2" False False]
    by (simp add: Let_def sample_exchange_ready(3))
  then show thesis using sample_promise_signed [OF w'(2)] that by auto
qed

text \<open>C18. In an exchange the application signs only what was promised, and once. Whatever chunk of a
  signing request it handles while it is called from the exchange application, a response with
  data means: the whole payload received is a well-formed message, the parameters were stored, the
  exchange is in the native currency, the amount, the fee and the 20 bytes at the recipient of the
  message are the stored ones, no transaction was answered before, the response is the signature
  over the SHA-256 of exactly that payload, and the application ends.\<close>

theorem exchange_signs_only_the_promise:
  assumes "sdk_ok k" and "exchange_ready w" and "buf_wf b" and "buf_offset b = 0"
    and "handler_sign_tx_swap k tx_value tx_fee b chunk more_chunks tok w = Some (w', r)"
    and "sent (sw_app w') \<noteq> sent (sw_app w)" and "resp_data (last (sent (sw_app w'))) \<noteq> []"
  shows "\<exists>e. wf_email e \<and> payload (sw_app w) @ buf_rest b = encode_email e \<and> payload (sw_app w') = encode_email e \<and>
     (let V = G_swap_validated w; t = tx_info (G_context (sw_app w')); tx = transaction t in
        email_view (raw_tx t) tx = e \<and> sv_initialized V \<and> native V \<and>
        sv_amount V = tx_value tx \<and> sv_fee V = tx_fee tx \<and>
        cstring (sv_recipient V) = hex_string (take ADDRESS_LEN (drop (recipient_offset e) (raw_tx t)))) \<and>
     sent (sw_app w') = sent (sw_app w) @ [sign_answer k (signing_path (G_context (sw_app w)))
                          (snd (cx_hash_sha256 (sdk_crypto k) (encode_email e) 32))] \<and>
     \<not> G_swap_response_ready w \<and> G_swap_response_ready w' \<and> r = Inl (Sched_exit 0)"
proof (cases r)
  case (Inr n)
  then show ?thesis using chunk_goes_on [OF assms(1-4)] assms(5,7) by (fastforce simp: sw_answer_def answered_chunk_def)
next
  case (Inl ending)
  from chunk_ends [OF assms(1-4), of tx_value tx_fee chunk more_chunks tok w' ending] assms(5,6) Inl obtain e where
    p: "parse_email (payload (sw_app w) @ buf_rest b) = Inr e" and
    e: "message_ends tx_value tx_fee k w (payload (sw_app w) @ buf_rest b)
      (snd (cx_hash_sha256 (sdk_crypto k) (payload (sw_app w) @ buf_rest b) 32)) e w' ending" "\<not> G_swap_response_ready w"
    by auto
  from p have "wf_email e" "payload (sw_app w) @ buf_rest b = encode_email e" by (simp_all add: parse_email_Inr)
  with e Inl assms(6) show ?thesis by (auto simp: message_ends_def promise_kept_def Let_def split: if_splits)
qed

theorem exchange_signs_only_the_promise_witness:
  "\<exists>w'. handler_sign_tx_swap ref_sdk (\<lambda>_. 7) (\<lambda>_. 2) (payload_buffer (encode_email sample_email)) 1 False False sample_exchange
       = Some (w', Inl (Sched_exit 0)) \<and> G_swap_response_ready w' \<and> payload (sw_app w') = encode_email sample_email"
proof -
  obtain w' where run: "handler_sign_tx_swap ref_sdk (\<lambda>_. 7) (\<lambda>_. 2) (payload_buffer (encode_email sample_email)) 1 False False
      sample_exchange = Some (w', Inl (Sched_exit 0))"
    and out: "sent (sw_app w') \<noteq> sent (sw_app sample_exchange)" "resp_data (last (sent (sw_app w'))) \<noteq> []"
    by (rule sample_signed) (auto simp: sample_exchange_ready(3))
  have "buf_wf (payload_buffer (encode_email sample_email))" "buf_offset (payload_buffer (encode_email sample_email)) = 0"
    by simp_all
  from exchange_signs_only_the_promise [OF ref_sdk_ok sample_exchange_ready(1) this run out] run show ?thesis
    by (auto simp: sample_exchange_ready(3))
qed

end
