(* ===== verification/Swap_Main.thy ===== *)
theory Swap_Main
  imports Swap_Sign Session
begin

text \<open>
  The dispatcher and the main loop of the build with \<^verbatim>\<open>HAVE_SWAP\<close>: \<^verbatim>\<open>apdu/dispatcher.c\<close> with the signing
  handler of that build, and \<^verbatim>\<open>app_main.c\<close>, which skips the home page in an exchange. The state is
  the state of the application with the globals of the exchange, and how the application ended,
  if one of the calls that do not return was reached.

  Outside an exchange the whole application behaves like the one of the build without exchange
  support, from its start on and for every sequence of commands and touches.
\<close>

section \<open>The code\<close>

definition apdu_dispatcher_swap ::
  "sdk \<Rightarrow> (email_t \<Rightarrow> u64) \<Rightarrow> (email_t \<Rightarrow> u64) \<Rightarrow> command_t \<Rightarrow> swap_state \<Rightarrow> (swap_state \<times> (swap_end + int)) option" where
  "apdu_dispatcher_swap k tx_value tx_fee cmd w =
     (let s = sw_app w in
      if cmd_cla cmd \<noteq> CLA then lift_app w (io_send_sw k SWO_INVALID_CLA s)
      else if cmd_ins cmd = GET_VERSION then
        if cmd_p1 cmd \<noteq> 0 \<or> cmd_p2 cmd \<noteq> 0 then lift_app w (io_send_sw k SWO_INCORRECT_P1_P2 s)
        else lift_app w (handler_get_version k s)
      else if cmd_ins cmd = GET_APP_NAME then
        if cmd_p1 cmd \<noteq> 0 \<or> cmd_p2 cmd \<noteq> 0 then lift_app w (io_send_sw k SWO_INCORRECT_P1_P2 s)
        else lift_app w (handler_get_app_name k s)
      else if cmd_ins cmd = GET_PUBLIC_KEY then
        if cmd_p1 cmd > 1 \<or> cmd_p2 cmd > 0 then lift_app w (io_send_sw k SWO_INCORRECT_P1_P2 s)
        else (case cmd_data cmd of
                None \<Rightarrow> lift_app w (io_send_sw k SWO_WRONG_DATA_LENGTH s)
              | Some d \<Rightarrow> lift_app w (handler_get_public_key k (command_buffer d (cmd_lc cmd)) (cmd_p1 cmd \<noteq> 0) s))
      else if cmd_ins cmd = SIGN_TX \<or> cmd_ins cmd = SIGN_TOKEN_TX then
        if cmd_p1 cmd = P1_START \<and> cmd_p2 cmd \<noteq> P2_MORE \<or> cmd_p1 cmd > P1_MAX \<or>
           cmd_p2 cmd \<noteq> P2_LAST \<and> cmd_p2 cmd \<noteq> P2_MORE
        then lift_app w (io_send_sw k SWO_INCORRECT_P1_P2 s)
        else (case cmd_data cmd of
                None \<Rightarrow> lift_app w (io_send_sw k SWO_WRONG_DATA_LENGTH s)
              | Some d \<Rightarrow> handler_sign_tx_swap k tx_value tx_fee (command_buffer d (cmd_lc cmd)) (cmd_p1 cmd)
                            (cmd_p2 cmd AND P2_MORE \<noteq> 0) (cmd_ins cmd = SIGN_TOKEN_TX) w)
      else if cmd_ins cmd = PROVIDE_TOKEN_INFO then
        if cmd_p1 cmd \<noteq> 0 \<or> cmd_p2 cmd \<noteq> 0 then lift_app w (io_send_sw k SWO_INCORRECT_P1_P2 s)
        else (case cmd_data cmd of
                None \<Rightarrow> lift_app w (io_send_sw k SWO_WRONG_DATA_LENGTH s)
              | Some d \<Rightarrow> lift_app w (handler_provide_token_info k (command_buffer d (cmd_lc cmd)) s))
      else lift_app w (io_send_sw k SWO_INVALID_INS s))"

text \<open>\<open>app_main\<close> up to the loop.\<close>

definition app_start_swap :: "sdk \<Rightarrow> swap_state \<Rightarrow> swap_state option" where
  "app_start_swap k w = do {
     s \<leftarrow> (if \<not> G_called_from_swap w then ui_menu_main k (sw_app w) else Some (sw_app w));
     let s = s\<lparr>G_context := zero_context\<rparr>;
     let s = s\<lparr>g_dynamic_token_info := init_dynamic_token_storage\<rparr>;
     Some (w\<lparr>sw_app := (if initialized (N_storage s) \<noteq> 1
           then s\<lparr>N_storage := \<lparr>dummy1_allowed = 0, dummy2_allowed = 0, initialized = 1\<rparr>\<rparr>
           else s)\<rparr>)
   }"

text \<open>The body of the loop, for the bytes received.\<close>

definition app_loop_body_swap ::
  "sdk \<Rightarrow> (email_t \<Rightarrow> u64) \<Rightarrow> (email_t \<Rightarrow> u64) \<Rightarrow> bytes \<Rightarrow> swap_state \<Rightarrow> (swap_state \<times> swap_end option) option" where
  "app_loop_body_swap k tx_value tx_fee raw w =
     (case apdu_parser (sdk_parser k) raw of
        None \<Rightarrow> do {
          (_, s) \<leftarrow> io_send_sw k SWO_WRONG_DATA_LENGTH (sw_app w);
          Some (w\<lparr>sw_app := s\<rparr>, None)
        }
      | Some cmd \<Rightarrow> do {
          (w, r) \<leftarrow> apdu_dispatcher_swap k tx_value tx_fee cmd w;
          case r of
            Inl ending \<Rightarrow> Some (w, Some ending)
          | Inr n \<Rightarrow> Some (if n < 0 then w\<lparr>sw_app := (sw_app w)\<lparr>exited := True\<rparr>\<rparr> else w, None)
        })"

definition swap_step ::
  "(email_t \<Rightarrow> u64) \<Rightarrow> (email_t \<Rightarrow> u64) \<Rightarrow> sdk \<Rightarrow> swap_state \<times> swap_end option \<Rightarrow> event \<Rightarrow>
   (swap_state \<times> swap_end option) option" where
  "swap_step tx_value tx_fee k x ev = (case x of (w, ending) \<Rightarrow>
     if ending \<noteq> None \<or> exited (sw_app w) then Some x
     else case ev of
       Apdu raw \<Rightarrow> app_loop_body_swap k tx_value tx_fee raw w
     | _ \<Rightarrow> do {
         s \<leftarrow> step k (sw_app w) ev;
         Some (w\<lparr>sw_app := s\<rparr>, None)
       })"

section \<open>Lemmas\<close>

text \<open>Only the signing requests differ from the build without exchange support.\<close>

lemma dispatcher_swap_refines:
  "apdu_dispatcher_swap k tx_value tx_fee cmd w = (case dispatch cmd of
       Sign d chunk m tok \<Rightarrow> handler_sign_tx_swap k tx_value tx_fee (command_buffer d (cmd_lc cmd)) chunk m tok w
     | _ \<Rightarrow> lift_app w (apdu_dispatcher k cmd (sw_app w)))"
  unfolding apdu_dispatcher_swap_def apdu_dispatcher_def dispatch_def Let_def key_guard sign_guard
  by (auto simp: sign_more split: option.split)

lemma dispatcher_equivalent:
  assumes "\<not> G_called_from_swap w"
  shows "apdu_dispatcher_swap k tx_value tx_fee cmd w = lift_app w (apdu_dispatcher k cmd (sw_app w))"
  by (cases "dispatch cmd") (simp_all add: dispatcher_swap_refines dispatcher_refines handler_equivalent [OF assms])

lemma loop_body_equivalent:
  assumes "\<not> G_called_from_swap w"
  shows "app_loop_body_swap k tx_value tx_fee raw w =
     map_option (\<lambda>s. (w\<lparr>sw_app := s\<rparr>, None)) (app_loop_body k raw (sw_app w))"
  by (auto simp: app_loop_body_swap_def app_loop_body_def dispatcher_equivalent [OF assms] lift_app_def
      split: option.split Option.bind_splits)

lemma step_equivalent:
  assumes "\<not> G_called_from_swap w"
  shows "swap_step tx_value tx_fee k (w, None) ev = map_option (\<lambda>s. (w\<lparr>sw_app := s\<rparr>, None)) (step k (sw_app w) ev)"
proof (cases "exited (sw_app w)")
  case True
  then show ?thesis by (simp add: swap_step_def step_def)
next
  case False
  then show ?thesis using loop_body_equivalent [OF assms]
    by (cases ev) (auto simp: swap_step_def step_def split: Option.bind_splits)
qed

text \<open>Events that do the same in both builds, in sequence.\<close>

lemma run_lifted:
  assumes "\<And>s ev. ev \<in> set es \<Longrightarrow> swap_step tx_value tx_fee k (w\<lparr>sw_app := s\<rparr>, None) ev =
     map_option (\<lambda>s'. (w\<lparr>sw_app := s'\<rparr>, None)) (step k s ev)"
  shows "run (swap_step tx_value tx_fee k) (w\<lparr>sw_app := s\<rparr>, None) es =
     map_option (\<lambda>s'. (w\<lparr>sw_app := s'\<rparr>, None)) (run (step k) s es)"
  using assms by (induction es arbitrary: s) (auto split: option.split)

text \<open>So do the signing requests that announce more, also in an exchange.\<close>

lemma more_chunks_lifted:
  assumes "apdu_parser (sdk_parser k) raw = Some (sign_command tok i True d)" and "i \<le> 16"
  shows "swap_step tx_value tx_fee k (w, None) (Apdu raw) = map_option (\<lambda>s. (w\<lparr>sw_app := s\<rparr>, None)) (step k (sw_app w) (Apdu raw))"
proof -
  have "handler_sign_tx_swap k tx_value tx_fee b chunk True tok w = lift_app w (handler_sign_tx k b chunk True tok (sw_app w))" for b chunk
    by (auto simp: handler_sign_tx_swap_def handler_sign_tx_def Let_def lift_app_def split: Option.bind_splits)
  then show ?thesis using assms
    by (auto simp: swap_step_def step_def app_loop_body_swap_def app_loop_body_def dispatcher_swap_refines dispatcher_refines
        dispatch_sign lift_app_def split: Option.bind_splits)
qed

section \<open>Properties\<close>

text \<open>C28. The build with exchange support is the application of the build without it when it is not
  called from the exchange application: it starts with the home page and the same settings, and
  every sequence of commands and touches has the same effect, with the same responses, the same
  pages and the same faults; it never ends in the ways of an exchange.\<close>

theorem exchange_build_equivalent:
  assumes "\<not> G_called_from_swap w"
  shows "do { w \<leftarrow> app_start_swap k w; run (swap_step tx_value tx_fee k) (w, None) es } =
     map_option (\<lambda>s. (w\<lparr>sw_app := s\<rparr>, None)) (do { s \<leftarrow> app_start k (sw_app w); run (step k) s es })"
proof -
  have "app_start_swap k w = map_option (\<lambda>s. w\<lparr>sw_app := s\<rparr>) (app_start k (sw_app w))"
    using assms by (auto simp: app_start_swap_def app_start_def Let_def split: Option.bind_splits)
  then show ?thesis using assms by (cases "app_start k (sw_app w)") (simp_all add: run_lifted step_equivalent)
qed

theorem exchange_build_equivalent_witness:
  "\<exists>s. do { w \<leftarrow> app_start_swap ref_sdk library_state; run (swap_step (\<lambda>_. 7) (\<lambda>_. 2) ref_sdk) (w, None) [Touch_quit] } =
     Some (library_state\<lparr>sw_app := s\<rparr>, None) \<and> exited s"
proof -
  obtain s where s: "app_start ref_sdk (boot_state default_nvm) = Some s" "screen s = Page_home INIT_HOME_PAGE" "\<not> exited s"
    using app_start_ok [of ref_sdk default_nvm] by auto
  have "\<not> G_called_from_swap library_state" "sw_app library_state = boot_state default_nvm" by (simp_all add: library_state_def)
  from exchange_build_equivalent [OF this(1), of ref_sdk "\<lambda>_. 7" "\<lambda>_. 2" "[Touch_quit]"] this(2) s show ?thesis
    by (auto simp: step_def app_quit_def)
qed

end
