(* ===== verification/Swap_Session.thy ===== *)
theory Swap_Session
  imports Swap_Main
begin

text \<open>
  A whole exchange: the exchange application passes the agreed parameters
  (\<open>swap_copy_transaction_parameters\<close>), the SDK marks the call and runs \<open>app_main\<close>, and the host
  sends any commands and the user touches the screen, until the application ends. The parameters
  of the first call are related to the signature that the last command sends.

  The exchange is a \<open>safe_system\<close> for hosts that send well-formed paths, and for every host a
  \<open>guarded_system\<close> whose invariant says which responses were sent.
\<close>

section \<open>From the parameters to the main loop\<close>

text \<open>The SDK's part: the parameters are stored, the call is marked, and the application starts
  without a page of its own.\<close>

definition exchange_start ::
  "swap_lib \<Rightarrow> sdk \<Rightarrow> create_transaction_parameters_t \<Rightarrow> swap_state \<Rightarrow> swap_state option" where
  "exchange_start W k params w =
     (case swap_copy_transaction_parameters W params w of
        Some (True, w') \<Rightarrow>
          app_start_swap k (w'\<lparr>G_called_from_swap := True, sw_app := (sw_app w')\<lparr>screen := Page_none, exited := False\<rparr>\<rparr>)
      | _ \<Rightarrow> None)"

text \<open>A transaction keeps the parameters that the exchange application passed.\<close>

definition params_kept ::
  "swap_lib \<Rightarrow> create_transaction_parameters_t \<Rightarrow> (email_t \<Rightarrow> u64) \<Rightarrow> (email_t \<Rightarrow> u64) \<Rightarrow> email_t \<Rightarrow> bytes \<Rightarrow> bool" where
  "params_kept W params tx_value tx_fee tx address \<longleftrightarrow>
     currency W params = Some (ascii ''BOL'', EXPONENT_SMALLEST_UNIT) \<and>
     unat (tx_value tx) = number_at (cp_amount params) (cp_amount_length params) \<and>
     unat (tx_fee tx) = number_at (cp_fee_amount params) (cp_fee_amount_length params) \<and>
     (\<exists>d. cp_destination_address params = Some d \<and> map upper_char (cstring d) = hex_string address)"

lemma records_kept:
  assumes "records W params V"
  shows "promise_kept V tx_value tx_fee tx address = params_kept W params tx_value tx_fee tx address"
proof -
  from assms obtain d where "sv_initialized V" "unat (sv_amount V) = number_at (cp_amount params) (cp_amount_length params)"
    "unat (sv_fee V) = number_at (cp_fee_amount params) (cp_fee_amount_length params)"
    "currency W params = Some (cstring (sv_ticker V), sv_decimals V)"
    "cp_destination_address params = Some d" "cstring (sv_recipient V) = map upper_char (cstring d)"
    by (auto simp: records_def)
  then show ?thesis
    by (auto simp: promise_kept_def params_kept_def native_def word_unat_eq_iff)
qed

lemma exchange_start_ok:
  assumes "swap_ok W" and "params_wf params" and "exchange_start W k params w0 = Some w"
  shows "exchange_ready w" and "records W params (G_swap_validated w)" and "sent (sw_app w) = sent (sw_app w0)"
    and "screen (sw_app w) = Page_none" and "\<not> exited (sw_app w)" and "path_ok (sw_app w)"
    and "\<not> G_swap_response_ready w"
proof -
  from assms(3) obtain w1 where w1: "swap_copy_transaction_parameters W params w0 = Some (True, w1)"
    "app_start_swap k (w1\<lparr>G_called_from_swap := True, sw_app := (sw_app w1)\<lparr>screen := Page_none, exited := False\<rparr>\<rparr>) = Some w"
    by (auto simp: exchange_start_def split: option.splits bool.splits)
  have "acceptable W params" using copy_refused [OF assms(1,2), of w0] w1(1) by auto
  from copy_accepted [OF assms(1,2) this, of w0] w1(1) obtain V where
    V: "w1 = (zero_bss w0)\<lparr>G_swap_validated := V\<rparr>" "records W params V" by auto
  have "\<exists>nvm. w = \<lparr>sw_app = (boot_state nvm)\<lparr>sent := sent (sw_app w0)\<rparr>,
      G_swap_validated = V, G_swap_response_ready = False, G_called_from_swap = True\<rparr>"
    using w1(2) V(1) by (cases "initialized (N_storage (sw_app w0)) = 1") (auto simp: app_start_swap_def zero_bss_def boot_state_def Let_def)
  then show "exchange_ready w" "records W params (G_swap_validated w)" "sent (sw_app w) = sent (sw_app w0)"
    "screen (sw_app w) = Page_none" "\<not> exited (sw_app w)" "path_ok (sw_app w)" "\<not> G_swap_response_ready w"
    using V(2) by (auto simp: exchange_ready_def records_def path_ok_def)
qed

section \<open>One event\<close>

text \<open>An event that does not end the application: no review opens, and a response, if one is sent, is
  plain.\<close>

definition goes_on :: "swap_state \<Rightarrow> swap_state \<Rightarrow> bool" where
  "goes_on w w' \<longleftrightarrow> exchange_ready w' \<and> G_swap_validated w' = G_swap_validated w \<and> screen (sw_app w') \<noteq> Page_review \<and>
     (\<exists>rs. sent (sw_app w') = sent (sw_app w) @ rs \<and> list_all plain rs)"

lemma goes_onI:
  assumes "exchange_ready w" and "state_wf s" and "screen s \<noteq> Page_review"
    and "sent s = sent (sw_app w) \<or> (\<exists>r. sent s = sent (sw_app w) @ [r] \<and> plain r)"
  shows "goes_on w (w\<lparr>sw_app := s\<rparr>)"
  using assms by (auto simp: goes_on_def exchange_ready_def)

lemma goes_on_exited [simp]:
  "goes_on w (v\<lparr>sw_app := (sw_app v)\<lparr>exited := x\<rparr>\<rparr>) = goes_on w v"
  "goes_on w (v\<lparr>sw_app := s\<lparr>exited := x\<rparr>\<rparr>) = goes_on w (v\<lparr>sw_app := s\<rparr>)"
  by (auto simp: goes_on_def exchange_ready_def)

lemma touch_goes_on:
  assumes k: "sdk_ok k" and w: "exchange_ready w" "screen (sw_app w) \<noteq> Page_review" and ev: "\<forall>raw. ev \<noteq> Apdu raw"
  shows "\<exists>s. step k (sw_app w) ev = Some s \<and> goes_on w (w\<lparr>sw_app := s\<rparr>) \<and>
     bip32_path_len (G_context s) = bip32_path_len (G_context (sw_app w))"
proof -
  have wf: "state_wf (sw_app w)" using w(1) by (simp add: exchange_ready_def)
  from user_step [OF wf ev, of k] w(2) obtain s where
    s: "step k (sw_app w) ev = Some s" "state_wf s" "screen s \<noteq> Page_review"
      "bip32_path_len (G_context s) = bip32_path_len (G_context (sw_app w))" by auto
  then show ?thesis using goes_onI [OF w(1) s(2,3)] user_sends_plain [OF wf ev w(2) s(1)] by auto
qed

lemma other_command_goes_on:
  assumes k: "sdk_ok k" and c: "cmd_wf cmd" "\<not> is_sign (dispatch cmd)"
    and w: "exchange_ready w" "screen (sw_app w) \<noteq> Page_review"
  shows "\<exists>r s. apdu_dispatcher_swap k tx_value tx_fee cmd w = Some (w\<lparr>sw_app := s\<rparr>, Inr r) \<and> goes_on w (w\<lparr>sw_app := s\<rparr>) \<and>
     (path_fine cmd \<longrightarrow> path_ok (sw_app w) \<longrightarrow> path_ok s)"
proof -
  have "state_wf (sw_app w)" using w(1) by (simp add: exchange_ready_def)
  from dispatcher_outcome [OF k c(1) this] obtain r s where s: "apdu_dispatcher k cmd (sw_app w) = Some (r, s)"
    "outcome k (sw_app w) s" "screen s \<noteq> Page_review" "path_fine cmd \<longrightarrow> path_ok (sw_app w) \<longrightarrow> path_ok s"
    using c(2) w(2) by blast
  moreover have "goes_on w (w\<lparr>sw_app := s\<rparr>)"
    using s(2,3) by (intro goes_onI [OF w(1)]) (auto simp: outcome_def answered_def)
  moreover have "apdu_dispatcher_swap k tx_value tx_fee cmd w = lift_app w (apdu_dispatcher k cmd (sw_app w))"
    using c(2) by (cases "dispatch cmd") (simp_all add: dispatcher_swap_refines is_sign_def)
  ultimately show ?thesis by (intro exI [of _ r] exI [of _ s]) (simp add: lift_app_def)
qed

text \<open>A signature that the application may send.\<close>

definition promised_signature ::
  "(email_t \<Rightarrow> u64) \<Rightarrow> (email_t \<Rightarrow> u64) \<Rightarrow> swap_validated_t \<Rightarrow> sdk \<Rightarrow> apdu_response \<Rightarrow> bool" where
  "promised_signature tx_value tx_fee V k r \<longleftrightarrow>
     (\<exists>e raw tx path. wf_email e \<and> email_view raw tx = e \<and> take (length (encode_email e)) raw = encode_email e \<and>
        promise_kept V tx_value tx_fee tx (take ADDRESS_LEN (drop (recipient_offset e) raw)) \<and>
        r = sign_answer k path (snd (cx_hash_sha256 (sdk_crypto k) (encode_email e) 32)))"

definition ends ::
  "(email_t \<Rightarrow> u64) \<Rightarrow> (email_t \<Rightarrow> u64) \<Rightarrow> sdk \<Rightarrow> swap_validated_t \<Rightarrow> apdu_response list \<Rightarrow> apdu_response list \<Rightarrow> swap_end \<Rightarrow> bool" where
  "ends tx_value tx_fee k V before after ending \<longleftrightarrow>
     after = before \<or> (\<exists>r. after = before @ [r] \<and> ending = Sched_exit 0 \<and> promised_signature tx_value tx_fee V k r)"

lemma chunk_ends_promised:
  assumes "sdk_ok k" and "exchange_ready w" and "buf_wf b" and "buf_offset b = 0"
    and "handler_sign_tx_swap k tx_value tx_fee b chunk more_chunks tok w = Some (w', Inl ending)"
  shows "ends tx_value tx_fee k (G_swap_validated w) (sent (sw_app w)) (sent (sw_app w')) ending"
proof (cases "sent (sw_app w') = sent (sw_app w)")
  case False
  from chunk_ends [OF assms False] obtain e n h where p: "parse_email (payload (sw_app w) @ buf_rest b) = Inr e"
    and h: "cx_hash_sha256 (sdk_crypto k) (payload (sw_app w) @ buf_rest b) 32 = (n, h)"
    and m: "message_ends tx_value tx_fee k w (payload (sw_app w) @ buf_rest b) h e w' ending" by blast
  from p have e: "wf_email e" "payload (sw_app w) @ buf_rest b = encode_email e" by (simp_all add: parse_email_Inr)
  let ?t = "tx_info (G_context (sw_app w'))"
  have "take (raw_tx_len ?t) (raw_tx ?t) = encode_email e" using m e(2) by (simp add: message_ends_def payload_def)
  then have raw: "take (length (encode_email e)) (raw_tx ?t) = encode_email e" by (metis append_eq_conv_conj append_take_drop_id)
  have "promised_signature tx_value tx_fee (G_swap_validated w) k (sign_answer k (signing_path (G_context (sw_app w))) h)"
    unfolding promised_signature_def using e raw h m False
    by (intro exI [of _ e] exI [of _ "raw_tx ?t"] exI [of _ "transaction ?t"] exI [of _ "signing_path (G_context (sw_app w))"])
       (auto simp: message_ends_def Let_def split: if_splits)
  then show ?thesis using m False by (auto simp: ends_def message_ends_def Let_def split: if_splits)
qed (simp add: ends_def)

lemma chunk_goes_on_ready:
  assumes "sdk_ok k" and "exchange_ready w" "screen (sw_app w) \<noteq> Page_review" and "buf_wf b" and "buf_offset b = 0"
    and "handler_sign_tx_swap k tx_value tx_fee b chunk more_chunks tok w = Some (w', Inr n)"
  shows "goes_on w w' \<and> ((chunk = 0 \<longrightarrow> path_request (buf_rest b) \<noteq> None) \<longrightarrow> path_ok (sw_app w) \<longrightarrow> path_ok (sw_app w'))"
proof -
  from chunk_goes_on [OF assms(1,2,4-6)] obtain G sw where g: "w' = answered_chunk w G sw" "context_wf G"
    "chunk = 0 \<longrightarrow> path_request (buf_rest b) \<noteq> None \<longrightarrow> unat (bip32_path_len G) \<le> MAX_BIP32_PATH"
    "chunk \<noteq> 0 \<longrightarrow> bip32_path_len G = bip32_path_len (G_context (sw_app w))" by blast
  have "goes_on w w'" unfolding g(1) answered_chunk_def
    using assms(2,3) g(2) by (intro goes_onI) (auto simp: exchange_ready_def state_wf_context)
  then show ?thesis using g by (cases "chunk = 0") (auto simp: answered_chunk_def path_ok_def)
qed

text \<open>A command.\<close>

lemma command_swap:
  assumes k: "sdk_ok k" and w: "exchange_ready w" "screen (sw_app w) \<noteq> Page_review"
    and run: "app_loop_body_swap k tx_value tx_fee raw w = Some (w', ending)"
  shows "case ending of
     None \<Rightarrow> goes_on w w' \<and> (event_fine k (Apdu raw) \<longrightarrow> path_ok (sw_app w) \<longrightarrow> path_ok (sw_app w'))
   | Some e \<Rightarrow> ends tx_value tx_fee k (G_swap_validated w) (sent (sw_app w)) (sent (sw_app w')) e"
proof (cases "apdu_parser (sdk_parser k) raw")
  case None
  have "goes_on w (w\<lparr>sw_app := (sw_app w)\<lparr>sent := sent (sw_app w) @ [\<lparr>resp_data = [], resp_sw = sw\<rparr>]\<rparr>\<rparr>)" for sw
    using w by (intro goes_onI) (auto simp: exchange_ready_def)
  then show ?thesis using run None by (auto simp: app_loop_body_swap_def io_send_sw_eq path_ok_def)
next
  case (Some cmd)
  then have c: "cmd_wf cmd" using k by (auto simp: sdk_ok_def parser_ok_def)
  from run Some obtain v r where "apdu_dispatcher_swap k tx_value tx_fee cmd w = Some (v, r)"
    by (auto simp: app_loop_body_swap_def bind_eq_Some_conv)
  with run Some have v: "apdu_dispatcher_swap k tx_value tx_fee cmd w = Some (v, r)"
    "case r of Inl e \<Rightarrow> w' = v \<and> ending = Some e
     | Inr n \<Rightarrow> w' = (if n < 0 then v\<lparr>sw_app := (sw_app v)\<lparr>exited := True\<rparr>\<rparr> else v) \<and> ending = None"
    by (auto simp: app_loop_body_swap_def split: sum.splits)
  show ?thesis
  proof (cases "is_sign (dispatch cmd)")
    case False
    from other_command_goes_on [OF k c False w, of tx_value tx_fee] v Some show ?thesis
      by (auto simp: event_fine_def path_ok_def)
  next
    case True
    then obtain d chunk m tok where d: "dispatch cmd = Sign d chunk m tok" by (auto simp: is_sign_def split: handled.splits)
    note b = command_buffer_ok [OF c conjunct1 [OF dispatch_data(2) [OF d]]]
    have h: "handler_sign_tx_swap k tx_value tx_fee (command_buffer d (cmd_lc cmd)) chunk m tok w = Some (v, r)"
      using v(1) d by (simp add: dispatcher_swap_refines)
    show ?thesis
    proof (cases r)
      case (Inl e)
      then show ?thesis using chunk_ends_promised [OF k w(1) b(1,2) h [unfolded Inl]] v(2) by simp
    next
      case (Inr n)
      have "event_fine k (Apdu raw) \<Longrightarrow> chunk = 0 \<Longrightarrow> path_request (take (unat (cmd_lc cmd)) d) \<noteq> None"
        using Some dispatch_data(2) [OF d] by (simp add: event_fine_def path_fine_def)
      with chunk_goes_on_ready [OF k w b(1,2) h [unfolded Inr]] v(2) Inr b(3) show ?thesis
        by (auto simp: path_ok_def)
    qed
  qed
qed

lemma command_total:
  assumes k: "sdk_ok k" and w: "exchange_ready w" "path_ok (sw_app w)" "screen (sw_app w) \<noteq> Page_review"
  shows "app_loop_body_swap k tx_value tx_fee raw w \<noteq> None"
proof (cases "apdu_parser (sdk_parser k) raw")
  case None
  then show ?thesis by (simp add: app_loop_body_swap_def io_send_sw_eq)
next
  case (Some cmd)
  then have c: "cmd_wf cmd" using k by (auto simp: sdk_ok_def parser_ok_def)
  have "apdu_dispatcher_swap k tx_value tx_fee cmd w \<noteq> None"
  proof (cases "is_sign (dispatch cmd)")
    case False
    then show ?thesis using other_command_goes_on [OF k c False w(1,3), of tx_value tx_fee] by auto
  next
    case True
    then obtain d chunk m tok where d: "dispatch cmd = Sign d chunk m tok" by (auto simp: is_sign_def split: handled.splits)
    note b = command_buffer_ok [OF c conjunct1 [OF dispatch_data(2) [OF d]]]
    show ?thesis using chunk_total [OF k w(1,2) b(1,2)] d by (simp add: dispatcher_swap_refines)
  qed
  then show ?thesis using Some by (auto simp: app_loop_body_swap_def split: sum.split)
qed

section \<open>The exchange as a system\<close>

definition exchange_safe :: "swap_state \<times> swap_end option \<Rightarrow> bool" where
  "exchange_safe x = (case x of
       (w, None) \<Rightarrow> exchange_ready w \<and> path_ok (sw_app w) \<and> screen (sw_app w) \<noteq> Page_review
     | (w, Some _) \<Rightarrow> True)"

text \<open>Until its end the application has sent plain responses; at its end it has sent at most one more,
  and that one is a promised signature.\<close>

definition exchange_inv ::
  "(email_t \<Rightarrow> u64) \<Rightarrow> (email_t \<Rightarrow> u64) \<Rightarrow> swap_validated_t \<Rightarrow> apdu_response list \<Rightarrow> sdk \<Rightarrow>
   swap_state \<times> swap_end option \<Rightarrow> bool" where
  "exchange_inv tx_value tx_fee V before k x =
     (\<exists>rs. list_all plain rs \<and>
        (case x of
           (w, None) \<Rightarrow> exchange_ready w \<and> G_swap_validated w = V \<and> screen (sw_app w) \<noteq> Page_review \<and>
             sent (sw_app w) = before @ rs
         | (w, Some e) \<Rightarrow> ends tx_value tx_fee k V (before @ rs) (sent (sw_app w)) e))"

text \<open>The two kinds of events.\<close>

lemma swap_step_cases:
  assumes "swap_step tx_value tx_fee k (w, None) ev = Some x'" and "\<not> exited (sw_app w)"
  obtains (command) raw where "ev = Apdu raw" and "app_loop_body_swap k tx_value tx_fee raw w = Some x'"
  | (touch) s where "\<forall>raw. ev \<noteq> Apdu raw" and "step k (sw_app w) ev = Some s" and "x' = (w\<lparr>sw_app := s\<rparr>, None)"
  using assms by (cases ev) (auto simp: swap_step_def bind_eq_Some_conv)

lemma exchange_step_inv:
  assumes k: "sdk_ok k" and inv: "exchange_inv tx_value tx_fee V before k x"
    and run: "swap_step tx_value tx_fee k x ev = Some x'"
  shows "exchange_inv tx_value tx_fee V before k x'"
proof -
  obtain w ending where x: "x = (w, ending)" by (cases x)
  show ?thesis
  proof (cases "ending \<noteq> None \<or> exited (sw_app w)")
    case True
    then show ?thesis using inv run x by (simp add: swap_step_def)
  next
    case False
    with inv x obtain rs where w: "exchange_ready w" "G_swap_validated w = V" "screen (sw_app w) \<noteq> Page_review"
      and rs: "list_all plain rs" "sent (sw_app w) = before @ rs" by (auto simp: exchange_inv_def)
    have on: "exchange_inv tx_value tx_fee V before k (w', None)" if "goes_on w w'" for w'
    proof -
      from that obtain rs' where "sent (sw_app w') = sent (sw_app w) @ rs'" "list_all plain rs'" by (auto simp: goes_on_def)
      then show ?thesis using that w(2) rs by (auto simp: exchange_inv_def goes_on_def intro!: exI [of _ "rs @ rs'"])
    qed
    obtain w' ending' where x': "x' = (w', ending')" by (cases x')
    have "swap_step tx_value tx_fee k (w, None) ev = Some x'" "\<not> exited (sw_app w)" using run x False by auto
    then show ?thesis
    proof (cases rule: swap_step_cases)
      case (command raw)
      from command_swap [OF k w(1,3) command(2) [unfolded x']] on rs w(2) x' show ?thesis
        by (auto simp: exchange_inv_def split: option.splits intro!: exI [of _ rs])
    next
      case (touch s)
      then show ?thesis using touch_goes_on [OF k w(1,3) touch(1)] on by auto
    qed
  qed
qed

lemma exchange_step_safe:
  assumes k: "sdk_ok k" and inv: "exchange_safe x" and fine: "event_fine k ev"
  shows "\<exists>x'. swap_step tx_value tx_fee k x ev = Some x' \<and> exchange_safe x'"
proof -
  obtain w ending where x: "x = (w, ending)" by (cases x)
  show ?thesis
  proof (cases "ending \<noteq> None \<or> exited (sw_app w)")
    case True
    then show ?thesis using inv x by (simp add: swap_step_def)
  next
    case False
    then have w: "exchange_ready w" "path_ok (sw_app w)" "screen (sw_app w) \<noteq> Page_review"
      using inv x by (auto simp: exchange_safe_def)
    show ?thesis
    proof (cases "\<exists>raw. ev = Apdu raw")
      case True
      then obtain raw where ev: "ev = Apdu raw" by blast
      from command_total [OF k w, of tx_value tx_fee raw] obtain w' ending' where
        body: "app_loop_body_swap k tx_value tx_fee raw w = Some (w', ending')" by auto
      have "exchange_safe (w', ending')"
        using command_swap [OF k w(1,3) body] fine ev w(2) by (auto simp: exchange_safe_def goes_on_def split: option.splits)
      then show ?thesis using body ev x False by (simp add: swap_step_def)
    next
      case touch: False
      from touch_goes_on [OF k w(1,3), of ev] touch obtain s where s: "step k (sw_app w) ev = Some s" "goes_on w (w\<lparr>sw_app := s\<rparr>)"
        "bip32_path_len (G_context s) = bip32_path_len (G_context (sw_app w))" by blast
      then have "exchange_safe (w\<lparr>sw_app := s\<rparr>, None)" using w(2) by (auto simp: exchange_safe_def goes_on_def path_ok_def)
      then show ?thesis using s(1) x False touch by (cases ev) (auto simp: swap_step_def)
    qed
  qed
qed

interpretation exchange: guarded_system sdk_ok "swap_step tx_value tx_fee" "\<lambda>_ _. True"
  "exchange_inv tx_value tx_fee V before" for tx_value tx_fee V before
  by unfold_locales (rule exchange_step_inv)

interpretation exchange_app: safe_system sdk_ok "swap_step tx_value tx_fee" exchange_safe event_fine for tx_value tx_fee
  by unfold_locales (rule exchange_step_safe)

lemmas exchange_run_inv = exchange.run_inv [unfolded guarded_run_True]

section \<open>Sessions in an exchange\<close>

lemma last_chunk_swap_step:
  assumes "apdu_parser (sdk_parser k) raw = Some (sign_command tok i False d)" and "1 \<le> i" and "i \<le> 16"
    and "length d \<le> 255" and "\<not> exited (sw_app w)"
    and "handler_sign_tx_swap k tx_value tx_fee (payload_buffer d) (of_nat i) False tok w = Some (w', Inl ending)"
  shows "swap_step tx_value tx_fee k (w, None) (Apdu raw) = Some (w', Some ending)"
  using assms command_buffer_payload [OF assms(4)] dispatch_sign [OF assms(3), of False tok d]
  by (simp add: swap_step_def app_loop_body_swap_def dispatcher_swap_refines) (simp add: sign_command_def)

text \<open>The path and all chunks but the last are collected as in the build without exchange support.\<close>

lemma exchange_collects:
  assumes k: "sdk_ok k" "sends_succeed k" and s: "state_wf (sw_app w)" "\<not> exited (sw_app w)"
    and host: "delivered k raws (sign_commands tok pd chunks)" "length pd \<le> 255" "chunks_fit 1 chunks"
    and path: "path_request pd = Some path" and fits: "length (concat chunks) \<le> MAX_TRANSACTION_LEN"
  shows "\<exists>s1 raw p n. run (swap_step tx_value tx_fee k) (w, None) (map Apdu raws) =
       swap_step tx_value tx_fee k (w\<lparr>sw_app := s1\<rparr>, None) (Apdu raw) \<and>
     session s1 (request_of tok) p n (concat (butlast chunks)) \<and> unat n \<le> MAX_BIP32_PATH \<and> take (unat n) p = path \<and>
     apdu_parser (sdk_parser k) raw = Some (sign_command tok (length chunks) False (last chunks)) \<and>
     sent s1 = sent (sw_app w) @ replicate (length chunks) (sw_answer SWO_SUCCESS)"
proof -
  from delivered_Cons [OF host(1) [unfolded sign_commands_def]] obtain raw0 rest where
    raws: "raws = raw0 # rest" "apdu_parser (sdk_parser k) raw0 = Some (sign_command tok 0 True pd)"
    "delivered k rest (chunk_commands tok 1 chunks)" by blast
  from first_session [OF k s raws(2) host(2)] path obtain s0 p n where
    s0: "step k (sw_app w) (Apdu raw0) = Some s0" "session s0 (request_of tok) p n []" "unat n \<le> MAX_BIP32_PATH" "take (unat n) p = path"
    "sent s0 = sent (sw_app w) @ [sw_answer SWO_SUCCESS]" by auto
  from feed_chunks [OF k s0(2) host(3) _ _ raws(3)] fits obtain s1 raw where
    s1: "rest = butlast rest @ [raw]" "run (step k) s0 (map Apdu (butlast rest)) = Some s1"
    "session s1 (request_of tok) p n (concat (butlast chunks))"
    "apdu_parser (sdk_parser k) raw = Some (sign_command tok (length chunks) False (last chunks))"
    "sent s1 = sent s0 @ replicate (length chunks - 1) (sw_answer SWO_SUCCESS)" by auto
  have n: "1 \<le> length chunks" "length chunks \<le> 16" by (rule chunks_fit_last(1,2) [OF host(3)])+
  have "swap_step tx_value tx_fee k (w\<lparr>sw_app := s\<rparr>, None) ev = map_option (\<lambda>s'. (w\<lparr>sw_app := s'\<rparr>, None)) (step k s ev)"
    if ev: "ev \<in> set (map Apdu (raw0 # butlast rest))" for s ev
  proof -
    from ev obtain r where r: "ev = Apdu r" "r = raw0 \<or> r \<in> set (butlast rest)" by auto
    obtain i d where "apdu_parser (sdk_parser k) r = Some (sign_command tok i True d)" "i \<le> 16"
      using r(2) raws(2) chunk_commands_more [OF raws(3), of r] n by fastforce
    then show ?thesis using more_chunks_lifted [of k r tok i d tx_value tx_fee "w\<lparr>sw_app := s\<rparr>"] r(1) by simp
  qed
  from run_lifted [where es = "map Apdu (raw0 # butlast rest)" and s = "sw_app w", OF this] s0(1) s1(2)
  have "run (swap_step tx_value tx_fee k) (w, None) (map Apdu (raw0 # butlast rest)) = Some (w\<lparr>sw_app := s1\<rparr>, None)" by simp
  note run_snoc [OF this, of "Apdu raw"]
  moreover have "map Apdu (raw0 # butlast rest) @ [Apdu raw] = map Apdu raws" using raws(1) arg_cong [OF s1(1), of "map Apdu"] by simp
  ultimately have "run (swap_step tx_value tx_fee k) (w, None) (map Apdu raws) =
      swap_step tx_value tx_fee k (w\<lparr>sw_app := s1\<rparr>, None) (Apdu raw)" by metis
  then show ?thesis using s0(3-5) s1(3-5) n(1)
    by (intro exI [of _ s1] exI [of _ raw] exI [of _ p] exI [of _ n]) (cases "length chunks"; simp)
qed

text \<open>The last chunk decides.\<close>

lemma exchange_session:
  assumes k: "sdk_ok k" "sends_succeed k"
    and w: "exchange_ready w" "\<not> exited (sw_app w)" "\<not> G_swap_response_ready w"
    and host: "delivered k raws (sign_commands tok pd chunks)" "length pd \<le> 255" "chunks_fit 1 chunks"
    and path: "path_request pd = Some path"
    and e: "wf_email e" "concat chunks = encode_email e" "length (encode_email e) \<le> MAX_TRANSACTION_LEN"
    and hash: "cx_hash_sha256 (sdk_crypto k) (encode_email e) 32 = (32, h)"
  shows "\<exists>w' ending. run (swap_step tx_value tx_fee k) (w, None) (map Apdu raws) = Some (w', Some ending) \<and>
     payload (sw_app w') = encode_email e \<and>
     (let t = tx_info (G_context (sw_app w')); answers = sent (sw_app w) @ replicate (length chunks) (sw_answer SWO_SUCCESS) in
        email_view (raw_tx t) (transaction t) = e \<and>
        (if promise_kept (G_swap_validated w) tx_value tx_fee (transaction t) (take ADDRESS_LEN (drop (recipient_offset e) (raw_tx t)))
         then ending = Sched_exit 0 \<and> sent (sw_app w') = answers @ [sign_answer k path h]
         else sent (sw_app w') = answers \<and> (\<exists>ec code. ending = Swap_error SW_SWAP_FAIL ec code)))"
proof -
  have "state_wf (sw_app w)" "length (concat chunks) \<le> 2600" using w(1) e(2,3) by (simp_all add: exchange_ready_def)
  from exchange_collects [OF k this(1) w(2) host path this(2), of tx_value tx_fee] obtain s1 raw p n where
    s1: "run (swap_step tx_value tx_fee k) (w, None) (map Apdu raws) = swap_step tx_value tx_fee k (w\<lparr>sw_app := s1\<rparr>, None) (Apdu raw)"
    "session s1 (request_of tok) p n (concat (butlast chunks))" "unat n \<le> MAX_BIP32_PATH" "take (unat n) p = path"
    "apdu_parser (sdk_parser k) raw = Some (sign_command tok (length chunks) False (last chunks))"
    "sent s1 = sent (sw_app w) @ replicate (length chunks) (sw_answer SWO_SUCCESS)" by blast
  let ?w = "w\<lparr>sw_app := s1\<rparr>" and ?b = "payload_buffer (last chunks)"
  note fit = chunks_fit_last [OF host(3)]
  have all: "payload (sw_app ?w) @ buf_rest ?b = encode_email e" using s1(2) fit(4) e(2) by (simp add: session_def)
  have ready: "exchange_ready ?w" "path_ok (sw_app ?w)" "\<not> G_swap_response_ready ?w" "\<not> exited (sw_app ?w)"
    "req_type (G_context (sw_app ?w)) = request_of tok" "signing_path (G_context s1) = path"
    using w s1(2-4) by (auto simp: exchange_ready_def session_def path_ok_def signing_path_def)
  have chunk: "(of_nat (length chunks) :: u8) \<noteq> 0" using chunk_index(2) [OF fit(2)] fit(1) by auto
  have len: "raw_tx_len (tx_info (G_context (sw_app ?w))) + length (buf_rest ?b) \<le> 2600"
    using session_length [OF s1(2)] arg_cong [OF all, of length] s1(2) e(3) by (simp add: session_def)
  have msg: "parse_email (encode_email e) = Inr e" using e(1) by (simp add: parse_email_Inr)
  from last_chunk_decides [OF k(1) ready(1-3) payload_buffer_simps(1,5) chunk ready(5) len, unfolded all, OF hash, unfolded msg sum.case, of tx_value tx_fee]
  obtain w' ending where w': "handler_sign_tx_swap k tx_value tx_fee ?b (of_nat (length chunks)) False tok ?w = Some (w', Inl ending)"
    "payload (sw_app w') = encode_email e"
    "let t = tx_info (G_context (sw_app w')); V = G_swap_validated ?w in email_view (raw_tx t) (transaction t) = e \<and>
       (if promise_kept V tx_value tx_fee (transaction t) (take ADDRESS_LEN (drop (recipient_offset e) (raw_tx t)))
        then ending = Sched_exit 0 \<and> sent (sw_app w') = sent (sw_app ?w) @ [sign_answer k (signing_path (G_context (sw_app ?w))) h]
        else sent (sw_app w') = sent (sw_app ?w) \<and> (\<exists>ec code. ending = Swap_error SW_SWAP_FAIL ec code))"
    by blast
  from last_chunk_swap_step [OF s1(5) fit(1-3) ready(4) w'(1)] s1(1) w'(2,3) s1(6) ready(6) show ?thesis
    by (intro exI [of _ w'] exI [of _ ending]) (simp add: Let_def)
qed

section \<open>A sample exchange\<close>

text \<open>An exchange of 7 with a fee of 2 to the 20 bytes at the recipient of the sample message.\<close>

definition exchange_params :: create_transaction_parameters_t where
  "exchange_params = \<lparr>cp_coin_configuration = None, cp_coin_configuration_length = 0,
     cp_amount = Some [7], cp_amount_length = 1, cp_fee_amount = Some [2], cp_fee_amount_length = 1,
     cp_destination_address = Some (hex_string sample_destination @ [0])\<rparr>"

lemma upper_hex: "map upper_char (hex_string xs) = hex_string xs"
proof -
  have "upper_char (hex_digit d) = hex_digit d" if "d < 16" for d
    using that hex_digit_val [OF that] by (auto simp: upper_char_def word_le_nat_alt split: if_splits)
  moreover have "unat (b :: u8) div 16 < 16" "unat b mod 16 < 16" for b
    using unat_u8_bound [of b] by (simp_all add: less_mult_imp_div_less)
  ultimately show ?thesis by (induction xs) (simp_all add: hex_string_def hex_byte_def)
qed

lemma exchange_params_ok:
  "params_wf exchange_params" "acceptable W exchange_params"
  "params_kept W exchange_params (\<lambda>_. 7) (\<lambda>_. 2) tx sample_destination"
  using sample_destination_inside(2)
  by (auto simp: params_wf_def acceptable_def exchange_params_def currency_def params_kept_def number_at_def
        be_val_def upper_hex cstring_nul_free hex_string_nul_free)

lemma exchange_started:
  obtains w where "exchange_start ref_swap_lib ref_sdk exchange_params library_state = Some w"
  using copy_accepted [OF ref_swap_ok exchange_params_ok(1,2), of library_state]
  by (auto simp: exchange_start_def app_start_swap_def Let_def)

lemma sample_library: "sent (sw_app library_state) = []"
  by (simp add: library_state_def)

text \<open>The host sends the path and the sample message in two chunks.\<close>

lemma sample_exchange_run:
  obtains w w' r where "exchange_start ref_swap_lib ref_sdk exchange_params library_state = Some w"
    and "run (swap_step (\<lambda>_. 7) (\<lambda>_. 2) ref_sdk) (w, None) (map Apdu (sample_raws False sample_path)) = Some (w', Some (Sched_exit 0))"
    and "sent (sw_app w') = [sw_answer SWO_SUCCESS, sw_answer SWO_SUCCESS, r]" and "\<not> plain r"
proof -
  obtain w where w: "exchange_start ref_swap_lib ref_sdk exchange_params library_state = Some w" by (rule exchange_started)
  note start = exchange_start_ok [OF ref_swap_ok exchange_params_ok(1) w]
  obtain h where hash: "cx_hash_sha256 (sdk_crypto ref_sdk) (encode_email sample_email) 32 = (32, h)" by (simp add: ref_crypto_lib_def)
  have "1 \<le> length sample_path" "length sample_path \<le> 255" by (simp_all add: sample_path_def)
  from exchange_session [OF ref_sdk_ok ref_sends start(1,5,7) sample_delivered [OF this] this(2) sample_chunks_ok(2)
      sample_path_request wf_sample_email sample_chunks_ok(1) _ hash, where tok = False and tx_value = "\<lambda>_. 7" and tx_fee = "\<lambda>_. 2"] length_sample_email
  obtain w' ending where w': "run (swap_step (\<lambda>_. 7) (\<lambda>_. 2) ref_sdk) (w, None) (map Apdu (sample_raws False sample_path)) = Some (w', Some ending)"
    "payload (sw_app w') = encode_email sample_email"
    "promise_kept (G_swap_validated w) (\<lambda>_. 7) (\<lambda>_. 2) (transaction (tx_info (G_context (sw_app w'))))
       (take 20 (drop (recipient_offset sample_email) (raw_tx (tx_info (G_context (sw_app w')))))) \<longrightarrow>
     ending = Sched_exit 0 \<and> sent (sw_app w') = sent (sw_app w) @ replicate (length sample_chunks) (sw_answer SWO_SUCCESS) @
       [sign_answer ref_sdk [0x8000002C] h]"
    by (auto simp: Let_def split: if_splits)
  have "\<not> plain (sign_answer ref_sdk q d)" for q d by (auto simp: plain_def sign_answer_def ref_crypto_lib_def min_def)
  then show thesis using w'(1,3) that w start(3) sample_library records_kept [OF start(2)] exchange_params_ok(3)
      destination_of_payload [OF w'(2)] by (auto simp: sample_chunks_def numeral_eq_Suc)
qed

section \<open>Properties\<close>

text \<open>C15. An exchange from the agreement to the signature. The exchange application passes the agreed
  parameters, the application is called, and the host sends any commands and the user touches the
  screen, in any order. Then a response that carries a signature is the last one, the
  application has ended with it, and it is the signature over a well-formed message whose amount
  and fee are the numbers that were passed, in the native currency, and whose recipient starts
  with the address that was passed (in any case of letters).\<close>

theorem exchange_end_to_end:
  assumes "swap_ok W" and "sdk_ok k" and "params_wf params" and "exchange_start W k params w0 = Some w"
    and "run (swap_step tx_value tx_fee k) (w, None) es = Some (w', ending)"
    and "r \<in> set (drop (length (sent (sw_app w0))) (sent (sw_app w')))" and "\<not> plain r"
  shows "ending = Some (Sched_exit 0) \<and> r = last (sent (sw_app w')) \<and>
     (\<exists>e raw tx path. wf_email e \<and> email_view raw tx = e \<and> take (length (encode_email e)) raw = encode_email e \<and>
        params_kept W params tx_value tx_fee tx (take ADDRESS_LEN (drop (recipient_offset e) raw)) \<and>
        r = sign_answer k path (snd (cx_hash_sha256 (sdk_crypto k) (encode_email e) 32)))"
proof -
  note start = exchange_start_ok [OF assms(1,3,4)]
  let ?V = "G_swap_validated w" and ?before = "sent (sw_app w0)"
  have "exchange_inv tx_value tx_fee ?V ?before k (w, None)" using start by (simp add: exchange_inv_def)
  from exchange_run_inv [OF assms(2) this assms(5)] obtain rs where rs: "list_all plain rs"
    "case ending of None \<Rightarrow> sent (sw_app w') = ?before @ rs
     | Some e \<Rightarrow> ends tx_value tx_fee k ?V (?before @ rs) (sent (sw_app w')) e"
    by (auto simp: exchange_inv_def split: option.splits)
  have "sent (sw_app w') \<noteq> ?before @ rs" using assms(6,7) rs(1) by (auto simp: list_all_iff)
  with rs(2) obtain q where q: "sent (sw_app w') = (?before @ rs) @ [q]" "ending = Some (Sched_exit 0)"
    "promised_signature tx_value tx_fee ?V k q" by (cases ending) (auto simp: ends_def)
  have "r = q" using q(1) assms(6,7) rs(1) by (auto simp: list_all_iff)
  then show ?thesis using q records_kept [OF start(2)] unfolding promised_signature_def by auto
qed

theorem exchange_end_to_end_witness:
  "\<exists>w w' r. exchange_start ref_swap_lib ref_sdk exchange_params library_state = Some w \<and>
     run (swap_step (\<lambda>_. 7) (\<lambda>_. 2) ref_sdk) (w, None) (map Apdu (sample_raws False sample_path)) = Some (w', Some (Sched_exit 0)) \<and>
     r = last (sent (sw_app w')) \<and> \<not> plain r"
proof -
  obtain w w' r where run: "exchange_start ref_swap_lib ref_sdk exchange_params library_state = Some w"
    "run (swap_step (\<lambda>_. 7) (\<lambda>_. 2) ref_sdk) (w, None) (map Apdu (sample_raws False sample_path)) = Some (w', Some (Sched_exit 0))"
    "sent (sw_app w') = [sw_answer SWO_SUCCESS, sw_answer SWO_SUCCESS, r]" "\<not> plain r" by (rule sample_exchange_run)
  have "r \<in> set (drop (length (sent (sw_app library_state))) (sent (sw_app w')))" using run(3) sample_library by simp
  from exchange_end_to_end [OF ref_swap_ok ref_sdk_ok exchange_params_ok(1) run(1,2) this run(4)] run show ?thesis by auto
qed

text \<open>C16. A signing session in an exchange is decided. Let the host send a path and a well-formed
  message, cut into chunks in any way, in a signing request of either kind. Then the application
  answers every chunk but the last with 9000, ends with the last one, and sends the signature
  under that path over the SHA-256 of the message exactly when the amount, the fee and the 20 bytes
  at the recipient agree with the parameters that were passed, in the native currency; otherwise
  it ends with \<open>send_swap_error_simple\<close> under the status of a failed exchange, without a signature
  (the response of that function is the \<open>Swap_error\<close>, and not one of the responses in \<open>sent\<close>).\<close>

theorem exchange_session_decided:
  assumes "swap_ok W" and "sdk_ok k" and "sends_succeed k" and "params_wf params" and "exchange_start W k params w0 = Some w"
    and "delivered k raws (sign_commands tok pd chunks)" and "length pd \<le> 255" and "path_request pd = Some path"
    and "chunks_fit 1 chunks" and "wf_email e" and "concat chunks = encode_email e"
    and "length (encode_email e) \<le> MAX_TRANSACTION_LEN"
    and "cx_hash_sha256 (sdk_crypto k) (encode_email e) 32 = (32, h)"
  shows "\<exists>w' ending. run (swap_step tx_value tx_fee k) (w, None) (map Apdu raws) = Some (w', Some ending) \<and>
     payload (sw_app w') = encode_email e \<and>
     (let t = tx_info (G_context (sw_app w')); answers = sent (sw_app w0) @ replicate (length chunks) (sw_answer SWO_SUCCESS) in
        email_view (raw_tx t) (transaction t) = e \<and>
        (if params_kept W params tx_value tx_fee (transaction t) (take ADDRESS_LEN (drop (recipient_offset e) (raw_tx t)))
         then ending = Sched_exit 0 \<and> sent (sw_app w') = answers @ [sign_answer k path h]
         else sent (sw_app w') = answers \<and> (\<exists>ec code. ending = Swap_error SW_SWAP_FAIL ec code)))"
proof -
  note start = exchange_start_ok [OF assms(1,4,5)]
  from exchange_session [OF assms(2,3) start(1,5,7) assms(6,7,9,8,10-13), of tx_value tx_fee] show ?thesis
    unfolding records_kept [OF start(2)] start(3) .
qed

theorem exchange_session_decided_witness:
  "\<exists>w w' r. exchange_start ref_swap_lib ref_sdk exchange_params library_state = Some w \<and>
     run (swap_step (\<lambda>_. 7) (\<lambda>_. 2) ref_sdk) (w, None) (map Apdu (sample_raws True sample_path)) = Some (w', Some (Sched_exit 0)) \<and>
     sent (sw_app w') = [sw_answer SWO_SUCCESS, sw_answer SWO_SUCCESS, r]"
proof -
  obtain w where w: "exchange_start ref_swap_lib ref_sdk exchange_params library_state = Some w" by (rule exchange_started)
  obtain h where hash: "cx_hash_sha256 (sdk_crypto ref_sdk) (encode_email sample_email) 32 = (32, h)" by (simp add: ref_crypto_lib_def)
  have "1 \<le> length sample_path" "length sample_path \<le> 255" by (simp_all add: sample_path_def)
  from exchange_session_decided [OF ref_swap_ok ref_sdk_ok ref_sends exchange_params_ok(1) w sample_delivered [OF this] this(2)
      sample_path_request sample_chunks_ok(2) wf_sample_email sample_chunks_ok(1) _ hash, where tok = True and tx_value = "\<lambda>_. 7" and tx_fee = "\<lambda>_. 2"] length_sample_email
  obtain w' ending where w': "run (swap_step (\<lambda>_. 7) (\<lambda>_. 2) ref_sdk) (w, None) (map Apdu (sample_raws True sample_path)) = Some (w', Some ending)"
    "payload (sw_app w') = encode_email sample_email"
    "params_kept ref_swap_lib exchange_params (\<lambda>_. 7) (\<lambda>_. 2) (transaction (tx_info (G_context (sw_app w'))))
       (take 20 (drop (recipient_offset sample_email) (raw_tx (tx_info (G_context (sw_app w')))))) \<longrightarrow>
     ending = Sched_exit 0 \<and> sent (sw_app w') = replicate (length sample_chunks) (sw_answer SWO_SUCCESS) @
       [sign_answer ref_sdk [0x8000002C] h]"
    by (auto simp: Let_def sample_library split: if_splits)
  with w exchange_params_ok(3) destination_of_payload [OF w'(2)] show ?thesis by (auto simp: sample_chunks_def numeral_eq_Suc)
qed

text \<open>C17. In an exchange the application never leaves its objects. Whatever commands the host sends,
  with well-formed paths, and whatever the user touches, every event is handled: no read or write
  outside an object, also for the 20 bytes that the check reads at the recipient of the message.\<close>

theorem exchange_memory_safety:
  assumes "swap_ok W" and "sdk_ok k" and "params_wf params" and "exchange_start W k params w0 = Some w"
    and "list_all (event_fine k) es"
  shows "\<exists>w' ending. run (swap_step tx_value tx_fee k) (w, None) es = Some (w', ending)"
proof -
  note start = exchange_start_ok [OF assms(1,3,4)]
  have "exchange_safe (w, None)" using start by (simp add: exchange_safe_def)
  from exchange_app.run_safe [OF assms(2) this assms(5), of tx_value tx_fee] show ?thesis by auto
qed

theorem exchange_memory_safety_witness:
  "\<exists>w w' ending. exchange_start ref_swap_lib ref_sdk exchange_params library_state = Some w \<and>
     run (swap_step (\<lambda>_. 7) (\<lambda>_. 2) ref_sdk) (w, None) [User_choice True, Status_done, Recv_failure] = Some (w', ending)"
proof -
  obtain w where w: "exchange_start ref_swap_lib ref_sdk exchange_params library_state = Some w" by (rule exchange_started)
  have "list_all (event_fine ref_sdk) [User_choice True, Status_done, Recv_failure]" by (simp add: event_fine_def)
  from exchange_memory_safety [OF ref_swap_ok ref_sdk_ok exchange_params_ok(1) w this, of "\<lambda>_. 7" "\<lambda>_. 2"] w
  show ?thesis by auto
qed

end
