(* ===== verification/Unit_Tests.thy ===== *)
theory Unit_Tests
  imports Serialize Tx_Utils C_Strings
begin

text \<open>
  The unit tests of the repository, \<^verbatim>\<open>unit-tests/test_tx_parser.c\<close> and \<^verbatim>\<open>test_tx_utils.c\<close>, run on the
  model: the builder of the test messages, and every test as a function of the SDK's buffer
  functions and of what happens to be in the test's stack variables. The result of a test is whether
  its assertions hold, in their order; \<open>None\<close> is an access outside an object. Every test is shown to
  return \<open>True\<close>. The test runner is not modelled.
\<close>

section \<open>The builder\<close>

record builder_t =
  b_buf :: bytes
  b_len :: nat

definition put :: "builder_t \<Rightarrow> bytes \<Rightarrow> nat \<Rightarrow> builder_t option" where
  "put b src n = do {
     xs \<leftarrow> mem_slice src 0 n;
     buf \<leftarrow> mem_write (b_buf b) (b_len b) xs;
     Some (b\<lparr>b_buf := buf, b_len := b_len b + n\<rparr>)
   }"

definition put_u8 :: "builder_t \<Rightarrow> u8 \<Rightarrow> builder_t option" where
  "put_u8 b v = do {
     buf \<leftarrow> mem_write (b_buf b) (b_len b) [v];
     Some (b\<lparr>b_buf := buf, b_len := b_len b + 1\<rparr>)
   }"

definition put_text :: "builder_t \<Rightarrow> bytes \<Rightarrow> builder_t option" where
  "put_text b s = do {
     n \<leftarrow> strlen s;
     b \<leftarrow> put_u8 b (of_nat n);
     put b s n
   }"

definition put_body :: "builder_t \<Rightarrow> bytes \<Rightarrow> nat \<Rightarrow> builder_t option" where
  "put_body b s n = do {
     b \<leftarrow> put_u8 b (of_nat (n div 256));
     b \<leftarrow> put_u8 b (of_nat (n mod 256));
     put b s n
   }"

text \<open>A string literal, with its terminator.\<close>

definition literal :: "string \<Rightarrow> bytes" where
  "literal s = ascii s @ [0]"

abbreviation (input) "LF \<equiv> [CHR 0x0A]"
abbreviation (input) "CR \<equiv> [CHR 0x0D]"

definition CHALLENGE :: bytes where
  "CHALLENGE = [0x11, 0x22, 0x33, 0x44, 0x55, 0x66, 0x77, 0x88, 0x99, 0xaa, 0xbb, 0xcc, 0xdd, 0xee, 0xff, 0x00]"

definition ATT_HASH :: bytes where
  "ATT_HASH = [0xde, 0xad, 0xbe, 0xef] @ zeros 28"

definition build_valid :: "builder_t \<Rightarrow> builder_t option" where
  "build_valid b = do {
     let b = b\<lparr>b_len := 0\<rparr>;
     b \<leftarrow> put b CHALLENGE CHALLENGE_LEN;
     b \<leftarrow> put_text b (literal ''agent@hardmail.local'');
     b \<leftarrow> put_text b (literal ''boss@example.com'');
     b \<leftarrow> put_text b (literal ''Q3 report'');
     b \<leftarrow> put_body b (literal (''Hi,'' @ LF @ ''numbers attached.'' @ LF)) 22;
     put_u8 b 0
   }"

definition parse :: "buffer_lib \<Rightarrow> builder_t \<Rightarrow> email_t \<Rightarrow> (parser_status_e \<times> email_t) option" where
  "parse B b tx = do {
     (status, _, tx) \<leftarrow> transaction_deserialize B \<lparr>buf_ptr = b_buf b, buf_size = b_len b, buf_offset = 0\<rparr> tx False;
     Some (status, tx)
   }"

text \<open>The first \<open>n\<close> bytes behind a pointer into \<open>mem\<close> are those of an array.\<close>

definition memory_equal :: "bytes \<Rightarrow> ptr \<Rightarrow> bytes \<Rightarrow> nat \<Rightarrow> bool option" where
  "memory_equal mem p expected n = do {
     xs \<leftarrow> ptr_slice mem p n;
     ys \<leftarrow> mem_slice expected 0 n;
     Some (xs = ys)
   }"

text \<open>An assertion that fails ends the test.\<close>

definition and_then :: "bool option \<Rightarrow> bool option \<Rightarrow> bool option" where
  "and_then a rest = (case a of None \<Rightarrow> None | Some ok \<Rightarrow> if ok then rest else Some False)"

fun assert_all :: "bool option list \<Rightarrow> bool option" where
  "assert_all [] = Some True"
| "assert_all (a # as) = and_then a (assert_all as)"

section \<open>The tests\<close>

definition test_parse_valid :: "buffer_lib \<Rightarrow> builder_t \<Rightarrow> email_t \<Rightarrow> bool option" where
  "test_parse_valid B b tx = do {
     b \<leftarrow> build_valid b;
     (status, tx) \<leftarrow> parse B b tx;
     assert_all
       [Some (status = PARSING_OK),
        memory_equal (b_buf b) (tx_challenge tx) CHALLENGE CHALLENGE_LEN,
        Some (tx_from_len tx = 20),
        memory_equal (b_buf b) (tx_from tx) (literal ''agent@hardmail.local'') 20,
        Some (tx_to_len tx = 16),
        memory_equal (b_buf b) (tx_to tx) (literal ''boss@example.com'') 16,
        Some (tx_subject_len tx = 9),
        memory_equal (b_buf b) (tx_subject tx) (literal ''Q3 report'') 9,
        Some (tx_body_len tx = 22),
        memory_equal (b_buf b) (tx_body tx) (literal (''Hi,'' @ LF @ ''numbers attached.'' @ LF)) 22,
        Some (tx_has_attachment tx = 0)]
   }"

definition test_parse_with_attachment :: "buffer_lib \<Rightarrow> builder_t \<Rightarrow> email_t \<Rightarrow> bool option" where
  "test_parse_with_attachment B b tx = do {
     b \<leftarrow> build_valid b;
     let b = b\<lparr>b_len := b_len b - 1\<rparr>;
     b \<leftarrow> put_u8 b 1;
     b \<leftarrow> put_text b (literal ''q3-summary.txt'');
     b \<leftarrow> put_u8 b 0;
     b \<leftarrow> put_u8 b 0;
     b \<leftarrow> put_u8 b 0x01;
     b \<leftarrow> put_u8 b 0x2c;
     b \<leftarrow> put b ATT_HASH ATT_HASH_LEN;
     (status, tx) \<leftarrow> parse B b tx;
     assert_all
       [Some (status = PARSING_OK),
        Some (tx_has_attachment tx = 1),
        Some (tx_att_name_len tx = 14),
        memory_equal (b_buf b) (tx_att_name tx) (literal ''q3-summary.txt'') 14,
        Some (tx_att_size tx = 300),
        memory_equal (b_buf b) (tx_att_hash tx) ATT_HASH ATT_HASH_LEN]
   }"

definition test_round_trip :: "buffer_lib \<Rightarrow> builder_t \<Rightarrow> email_t \<Rightarrow> bytes \<Rightarrow> bool option" where
  "test_round_trip B b tx out = do {
     b \<leftarrow> build_valid b;
     (status, tx) \<leftarrow> parse B b tx;
     if status \<noteq> PARSING_OK then Some False
     else do {
       (n, out) \<leftarrow> transaction_serialize (b_buf b) tx out MAX_TX_LEN;
       assert_all
         [Some (n = int (b_len b)),
          memory_equal out (Some 0) (b_buf b) (b_len b)]
     }
   }"

definition test_body_max_length_accepted :: "buffer_lib \<Rightarrow> builder_t \<Rightarrow> email_t \<Rightarrow> bool option" where
  "test_body_max_length_accepted B b tx = do {
     let big = replicate MAX_BODY_LEN 97;
     let b = b\<lparr>b_len := 0\<rparr>;
     b \<leftarrow> put b CHALLENGE CHALLENGE_LEN;
     b \<leftarrow> put_text b (literal ''a@b.co'');
     b \<leftarrow> put_text b (literal ''c@d.co'');
     b \<leftarrow> put_text b (literal ''s'');
     b \<leftarrow> put_body b big MAX_BODY_LEN;
     b \<leftarrow> put_u8 b 0;
     (status, tx) \<leftarrow> parse B b tx;
     assert_all [Some (status = PARSING_OK), Some (tx_body_len tx = of_nat MAX_BODY_LEN)]
   }"

definition test_reject_empty_from :: "buffer_lib \<Rightarrow> builder_t \<Rightarrow> email_t \<Rightarrow> bool option" where
  "test_reject_empty_from B b tx = do {
     let b = b\<lparr>b_len := 0\<rparr>;
     b \<leftarrow> put b CHALLENGE CHALLENGE_LEN;
     b \<leftarrow> put_u8 b 0;
     (status, tx) \<leftarrow> parse B b tx;
     Some (status = FROM_PARSING_ERROR)
   }"

definition test_reject_control_char_in_subject :: "buffer_lib \<Rightarrow> builder_t \<Rightarrow> email_t \<Rightarrow> bool option" where
  "test_reject_control_char_in_subject B b tx = do {
     let b = b\<lparr>b_len := 0\<rparr>;
     b \<leftarrow> put b CHALLENGE CHALLENGE_LEN;
     b \<leftarrow> put_text b (literal ''a@b.co'');
     b \<leftarrow> put_text b (literal ''c@d.co'');
     b \<leftarrow> put_text b (literal (''bad'' @ LF @ ''subject''));
     b \<leftarrow> put_body b (literal ''x'') 1;
     b \<leftarrow> put_u8 b 0;
     (status, tx) \<leftarrow> parse B b tx;
     Some (status = SUBJECT_PARSING_ERROR)
   }"

definition test_reject_cr_in_body :: "buffer_lib \<Rightarrow> builder_t \<Rightarrow> email_t \<Rightarrow> bool option" where
  "test_reject_cr_in_body B b tx = do {
     let b = b\<lparr>b_len := 0\<rparr>;
     b \<leftarrow> put b CHALLENGE CHALLENGE_LEN;
     b \<leftarrow> put_text b (literal ''a@b.co'');
     b \<leftarrow> put_text b (literal ''c@d.co'');
     b \<leftarrow> put_text b (literal ''s'');
     b \<leftarrow> put_body b (literal (''line'' @ CR @ LF @ ''line'')) 10;
     b \<leftarrow> put_u8 b 0;
     (status, tx) \<leftarrow> parse B b tx;
     Some (status = FIELD_ENCODING_ERROR)
   }"

definition test_reject_empty_body :: "buffer_lib \<Rightarrow> builder_t \<Rightarrow> email_t \<Rightarrow> bool option" where
  "test_reject_empty_body B b tx = do {
     let b = b\<lparr>b_len := 0\<rparr>;
     b \<leftarrow> put b CHALLENGE CHALLENGE_LEN;
     b \<leftarrow> put_text b (literal ''a@b.co'');
     b \<leftarrow> put_text b (literal ''c@d.co'');
     b \<leftarrow> put_text b (literal ''s'');
     b \<leftarrow> put_body b (literal '''') 0;
     b \<leftarrow> put_u8 b 0;
     (status, tx) \<leftarrow> parse B b tx;
     Some (status = BODY_PARSING_ERROR)
   }"

definition test_reject_oversized_body :: "buffer_lib \<Rightarrow> builder_t \<Rightarrow> email_t \<Rightarrow> bool option" where
  "test_reject_oversized_body B b tx = do {
     let b = b\<lparr>b_len := 0\<rparr>;
     b \<leftarrow> put b CHALLENGE CHALLENGE_LEN;
     b \<leftarrow> put_text b (literal ''a@b.co'');
     b \<leftarrow> put_text b (literal ''c@d.co'');
     b \<leftarrow> put_text b (literal ''s'');
     b \<leftarrow> put_u8 b (of_nat ((MAX_BODY_LEN + 1) div 256));
     b \<leftarrow> put_u8 b (of_nat ((MAX_BODY_LEN + 1) mod 256));
     (status, tx) \<leftarrow> parse B b tx;
     Some (status = BODY_PARSING_ERROR)
   }"

definition test_reject_truncated_challenge :: "buffer_lib \<Rightarrow> builder_t \<Rightarrow> email_t \<Rightarrow> bool option" where
  "test_reject_truncated_challenge B b tx = do {
     let b = b\<lparr>b_len := 0\<rparr>;
     b \<leftarrow> put b CHALLENGE (CHALLENGE_LEN - 1);
     (status, tx) \<leftarrow> parse B b tx;
     Some (status = CHALLENGE_PARSING_ERROR)
   }"

definition test_reject_trailing_bytes :: "buffer_lib \<Rightarrow> builder_t \<Rightarrow> email_t \<Rightarrow> bool option" where
  "test_reject_trailing_bytes B b tx = do {
     b \<leftarrow> build_valid b;
     b \<leftarrow> put_u8 b 0x41;
     (status, tx) \<leftarrow> parse B b tx;
     Some (status = WRONG_LENGTH_ERROR)
   }"

definition test_reject_multiple_attachments :: "buffer_lib \<Rightarrow> builder_t \<Rightarrow> email_t \<Rightarrow> bool option" where
  "test_reject_multiple_attachments B b tx = do {
     b \<leftarrow> build_valid b;
     let b = b\<lparr>b_len := b_len b - 1\<rparr>;
     b \<leftarrow> put_u8 b 2;
     (status, tx) \<leftarrow> parse B b tx;
     Some (status = ATTACHMENT_PARSING_ERROR)
   }"

definition test_reject_truncated_attachment_hash :: "buffer_lib \<Rightarrow> builder_t \<Rightarrow> email_t \<Rightarrow> bool option" where
  "test_reject_truncated_attachment_hash B b tx = do {
     b \<leftarrow> build_valid b;
     let b = b\<lparr>b_len := b_len b - 1\<rparr>;
     b \<leftarrow> put_u8 b 1;
     b \<leftarrow> put_text b (literal ''f.txt'');
     b \<leftarrow> put_u8 b 0;
     b \<leftarrow> put_u8 b 0;
     b \<leftarrow> put_u8 b 0;
     b \<leftarrow> put_u8 b 10;
     b \<leftarrow> put b ATT_HASH (ATT_HASH_LEN - 1);
     (status, tx) \<leftarrow> parse B b tx;
     Some (status = ATTACHMENT_PARSING_ERROR)
   }"

definition test_reject_payload_over_max :: "buffer_lib \<Rightarrow> builder_t \<Rightarrow> email_t \<Rightarrow> bool option" where
  "test_reject_payload_over_max B b tx = do {
     b \<leftarrow> build_valid b;
     (status, _, tx) \<leftarrow>
       transaction_deserialize B \<lparr>buf_ptr = b_buf b, buf_size = MAX_TX_LEN + 1, buf_offset = 0\<rparr> tx False;
     Some (status = WRONG_LENGTH_ERROR)
   }"

text \<open>The list of \<open>main\<close>, with the stack variables of the tests.\<close>

definition parser_tests :: "buffer_lib \<Rightarrow> builder_t \<Rightarrow> email_t \<Rightarrow> bytes \<Rightarrow> bool option list" where
  "parser_tests B b tx out =
     [test_parse_valid B b tx,
      test_parse_with_attachment B b tx,
      test_round_trip B b tx out,
      test_body_max_length_accepted B b tx,
      test_reject_empty_from B b tx,
      test_reject_control_char_in_subject B b tx,
      test_reject_cr_in_body B b tx,
      test_reject_empty_body B b tx,
      test_reject_oversized_body B b tx,
      test_reject_truncated_challenge B b tx,
      test_reject_trailing_bytes B b tx,
      test_reject_multiple_attachments B b tx,
      test_reject_truncated_attachment_hash B b tx,
      test_reject_payload_over_max B b tx]"

text \<open>The test of the memo helpers.\<close>

definition good_ascii :: bytes where
  "good_ascii = [0x48, 0x65, 0x6c, 0x6c, 0x6f, 0x21]"

definition bad_ascii :: bytes where
  "bad_ascii = [0x32, 0xc3, 0x97, 0x32, 0x3d, 0x34]"

definition test_tx_utils :: "bool option" where
  "test_tx_utils = do {
     good \<leftarrow> transaction_utils_check_encoding (Some good_ascii) 6;
     bad \<leftarrow> transaction_utils_check_encoding (Some bad_ascii) 6;
     if \<not> good \<or> bad then Some False
     else do {
       let output = zeros MAX_MEMO_LEN;
       (ok, output) \<leftarrow> transaction_utils_format_memo (Some good_ascii) 6 (Some output) (of_nat MAX_MEMO_LEN);
       same \<leftarrow> strcmp_eq output (literal ''Hello!'');
       (too_small, output) \<leftarrow> transaction_utils_format_memo (Some good_ascii) 6 (Some output) 6;
       Some (ok \<and> same \<and> \<not> too_small)
     }
   }"

section \<open>The builder as a writer\<close>

text \<open>A builder that holds \<open>xs\<close>, with \<open>r\<close> behind it in its array.\<close>

definition holding :: "bytes \<Rightarrow> bytes \<Rightarrow> builder_t" where
  "holding xs r = \<lparr>b_buf = xs @ r, b_len = length xs\<rparr>"

named_theorems builder \<open>what the operations of the builder write\<close>

lemma write_behind: "length src \<le> length r \<Longrightarrow> mem_write (xs @ r) (length xs) src = Some (xs @ src @ drop (length src) r)"
  by (simp add: mem_write_def)

lemma holding_start [builder]: "b\<lparr>b_len := 0\<rparr> = holding [] (b_buf b)"
  by (simp add: holding_def)

lemma put_holding [builder]:
  "n \<le> length src \<Longrightarrow> n \<le> length r \<Longrightarrow> put (holding xs r) src n = Some (holding (xs @ take n src) (drop n r))"
  by (simp add: put_def holding_def mem_slice_def slice_def write_behind)

lemma put_u8_holding [builder]: "1 \<le> length r \<Longrightarrow> put_u8 (holding xs r) v = Some (holding (xs @ [v]) (drop 1 r))"
  using write_behind [of "[v]" r xs] by (simp add: put_u8_def holding_def)

lemma ascii_no_nul: "CHR 0x00 \<notin> set s \<Longrightarrow> 0 \<notin> set (ascii s)"
proof -
  have "c = CHR 0x00" if "(of_nat (of_char c) :: u8) = 0" for c
  proof (rule of_char_eqI)
    have "(of_char c :: nat) mod 256 = 0" using arg_cong [OF that, of unat] by (simp add: unsigned_of_nat take_bit_eq_mod)
    then show "(of_char c :: nat) = of_char CHR 0x00" by simp
  qed
  then show "CHR 0x00 \<notin> set s \<Longrightarrow> 0 \<notin> set (ascii s)" by (auto simp: ascii_def)
qed

lemma literal_simps [builder]: "length (literal s) = Suc (length s)" "n = length s \<Longrightarrow> take n (literal s) = ascii s"
  by (simp_all add: literal_def ascii_def)

lemma put_text_holding [builder]:
  assumes "CHR 0x00 \<notin> set s" and "Suc (length s) \<le> length r"
  shows "put_text (holding xs r) (literal s) = Some (holding (xs @ encode_text (ascii s)) (drop (Suc (length s)) r))"
proof -
  have n: "length (ascii s) = length s" by (simp add: ascii_def)
  have "strlen (literal s) = Some (length s)"
    using cstring_nul_free [OF ascii_no_nul [OF assms(1)], of "[]"] n by (simp add: literal_def strlen_terminated)
  moreover have "put (holding (xs @ [of_nat (length s)]) (drop 1 r)) (literal s) (length s) =
      Some (holding (xs @ encode_text (ascii s)) (drop (Suc (length s)) r))"
    using assms(2) n put_holding [of "length s" "literal s" "drop 1 r"] by (simp add: literal_def encode_text_def le_diff_conv2)
  moreover have "put_u8 (holding xs r) (of_nat (length s)) = Some (holding (xs @ [of_nat (length s)]) (drop 1 r))"
    using assms(2) by (intro put_u8_holding) simp
  ultimately show ?thesis by (simp add: put_text_def)
qed

lemma put_body_holding [builder]:
  assumes "n \<le> length s" and "n < 65536" and "n + 2 \<le> length r"
  shows "put_body (holding xs r) s n = Some (holding (xs @ encode_body (take n s)) (drop (n + 2) r))"
proof -
  have "be16_bytes (of_nat n) = [of_nat (n div 256), of_nat (n mod 256)]"
    using assms(2) be16_round_trip [of "of_nat (n div 256)" "of_nat (n mod 256)"] by (simp add: be16_val_def)
  then show ?thesis using assms by (simp add: put_body_def builder encode_body_def)
qed

lemma b_buf_holding [builder]: "b_buf (holding xs r) = xs @ r" "b_len (holding xs r) = length xs"
  by (simp_all add: holding_def)

lemma length_ascii [simp]: "length (ascii s) = length s"
  by (simp add: ascii_def)

section \<open>The parser on a builder\<close>

lemma parse_verdict:
  assumes "buffer_ok B" and "length xs \<le> MAX_TX_LEN"
  shows "\<exists>tx'. parse B (holding xs r) tx = Some (case parse_email xs of Inl s \<Rightarrow> s | Inr _ \<Rightarrow> PARSING_OK, tx') \<and>
     (\<forall>e. parse_email xs = Inr e \<longrightarrow> email_view (xs @ r) tx' = e \<and> tx_in (length (xs @ r)) tx' \<and>
        tx_has_attachment tx' = (case e_attachment e of None \<Rightarrow> 0 | Some _ \<Rightarrow> 1))"
proof -
  let ?b = "\<lparr>buf_ptr = xs @ r, buf_size = length xs, buf_offset = 0\<rparr>"
  have "buf_wf ?b" "buf_rest ?b = xs" "buf_size ?b \<le> 2600" "buf_ptr ?b = xs @ r"
    using assms(2) by (simp_all add: buf_wf_def buf_rest_def buf_left_def slice_def)
  from deserialize_refines_parse_email [OF assms(1) this(1,3), of tx False, unfolded this(2,4)] show ?thesis
    by (auto simp: parse_def holding_def)
qed

lemma accepted:
  assumes "buffer_ok B" and "wf_email e" and "length (encode_email e) \<le> MAX_TX_LEN"
  obtains tx' where "parse B (holding (encode_email e) r) tx = Some (PARSING_OK, tx')"
    and "email_view (encode_email e @ r) tx' = e" and "tx_in (length (encode_email e @ r)) tx'"
    and "tx_has_attachment tx' = (case e_attachment e of None \<Rightarrow> 0 | Some _ \<Rightarrow> 1)"
proof -
  have "parse_email (encode_email e) = Inr e" using assms(2) by (simp add: parse_email_Inr)
  then show thesis using parse_verdict [OF assms(1,3), of r tx] that by auto
qed

text \<open>A test that ends with the verdict on a payload that is refused.\<close>

lemma refused:
  assumes "buffer_ok B" and "parse_email xs = Inl s" and "length xs \<le> MAX_TX_LEN"
  shows "(do { (status, tx) \<leftarrow> parse B (holding xs r) tx; Some (status = s) }) = Some True"
  using parse_verdict [OF assms(1,3), of r tx] assms(2) by auto

lemma memory_equal_deref:
  assumes "ptr_in (length mem) p m" and "deref mem p m = xs"
  shows "m = length xs" and "n = length xs \<Longrightarrow> memory_equal mem p (xs @ ys) n = Some True"
proof -
  show m: "m = length xs" using ptr_in_length [OF assms(1)] assms(2) by simp
  from assms(1) obtain off where "p = Some off" "off + m \<le> length mem" by (auto simp: ptr_in_def split: option.splits)
  then show "n = length xs \<Longrightarrow> memory_equal mem p (xs @ ys) n = Some True"
    using assms(2) m by (simp add: memory_equal_def ptr_slice_def mem_slice_def) (simp add: slice_def)
qed

lemma fields_read:
  assumes "email_view mem tx = e" and "tx_in (length mem) tx"
  shows "unat (tx_from_len tx) = length (e_from e)" "unat (tx_to_len tx) = length (e_to e)"
      "unat (tx_subject_len tx) = length (e_subject e)" "unat (tx_body_len tx) = length (e_body e)"
    and "n = length (e_challenge e) \<Longrightarrow> memory_equal mem (tx_challenge tx) (e_challenge e @ ys) n = Some True"
    and "n = length (e_from e) \<Longrightarrow> memory_equal mem (tx_from tx) (e_from e @ ys) n = Some True"
    and "n = length (e_to e) \<Longrightarrow> memory_equal mem (tx_to tx) (e_to e @ ys) n = Some True"
    and "n = length (e_subject e) \<Longrightarrow> memory_equal mem (tx_subject tx) (e_subject e @ ys) n = Some True"
    and "n = length (e_body e) \<Longrightarrow> memory_equal mem (tx_body tx) (e_body e @ ys) n = Some True"
proof -
  have v: "deref mem (tx_challenge tx) 16 = e_challenge e" "deref mem (tx_from tx) (unat (tx_from_len tx)) = e_from e"
    "deref mem (tx_to tx) (unat (tx_to_len tx)) = e_to e" "deref mem (tx_subject tx) (unat (tx_subject_len tx)) = e_subject e"
    "deref mem (tx_body tx) (unat (tx_body_len tx)) = e_body e"
    using assms(1) by (auto simp: email_view_def)
  have i: "ptr_in (length mem) (tx_challenge tx) 16" "ptr_in (length mem) (tx_from tx) (unat (tx_from_len tx))"
    "ptr_in (length mem) (tx_to tx) (unat (tx_to_len tx))" "ptr_in (length mem) (tx_subject tx) (unat (tx_subject_len tx))"
    "ptr_in (length mem) (tx_body tx) (unat (tx_body_len tx))"
    using assms(2) by (simp_all add: tx_in_def)
  note c = memory_equal_deref [OF i(1) v(1)] and f = memory_equal_deref [OF i(2) v(2)] and t = memory_equal_deref [OF i(3) v(3)]
    and s = memory_equal_deref [OF i(4) v(4)] and d = memory_equal_deref [OF i(5) v(5)]
  show "unat (tx_from_len tx) = length (e_from e)" "unat (tx_to_len tx) = length (e_to e)"
    "unat (tx_subject_len tx) = length (e_subject e)" "unat (tx_body_len tx) = length (e_body e)"
    by (rule f(1) t(1) s(1) d(1))+
  show "n = length (e_challenge e) \<Longrightarrow> memory_equal mem (tx_challenge tx) (e_challenge e @ ys) n = Some True" by (rule c(2))
  show "n = length (e_from e) \<Longrightarrow> memory_equal mem (tx_from tx) (e_from e @ ys) n = Some True" by (rule f(2))
  show "n = length (e_to e) \<Longrightarrow> memory_equal mem (tx_to tx) (e_to e @ ys) n = Some True" by (rule t(2))
  show "n = length (e_subject e) \<Longrightarrow> memory_equal mem (tx_subject tx) (e_subject e @ ys) n = Some True" by (rule s(2))
  show "n = length (e_body e) \<Longrightarrow> memory_equal mem (tx_body tx) (e_body e @ ys) n = Some True" by (rule d(2))
qed

lemma attachment_read:
  assumes "email_view mem tx = e" and "tx_in (length mem) tx" and "e_attachment e = Some a"
  shows "tx_att_size tx = att_size a" "unat (tx_att_name_len tx) = length (att_name a)"
    and "n = length (att_name a) \<Longrightarrow> memory_equal mem (tx_att_name tx) (att_name a @ ys) n = Some True"
    and "n = length (att_hash a) \<Longrightarrow> memory_equal mem (tx_att_hash tx) (att_hash a @ ys) n = Some True"
proof -
  from assms(1,3) have h: "tx_has_attachment tx \<noteq> 0" "tx_att_size tx = att_size a"
    "deref mem (tx_att_name tx) (unat (tx_att_name_len tx)) = att_name a" "deref mem (tx_att_hash tx) 32 = att_hash a"
    by (auto simp: email_view_def split: if_splits)
  with assms(2) have p: "ptr_in (length mem) (tx_att_name tx) (unat (tx_att_name_len tx))" "ptr_in (length mem) (tx_att_hash tx) 32"
    by (simp_all add: tx_in_def)
  show "tx_att_size tx = att_size a" by (rule h(2))
  show "unat (tx_att_name_len tx) = length (att_name a)" by (rule memory_equal_deref(1) [OF p(1) h(3)])
  show "n = length (att_name a) \<Longrightarrow> memory_equal mem (tx_att_name tx) (att_name a @ ys) n = Some True"
    by (rule memory_equal_deref(2) [OF p(1) h(3)])
  show "n = length (att_hash a) \<Longrightarrow> memory_equal mem (tx_att_hash tx) (att_hash a @ ys) n = Some True"
    by (rule memory_equal_deref(2) [OF p(2) h(4)])
qed

section \<open>Messages that are accepted\<close>

lemmas grammar = parse_email_def parse_headers_def parse_text_def parse_body_def parse_attachment_def
lemmas constants = CHALLENGE_def ATT_HASH_def ascii_def

definition valid_body :: bytes where
  "valid_body = ascii (''Hi,'' @ LF @ ''numbers attached.'' @ LF)"

definition valid_email :: email where
  "valid_email = \<lparr>e_challenge = CHALLENGE, e_from = ascii ''agent@hardmail.local'', e_to = ascii ''boss@example.com'',
     e_subject = ascii ''Q3 report'', e_body = valid_body, e_attachment = None\<rparr>"

definition valid_start :: bytes where
  "valid_start = CHALLENGE @ encode_text (ascii ''agent@hardmail.local'') @ encode_text (ascii ''boss@example.com'') @
     encode_text (ascii ''Q3 report'') @ encode_body valid_body"

lemma lengths [simp]:
  "length CHALLENGE = 16" "length ATT_HASH = 32" "length (encode_text xs) = Suc (length xs)"
  "length (encode_body xs) = length xs + 2" "length valid_body = 22" "length valid_start = 88" "valid_start \<noteq> []"
proof -
  show l: "length CHALLENGE = 16" "length ATT_HASH = 32" "length (encode_text xs) = Suc (length xs)"
    "length (encode_body xs) = length xs + 2" "length valid_body = 22" for xs
    by (simp_all add: CHALLENGE_def ATT_HASH_def encode_text_def encode_body_def valid_body_def be16_bytes_def)
  then show v: "length valid_start = 88" by (simp add: valid_start_def)
  then show "valid_start \<noteq> []" by auto
qed

lemma valid_email_ok: "wf_email valid_email" "encode_email valid_email = valid_start @ [0]"
  by (simp_all add: wf_email_def valid_email_def text_field_wf_def constants printable_def body_char_def valid_body_def
      encode_email_def encode_attachment_def valid_start_def)

lemma build_valid_holding [builder]:
  "length (b_buf b) = 2664 \<Longrightarrow> build_valid b = Some (holding (valid_start @ [0]) (drop 89 (b_buf b)))"
  by (simp add: build_valid_def builder Let_def valid_start_def valid_body_def)

text \<open>The last byte is taken back.\<close>

lemma valid_start_holding [builder]: "(holding (valid_start @ [0]) r)\<lparr>b_len := 88\<rparr> = holding valid_start (0 # r)"
  by (simp add: holding_def)

lemma and_then_simps [simp]: "and_then (Some True) rest = rest" "and_then (Some False) rest = Some False"
  by (simp_all add: and_then_def)

theorem test_parse_valid_passes:
  assumes B: "buffer_ok B" and b: "length (b_buf b) = 2664"
  shows "test_parse_valid B b tx = Some True"
proof -
  let ?mem = "encode_email valid_email @ drop 89 (b_buf b)"
  obtain tx' where p: "parse B (holding (encode_email valid_email) (drop 89 (b_buf b))) tx = Some (PARSING_OK, tx')"
    and v: "email_view ?mem tx' = valid_email" "tx_in (length ?mem) tx'"
    and h: "tx_has_attachment tx' = (case e_attachment valid_email of None \<Rightarrow> 0 | Some _ \<Rightarrow> 1)"
    by (rule accepted [OF B valid_email_ok(1), where r = "drop 89 (b_buf b)" and tx = tx]) (simp_all add: valid_email_ok)
  note m = fields_read(6-9) [OF v, where ys = "[0]"] and c = fields_read(5) [OF v, where ys = "[]"]
  have "memory_equal ?mem (tx_challenge tx') CHALLENGE 16 = Some True"
    "memory_equal ?mem (tx_from tx') (literal ''agent@hardmail.local'') 20 = Some True"
    "memory_equal ?mem (tx_to tx') (literal ''boss@example.com'') 16 = Some True"
    "memory_equal ?mem (tx_subject tx') (literal ''Q3 report'') 9 = Some True"
    "memory_equal ?mem (tx_body tx') (literal (''Hi,'' @ LF @ ''numbers attached.'' @ LF)) 22 = Some True"
    using c [of 16] m(1) [of 20] m(2) [of 16] m(3) [of 9] m(4) [of 22] by (simp_all add: valid_email_def literal_def valid_body_def)
  moreover have "tx_from_len tx' = 20" "tx_to_len tx' = 16" "tx_subject_len tx' = 9" "tx_body_len tx' = 22" "tx_has_attachment tx' = 0"
    using fields_read(1-4) [OF v] h by (simp_all add: valid_email_def word_unat_eq_iff)
  ultimately show ?thesis
    using p b by (simp add: test_parse_valid_def builder valid_email_ok)
qed

definition attachment_email :: email where
  "attachment_email = valid_email\<lparr>e_attachment :=
     Some \<lparr>att_name = ascii ''q3-summary.txt'', att_size = 300, att_hash = ATT_HASH\<rparr>\<rparr>"

lemma be32_300: "be32_bytes 300 = [0, 0, 1, 0x2c]"
  using be32_round_trip [of 0 0 1 "0x2c"] by (simp add: be32_val_def)

lemma attachment_email_ok:
  "wf_email attachment_email"
  "encode_email attachment_email = valid_start @ [1] @ encode_text (ascii ''q3-summary.txt'') @ [0, 0, 1, 0x2c] @ ATT_HASH"
proof -
  show "wf_email attachment_email"
    using valid_email_ok(1)
    by (simp add: wf_email_def attachment_email_def wf_attachment_def text_field_wf_def ascii_def printable_def)
  show "encode_email attachment_email = valid_start @ [1] @ encode_text (ascii ''q3-summary.txt'') @ [0, 0, 1, 0x2c] @ ATT_HASH"
    by (simp add: encode_email_def attachment_email_def valid_email_def encode_attachment_def valid_start_def be32_300)
qed

theorem test_parse_with_attachment_passes:
  assumes B: "buffer_ok B" and b: "length (b_buf b) = 2664"
  shows "test_parse_with_attachment B b tx = Some True"
proof -
  let ?mem = "encode_email attachment_email @ drop 140 (b_buf b)"
  obtain tx' where p: "parse B (holding (encode_email attachment_email) (drop 140 (b_buf b))) tx = Some (PARSING_OK, tx')"
    and v: "email_view ?mem tx' = attachment_email" "tx_in (length ?mem) tx'"
    and h: "tx_has_attachment tx' = (case e_attachment attachment_email of None \<Rightarrow> 0 | Some _ \<Rightarrow> 1)"
    by (rule accepted [OF B attachment_email_ok(1), where r = "drop 140 (b_buf b)" and tx = tx]) (simp_all add: attachment_email_ok)
  have a: "e_attachment attachment_email = Some \<lparr>att_name = ascii ''q3-summary.txt'', att_size = 300, att_hash = ATT_HASH\<rparr>"
    by (simp add: attachment_email_def)
  note l = attachment_read(1,2) [OF v a]
  have "memory_equal ?mem (tx_att_name tx') (literal ''q3-summary.txt'') 14 = Some True"
    "memory_equal ?mem (tx_att_hash tx') ATT_HASH 32 = Some True"
    using attachment_read(3) [OF v a, of 14 "[0]"] attachment_read(4) [OF v a, of 32 "[]"] by (simp_all add: literal_def)
  moreover have "tx_att_name_len tx' = 14" "tx_att_size tx' = 300" "tx_has_attachment tx' = 1"
    using l h a by (simp_all add: word_unat_eq_iff)
  ultimately show ?thesis
    using p b by (simp add: test_parse_with_attachment_def builder attachment_email_ok)
qed

text \<open>Serializing the parsed message gives the original bytes.\<close>

theorem test_round_trip_passes:
  assumes B: "buffer_ok B" and b: "length (b_buf b) = 2664" and out: "length out = MAX_TX_LEN"
  shows "test_round_trip B b tx out = Some True"
proof -
  let ?mem = "encode_email valid_email @ drop 89 (b_buf b)"
  obtain tx' where p: "parse B (holding (encode_email valid_email) (drop 89 (b_buf b))) tx = Some (PARSING_OK, tx')"
    and v: "email_view ?mem tx' = valid_email" "tx_in (length ?mem) tx'"
    by (rule accepted [OF B valid_email_ok(1), where r = "drop 89 (b_buf b)" and tx = tx]) (simp_all add: valid_email_ok)
  have "transaction_serialize ?mem tx' out 2600 = Some (89, encode_email valid_email @ drop 89 out)"
    using transaction_serialize_ok [of ?mem tx' 2600 out] v out by (simp add: valid_email_ok)
  moreover have "memory_equal (encode_email valid_email @ drop 89 out) (Some 0) ?mem 89 = Some True"
    using out by (simp add: memory_equal_def ptr_slice_def mem_slice_def slice_def valid_email_ok)
  ultimately show ?thesis
    using p b by (simp add: test_round_trip_def builder valid_email_ok)
qed

text \<open>The longest body.\<close>

theorem test_body_max_length_accepted_passes:
  assumes B: "buffer_ok B" and b: "length (b_buf b) = 2664"
  shows "test_body_max_length_accepted B b tx = Some True"
proof -
  let ?e = "\<lparr>e_challenge = CHALLENGE, e_from = ascii ''a@b.co'', e_to = ascii ''c@d.co'', e_subject = ascii ''s'',
    e_body = replicate 2048 97, e_attachment = None\<rparr>"
  have e: "encode_email ?e = CHALLENGE @ encode_text (ascii ''a@b.co'') @ encode_text (ascii ''c@d.co'') @
      encode_text (ascii ''s'') @ encode_body (replicate 2048 97) @ [0]"
    by (simp add: encode_email_def encode_attachment_def)
  have wf: "wf_email ?e"
    by (simp add: wf_email_def text_field_wf_def constants printable_def body_char_def list_all_iff)
  obtain tx' where p: "parse B (holding (encode_email ?e) (drop 2083 (b_buf b))) tx = Some (PARSING_OK, tx')"
    and v: "email_view (encode_email ?e @ drop 2083 (b_buf b)) tx' = ?e" "tx_in (length (encode_email ?e @ drop 2083 (b_buf b))) tx'"
    by (rule accepted [OF B wf, where r = "drop 2083 (b_buf b)" and tx = tx]) (simp_all add: e)
  have "tx_body_len tx' = 2048" using fields_read(4) [OF v] by (simp add: word_unat_eq_iff)
  then show ?thesis using p b unfolding e by (simp add: test_body_max_length_accepted_def builder Let_def)
qed

section \<open>Messages that are refused\<close>

lemma valid_before_attachment:
  "parse_headers (valid_start @ att) = Inr (e_from valid_email, e_to valid_email, e_subject valid_email, encode_body valid_body @ att)"
  "parse_body (encode_body valid_body @ att) = Inr (valid_body, att)"
  using valid_email_ok(1)
  by (simp_all add: valid_start_def parse_headers_Inr parse_body_Inr wf_email_def valid_email_def)

lemma bad_attachment: "parse_attachment att = None \<Longrightarrow> parse_email (valid_start @ att) = Inl ATTACHMENT_PARSING_ERROR"
  by (simp add: parse_email_def valid_before_attachment)

lemma trailing_byte: "parse_email (valid_start @ [0, x]) = Inl WRONG_LENGTH_ERROR"
  by (simp add: parse_email_def valid_before_attachment parse_attachment_def)

lemmas evaluate = constants grammar encode_text_def encode_body_def be16_bytes_def printable_def body_char_def unat_be16_val

theorem test_reject_empty_from_passes:
  "buffer_ok B \<Longrightarrow> length (b_buf b) = 2664 \<Longrightarrow> test_reject_empty_from B b tx = Some True"
  by (simp add: test_reject_empty_from_def builder Let_def, rule refused) (simp_all add: evaluate)

theorem test_reject_control_char_in_subject_passes:
  "buffer_ok B \<Longrightarrow> length (b_buf b) = 2664 \<Longrightarrow> test_reject_control_char_in_subject B b tx = Some True"
  by (simp add: test_reject_control_char_in_subject_def builder Let_def, rule refused) (simp_all add: evaluate)

theorem test_reject_cr_in_body_passes:
  "buffer_ok B \<Longrightarrow> length (b_buf b) = 2664 \<Longrightarrow> test_reject_cr_in_body B b tx = Some True"
  by (simp add: test_reject_cr_in_body_def builder Let_def, rule refused) (simp_all add: evaluate Let_def)

theorem test_reject_empty_body_passes:
  "buffer_ok B \<Longrightarrow> length (b_buf b) = 2664 \<Longrightarrow> test_reject_empty_body B b tx = Some True"
  by (simp add: test_reject_empty_body_def builder Let_def, rule refused) (simp_all add: evaluate Let_def)

theorem test_reject_oversized_body_passes:
  "buffer_ok B \<Longrightarrow> length (b_buf b) = 2664 \<Longrightarrow> test_reject_oversized_body B b tx = Some True"
  by (simp add: test_reject_oversized_body_def builder Let_def, rule refused) (simp_all add: evaluate Let_def)

theorem test_reject_truncated_challenge_passes:
  "buffer_ok B \<Longrightarrow> length (b_buf b) = 2664 \<Longrightarrow> test_reject_truncated_challenge B b tx = Some True"
  by (simp add: test_reject_truncated_challenge_def builder Let_def, rule refused) (simp_all add: evaluate)

theorem test_reject_trailing_bytes_passes:
  "buffer_ok B \<Longrightarrow> length (b_buf b) = 2664 \<Longrightarrow> test_reject_trailing_bytes B b tx = Some True"
  by (simp add: test_reject_trailing_bytes_def builder Let_def, rule refused) (simp_all add: trailing_byte)

theorem test_reject_multiple_attachments_passes:
  "buffer_ok B \<Longrightarrow> length (b_buf b) = 2664 \<Longrightarrow> test_reject_multiple_attachments B b tx = Some True"
  by (simp add: test_reject_multiple_attachments_def builder Let_def, rule refused)
    (simp_all add: bad_attachment parse_attachment_def)

theorem test_reject_truncated_attachment_hash_passes:
  "buffer_ok B \<Longrightarrow> length (b_buf b) = 2664 \<Longrightarrow> test_reject_truncated_attachment_hash B b tx = Some True"
  by (simp add: test_reject_truncated_attachment_hash_def builder Let_def, rule refused)
    (simp_all add: bad_attachment parse_attachment_def parse_text_def encode_text_def ascii_def printable_def)

theorem test_reject_payload_over_max_passes:
  "length (b_buf b) = 2664 \<Longrightarrow> test_reject_payload_over_max B b tx = Some True"
  by (simp add: test_reject_payload_over_max_def builder transaction_deserialize_def)

text \<open>The whole list, for every contents of the stack.\<close>

theorem parser_tests_pass:
  assumes "buffer_ok B" and "length (b_buf b) = MAX_TX_LEN + 64" and "length out = MAX_TX_LEN"
  shows "parser_tests B b tx out = replicate 14 (Some True)"
  using assms
  by (simp add: parser_tests_def test_parse_valid_passes test_parse_with_attachment_passes test_round_trip_passes
      test_body_max_length_accepted_passes test_reject_empty_from_passes test_reject_control_char_in_subject_passes
      test_reject_cr_in_body_passes test_reject_empty_body_passes test_reject_oversized_body_passes
      test_reject_truncated_challenge_passes test_reject_trailing_bytes_passes test_reject_multiple_attachments_passes
      test_reject_truncated_attachment_hash_passes test_reject_payload_over_max_passes eval_nat_numeral)

theorem test_tx_utils_passes: "test_tx_utils = Some True"
proof -
  have "transaction_utils_check_encoding (Some good_ascii) 6 = Some True"
    "transaction_utils_check_encoding (Some bad_ascii) 6 = Some False"
    by (simp_all add: check_encoding_is_ascii good_ascii_def bad_ascii_def)
  moreover have "transaction_utils_format_memo (Some good_ascii) 6 (Some (zeros MAX_MEMO_LEN)) (of_nat MAX_MEMO_LEN) =
      Some (True, good_ascii @ [0] @ zeros 458)"
    using format_memo_spec [of 6 good_ascii 465 "zeros 465"] by (simp add: good_ascii_def)
  moreover have "strcmp_eq (good_ascii @ [0] @ zeros 458) (literal ''Hello!'') = Some True"
    by (simp add: good_ascii_def literal_def ascii_def)
  moreover have "transaction_utils_format_memo (Some good_ascii) 6 (Some dst) 6 = Some (False, dst)" for dst
    by (simp add: transaction_utils_format_memo_def)
  ultimately show ?thesis by (simp add: test_tx_utils_def)
qed

end
