(* ===== verification/Spec2Isabelle.thy ===== *)
theory Spec2Isabelle
  imports Session Signing_Dialogue Serialize Tx_Utils Swap_Session Unit_Tests
begin

text \<open>
  \<^bold>\<open>HardMail, a Ledger application that signs emails.\<close>

  The host sends an email in chunks; the device parses it, shows every field, and signs the
  SHA-256 of the payload when the user approves. This development models the C sources under
  \<^verbatim>\<open>src/\<close> of the repository, in the configuration the Makefile builds (touch devices with NBGL, no
  \<^verbatim>\<open>HAVE_SWAP\<close>), and beside it the code for calls from the exchange application that \<^verbatim>\<open>HAVE_SWAP\<close>
  switches on. It proves what the README promises of them, and where that promise stops.

  \<^bold>\<open>How the code is modelled.\<close> Objects in memory are byte lists of their declared size, pointers
  into the payload are offsets, and every read and write goes through a bounds check that gives
  \<open>None\<close>; so \<open>f x = Some y\<close> says that the C function stays inside its objects and computes \<open>y\<close>.
  Machine integers are words of their width. The globals, the static display buffers, the page on
  the screen and the responses sent so far are the record \<open>app_state\<close>, passed explicitly. The
  Ledger SDK is not part of the repository: its functions are the arguments \<open>k\<close> of the definitions,
  and \<open>sdk_ok k\<close> is what the application relies on (sizes of results, the documented behaviour of
  the buffer functions, of \<open>format_hex\<close>, of the APDU parser and of the TLV library). Nothing is
  assumed about the cryptography but the sizes of its results. \<open>ref_sdk\<close> is an instance on which
  these hypotheses hold, for evaluation; the witnesses of the theorems use it.

  \<^bold>\<open>The theories\<close>, in the order of the calls:

  \<^item> \<open>Prelude\<close>: memory, numbers as bytes, strings, runs of a step function, and the interfaces
    \<open>safe_system\<close> and \<open>guarded_system\<close> of state machines with an invariant and \<open>forward_simulation\<close> of
    state machines that refine a specification. \<open>C_Strings\<close>: the functions of \<^verbatim>\<open>string.h\<close>.
  \<^item> \<open>Ledger_Sdk\<close>: the SDK as parameters, its contracts, and the instances.
  \<^item> \<open>App_Types\<close>: \<^verbatim>\<open>types.h\<close>, \<^verbatim>\<open>constants.h\<close>, \<^verbatim>\<open>sw.h\<close>, \<^verbatim>\<open>globals.h\<close>, \<^verbatim>\<open>transaction/tx_types.h\<close>.
  \<^item> \<open>Email_Format\<close>: the wire format as a specification, and the interface \<open>wire_codec\<close>.
  \<^item> \<open>Deserialize\<close>, \<open>Serialize\<close>: \<^verbatim>\<open>transaction/deserialize.c\<close> and \<^verbatim>\<open>serialize.c\<close>. The parser refines
    the grammar on every input, accepts exactly the format, and is inverse to the serializer.
  \<^item> \<open>Tx_Utils\<close>: the helpers of \<^verbatim>\<open>transaction/utils.c\<close>.
  \<^item> \<open>Tokens\<close>: \<^verbatim>\<open>token/token_db.c\<close> and \<^verbatim>\<open>token/dynamic_token_info.c\<close>, as \<open>token_source\<close>s combined by
    \<open>token_overlay\<close>.
  \<^item> \<open>App_State\<close>: the state of the running application, and what a review shows.
  \<^item> \<open>Transaction_Ui\<close>, \<open>Address_Ui\<close>, \<open>Menu\<close>: \<^verbatim>\<open>ui/nbgl_display_transaction.c\<close>, \<^verbatim>\<open>address.c\<close> and
    \<^verbatim>\<open>ui/nbgl_display_address.c\<close>, \<^verbatim>\<open>ui/menu_nbgl.c\<close>. The review of a message shows all of it, and
    different messages show different reviews; the settings page shows the settings that are stored.
  \<^item> \<open>Send_Response\<close>: \<^verbatim>\<open>helper/send_reponse.c\<close> and \<^verbatim>\<open>ui/action/validate.c\<close>.
  \<^item> \<open>Get_Handlers\<close>, \<open>Sign_Tx\<close>, \<open>Provide_Token_Info\<close>: the handlers of \<^verbatim>\<open>handler/\<close>. Every handler ends
    in an \<open>outcome\<close>: one response, or a review that is consistent with the context.
  \<^item> \<open>Dispatcher\<close>, \<open>App_Main\<close>: \<^verbatim>\<open>apdu/dispatcher.c\<close>, with the table of commands it implements, and
    \<^verbatim>\<open>app_main.c\<close>; the main loop as a step function
    over commands and touches in any order, shown to be a \<open>safe_system\<close> and, for a host that waits
    for answers, a \<open>guarded_system\<close>.
  \<^item> \<open>Signing_Dialogue\<close>: the abstract specification of the application, a state machine that is idle
    or reviews one message, as an inductive relation labelled with the responses; the main loop is
    shown to refine it, and every signature in the history of a run is traced to the approval that
    sent it.
  \<^item> \<open>Swap_Sdk\<close>, \<open>Swap_Validation\<close>, \<open>Swap_Queries\<close>, \<open>Swap_Sign\<close>, \<open>Swap_Main\<close>, \<open>Swap_Session\<close>: calls from the
    exchange application. The SDK's exchange functions as parameters with the contract \<open>swap_ok\<close>;
    \<^verbatim>\<open>swap/handle_swap_sign_transaction.c\<close> with the specification \<open>keeps_promise\<close> that the check
    implements exactly; \<^verbatim>\<open>swap/handle_check_address.c\<close> and \<^verbatim>\<open>swap/handle_get_printable_amount.c\<close>; the
    parts of \<^verbatim>\<open>handler/sign_tx.c\<close> under \<^verbatim>\<open>HAVE_SWAP\<close>; the dispatcher and the main loop of that build,
    which outside an exchange simulate the ones of the other build step by step; and a whole
    exchange, from the parameters to the signature, as a \<open>guarded_system\<close> and a \<open>safe_system\<close>. A call
    that does not return (\<open>send_swap_error_simple\<close>, \<open>os_sched_exit\<close>) is a value of \<open>swap_end\<close>. The
    code under \<^verbatim>\<open>HAVE_SWAP\<close> does not compile as it stands: it reads two members of the transaction
    that \<open>email_t\<close> does not have, which are parameters of the model.
  \<^item> \<open>Session\<close>: signing sessions from the host's side, by induction over the chunks.
  \<^item> \<open>Unit_Tests\<close>: the tests of \<^verbatim>\<open>unit-tests/\<close> as functions that run on the model, each shown to pass. They
    tie the definitions to inputs and verdicts that were written down independently of them.
  \<^item> this theory: the properties of the whole application.

  \<^bold>\<open>What is shown.\<close> With a host that sends no command while a review is open, what is signed is what
  is shown: a review shows exactly one message, in full, its approval signs the hash of exactly
  that message, no other step uses the signing key, and equal reviews mean equal payloads. The whole
  application refines a dialogue of two phases, and every signature it ever sent answers an approval. A
  session works for every way of cutting a message into chunks. For arbitrary hosts that send
  well-formed paths the application never leaves its objects and answers every command once.
  Two theorems show that the assumption on the host is needed: a command that arrives while a
  review is open can replace or clear the digest under the review. A third shows that a refused
  path is not forgotten and reaches the signature; no other run leaves an object, however the host
  behaves. A stream of chunks fills the payload buffer and nothing beyond it. Commands are refused
  as a table of instructions and parameters says, without any other effect. The settings page
  shows what is stored, except on the very first start, and the second setting is switched on only
  through its warning. In an exchange, whatever commands and touches happen, a signature means
  that amount, fee and destination are the agreed ones, and it is the last thing the application
  sends; a message sent in full ends the application, with the signature exactly when the agreement
  is kept; the application never leaves its objects; and outside an exchange the build with exchange
  support behaves like the one without.

  \<^bold>\<open>Bounds.\<close> No fuel is used: the loops of the code recurse over an index with a measure. A session
  has at most 16 chunks of at most 255 bytes, the limits of the dispatcher and of an APDU.

  \<^bold>\<open>Not modelled.\<close> The pixels of NBGL pages, the titles of the pages that ask for an answer, and icons; log output; what the
  SDK does around a call from the exchange application (finding the function to call, setting
  \<open>G_called_from_swap\<close>, leaving with the response); the runner of the unit tests; the fuzzer, which
  names members of the transaction that do not exist; the tests in Python, which drive an emulator.
\<close>

section \<open>A session from start to signature\<close>

text \<open>The states of a session started on a device, for evaluation: after the start, a session with
  the sample message ends in its review.\<close>

lemma sample_start:
  obtains s0 where "app_start ref_sdk (boot_state default_nvm) = Some s0" and "state_wf s0" and "\<not> exited s0"
    and "screen s0 \<noteq> Page_review" and "sent s0 = []" and "path_inv s0"
  using app_start_ok [of ref_sdk default_nvm] by (auto simp: path_inv_def)

lemma sample_session:
  assumes "state_wf s0" and "\<not> exited s0" and "1 \<le> length pd" and "length pd \<le> 255"
  shows "\<exists>s p n. run (step ref_sdk) s0 (map Apdu (sample_raws False pd)) = Some s \<and>
     session s CONFIRM_TRANSACTION p n (encode_email sample_email) \<and>
     screen s = Page_review \<and> shown s = email_pairs sample_email \<and> consistent ref_sdk s \<and>
     length (sent s) = length (sent s0) + 2 \<and>
     (\<forall>path. path_request pd = Some path \<longrightarrow> unat n \<le> MAX_BIP32_PATH \<and> take (unat n) p = path) \<and>
     n = hd pd \<and>
     (screen s0 \<noteq> Page_review \<longrightarrow>
        guarded_run sequential (step ref_sdk) s0 (map Apdu (sample_raws False pd)) = Some s)"
proof -
  from assms(3) have "pd \<noteq> []" by auto
  moreover have "length (encode_email sample_email) \<le> 2600" by (simp add: length_sample_email)
  moreover have "fst (cx_hash_sha256 (sdk_crypto ref_sdk) (encode_email sample_email) 32) = 32" by simp
  ultimately obtain s p n where "run (step ref_sdk) s0 (map Apdu (sample_raws False pd)) = Some s"
    "session s CONFIRM_TRANSACTION p n (encode_email sample_email)"
    "screen s = Page_review" "shown s = email_pairs sample_email" "consistent ref_sdk s"
    "sent s = sent s0 @ sw_answer (if path_request pd = None then SWO_WRONG_DATA_LENGTH else SWO_SUCCESS)
       # replicate (length sample_chunks - 1) (sw_answer SWO_SUCCESS)"
    "\<forall>path. path_request pd = Some path \<longrightarrow> unat n \<le> MAX_BIP32_PATH \<and> take (unat n) p = path" "n = hd pd"
    "screen s0 \<noteq> Page_review \<longrightarrow> guarded_run sequential (step ref_sdk) s0 (map Apdu (sample_raws False pd)) = Some s"
    using session_run [OF ref_sdk_ok ref_sends assms(1,2) sample_delivered [OF assms(3,4)] assms(4)
        sample_chunks_ok(2) wf_sample_email sample_chunks_ok(1)] by blast
  then show ?thesis
    by (intro exI [of _ s] exI [of _ p] exI [of _ n]) (simp add: sample_chunks_def)
qed

text \<open>The review of the sample message on a device that was just started.\<close>

lemma sample_review:
  assumes "path_request pd = Some path" and "length pd \<le> 255"
  obtains s0 s where "app_start ref_sdk (boot_state default_nvm) = Some s0"
    and "guarded_run sequential (step ref_sdk) s0 (map Apdu (sample_raws False pd)) = Some s"
    and "state_wf s" and "\<not> exited s" and "screen s = Page_review" and "shown s = email_pairs sample_email"
    and "unat (bip32_path_len (G_context s)) \<le> MAX_BIP32_PATH" and "length (sent s) = 2"
proof -
  obtain s0 where s0: "app_start ref_sdk (boot_state default_nvm) = Some s0" "state_wf s0" "\<not> exited s0"
    "screen s0 \<noteq> Page_review" "sent s0 = []" by (rule sample_start)
  have pd: "1 \<le> length pd" using assms(1) by (cases pd) (simp_all add: path_request_def)
  from sample_session [OF s0(2,3) pd assms(2)] s0 assms(1) that show thesis
    by (auto simp: session_def)
qed

lemma sample_path_length: "length sample_path \<le> 255"
  by (simp add: sample_path_def)

lemmas sample_path_review = sample_review [OF sample_path_request sample_path_length]

text \<open>C1. Clear signing. Let the host wait for the answer to each review before it sends the next
  command. Then, in every state the application can reach, a review on the screen shows exactly
  the fields of one well-formed message, and the approval of the user answers with the signature,
  under the path of the session, over the SHA-256 of the encoding of that message: what is signed
  is what is shown. (A session whose
  first command was refused can leave a longer path length behind; the bound on it is assumed.)\<close>

theorem clear_signing:
  assumes "sdk_ok k" and "app_start k (boot_state nvm) = Some s0"
    and "guarded_run sequential (step k) s0 es = Some s"
    and "screen s = Page_review" and "\<not> exited s"
    and "unat (bip32_path_len (G_context s)) \<le> MAX_BIP32_PATH"
  shows "\<exists>e s'. wf_email e \<and> shown s = email_pairs e \<and> step k s (User_choice True) = Some s' \<and>
     sent s' = sent s @ [sign_answer k (signing_path (G_context s))
                           (snd (cx_hash_sha256 (sdk_crypto k) (encode_email e) 32))]"
proof -
  have "state_wf s0" "screen s0 \<noteq> Page_review" using app_start_ok [of k nvm] assms(2) by auto
  then have "review_inv k s0" by (simp add: review_inv_def)
  from dialogue.run_inv [OF assms(1) this assms(3)] have wf: "state_wf s" and c: "consistent k s"
    using assms(4) by (simp_all add: review_inv_def)
  moreover have "path_ok s" using assms(6) by (simp add: path_ok_def)
  ultimately show ?thesis
    using approve_step [OF assms(1) wf _ assms(4,5)] unfolding consistent_def by metis
qed

theorem clear_signing_witness:
  "\<exists>s0 s s'. app_start ref_sdk (boot_state default_nvm) = Some s0 \<and>
     guarded_run sequential (step ref_sdk) s0 (map Apdu (sample_raws False sample_path)) = Some s \<and>
     shown s = email_pairs sample_email \<and> step ref_sdk s (User_choice True) = Some s' \<and>
     length (sent s') = 3"
proof -
  obtain s0 s where s: "app_start ref_sdk (boot_state default_nvm) = Some s0"
    "guarded_run sequential (step ref_sdk) s0 (map Apdu (sample_raws False sample_path)) = Some s"
    "screen s = Page_review" "\<not> exited s" "unat (bip32_path_len (G_context s)) \<le> MAX_BIP32_PATH"
    "shown s = email_pairs sample_email" "length (sent s) = 2" by (rule sample_path_review)
  from clear_signing [OF ref_sdk_ok s(1-5)] s show ?thesis by auto
qed

text \<open>C2. Every signature was approved. In any run with a host that waits for the answer to a review,
  each response ever sent that is not one of the plain answers (no data, version, name, key with
  chain code) was sent by an approval: at that event, with exactly the earlier responses sent, the
  screen showed the review of a well-formed message, in full, and the response is the signature
  over the digest of that message. Nothing else the host or the user does makes the application
  send a signature.\<close>

theorem every_signature_was_approved:
  assumes "sdk_ok k" and "app_start k (boot_state nvm) = Some s0"
    and "guarded_run sequential (step k) s0 es = Some s"
    and "i < length (sent s)" and "\<not> plain (sent s ! i)"
  shows "\<exists>e before after t. es = before @ User_choice True # after \<and>
     guarded_run sequential (step k) s0 before = Some t \<and> length (sent t) = i \<and>
     screen t = Page_review \<and> wf_email e \<and> shown t = email_pairs e \<and>
     sent s ! i = sign_answer k (signing_path (G_context t)) (snd (cx_hash_sha256 (sdk_crypto k) (encode_email e) 32))"
  using signature_history [OF assms(3,1) phase_start [OF assms(2)] assms(4,5)] unfolding message_digest_def .

theorem every_signature_was_approved_witness:
  "\<exists>s0 s (t :: app_state). app_start ref_sdk (boot_state default_nvm) = Some s0 \<and>
     guarded_run sequential (step ref_sdk) s0 (map Apdu (sample_raws False sample_path) @ [User_choice True]) = Some s \<and>
     length (resp_data (sent s ! 2)) = 66 \<and> screen t = Page_review \<and> length (sent t) = 2"
proof -
  obtain s0 s where s: "app_start ref_sdk (boot_state default_nvm) = Some s0"
    "guarded_run sequential (step ref_sdk) s0 (map Apdu (sample_raws False sample_path)) = Some s"
    "state_wf s" "\<not> exited s" "screen s = Page_review" "unat (bip32_path_len (G_context s)) \<le> MAX_BIP32_PATH"
    "length (sent s) = 2" by (rule sample_path_review)
  then have "path_ok s" by (simp add: path_ok_def)
  from approve_step [OF ref_sdk_ok s(3) this s(5,4)] obtain s' where s': "step ref_sdk s (User_choice True) = Some s'"
    "sent s' = sent s @ [sign_answer ref_sdk (signing_path (G_context s)) (m_hash (tx_info (G_context s)))]" by blast
  have run: "guarded_run sequential (step ref_sdk) s0 (map Apdu (sample_raws False sample_path) @ [User_choice True]) = Some s'"
    using s(2) s'(1) by (simp add: guarded_run_append sequential_def)
  have "length (m_hash (tx_info (G_context s))) = 32" using s(3) by (simp add: state_wf_def context_wf_def)
  then have len: "length (resp_data (sent s' ! 2)) = 66"
    using s'(2) s(7) by (simp add: nth_append sign_answer_def ref_crypto_lib_def)
  then have "\<not> plain (sent s' ! 2)" "2 < length (sent s')" using s' s(7) by (simp_all add: plain_def)
  from every_signature_was_approved [OF ref_sdk_ok s(1) run this(2,1)] obtain t :: app_state where
    "screen t = Page_review" "length (sent t) = 2" by blast
  then show ?thesis using run s(1) len by (intro exI [of _ s0] exI [of _ s'] exI [of _ t]) simp
qed

text \<open>C3. Refinement: the application implements the abstract dialogue. For a host that waits for the
  answer to a review, the responses sent in any run are a trace of the specification
  \<open>dialogue_step\<close>, and the phase it ends in is the one the application is in: idle, or reviewing the
  message on the screen for the path of the session.\<close>

theorem application_refines_dialogue:
  assumes "sdk_ok k" and "app_start k (boot_state nvm) = Some s0"
    and "guarded_run sequential (step k) s0 es = Some s"
  shows "\<exists>p. spec_trace (dialogue_step k) Idle (sent s) p \<and>
     (if screen s = Page_review
      then \<exists>e. p = Reviewing e (signing_path (G_context s)) \<and> wf_email e \<and> shown s = email_pairs e \<and>
               payload s = encode_email e
      else p = Idle)"
  using refinement.run_simulates [OF assms(1) phase_start(1) [OF assms(2)] assms(3)] phase_start(2) [OF assms(2)]
  by (auto simp: phase_rel_def)

theorem application_refines_dialogue_witness:
  "\<exists>(s :: app_state) path. spec_trace (dialogue_step ref_sdk) Idle (sent s) (Reviewing sample_email path) \<and> length (sent s) = 2"
proof -
  obtain s0 s where s: "app_start ref_sdk (boot_state default_nvm) = Some s0"
    "guarded_run sequential (step ref_sdk) s0 (map Apdu (sample_raws False sample_path)) = Some s"
    "screen s = Page_review" "shown s = email_pairs sample_email" "length (sent s) = 2" by (rule sample_path_review)
  from application_refines_dialogue [OF ref_sdk_ok s(1,2)] s(3) obtain e path where
    e: "spec_trace (dialogue_step ref_sdk) Idle (sent s) (Reviewing e path)" "shown s = email_pairs e" by auto
  then have "e = sample_email" using s(4) by (intro email_pairs_inject) simp
  then show ?thesis using e(1) s(5) by auto
qed

text \<open>C4. The review pins the message: if two reviews, reached on the same or on different devices and
  whatever went before, show the same, then they are reviews of the same payload, byte for byte,
  and the digest that an approval signs is the same.\<close>

theorem review_pins_payload:
  assumes "sdk_ok k" and "app_start k (boot_state nvm1) = Some b1" and "app_start k (boot_state nvm2) = Some b2"
    and "guarded_run sequential (step k) b1 es1 = Some s1" and "guarded_run sequential (step k) b2 es2 = Some s2"
    and "screen s1 = Page_review" and "screen s2 = Page_review" and "shown s1 = shown s2"
  shows "payload s1 = payload s2 \<and> m_hash (tx_info (G_context s1)) = m_hash (tx_info (G_context s2))"
proof -
  have i: "review_inv k b1" "review_inv k b2"
    using app_start_ok [of k nvm1] app_start_ok [of k nvm2] assms(2,3) by (auto simp: review_inv_def)
  have "consistent k s1" "consistent k s2"
    using dialogue.run_inv [OF assms(1) i(1) assms(4)] dialogue.run_inv [OF assms(1) i(2) assms(5)] assms(6,7)
    by (simp_all add: review_inv_def)
  then show ?thesis using assms(8) email_pairs_inject unfolding consistent_def by metis
qed

theorem review_pins_payload_witness:
  "\<exists>s0 s1 s2. app_start ref_sdk (boot_state default_nvm) = Some s0 \<and>
     guarded_run sequential (step ref_sdk) s0 (map Apdu (sample_raws False sample_path)) = Some s1 \<and>
     guarded_run sequential (step ref_sdk) s0 (map Apdu (sample_raws False [1, 0, 0, 0, 7])) = Some s2 \<and>
     payload s1 = payload s2"
proof -
  have p: "path_request [1, 0, 0, 0, 7] = Some [7]"
    by (simp add: path_request_def MAX_BIP32_PATH_def be32_val_def)
  obtain s0 s1 where s1: "app_start ref_sdk (boot_state default_nvm) = Some s0"
    "guarded_run sequential (step ref_sdk) s0 (map Apdu (sample_raws False sample_path)) = Some s1"
    "screen s1 = Page_review" "shown s1 = email_pairs sample_email" by (rule sample_path_review)
  obtain s0' s2 where s2: "app_start ref_sdk (boot_state default_nvm) = Some s0'"
    "guarded_run sequential (step ref_sdk) s0' (map Apdu (sample_raws False [1, 0, 0, 0, 7])) = Some s2"
    "screen s2 = Page_review" "shown s2 = email_pairs sample_email" by (rule sample_review [OF p]) simp
  have "shown s1 = shown s2" using s1(4) s2(4) by simp
  from review_pins_payload [OF ref_sdk_ok s1(1) s2(1) s1(2) s2(2) s1(3) s2(3) this] s1 s2 show ?thesis by auto
qed

section \<open>Memory safety\<close>

text \<open>C7. Memory safety: from the start, for every sequence of commands (well formed or not, in any
  order and interleaving with the touches of the user) in which the paths that are sent are well
  formed, no step reads or writes outside an object, and every array and length of the state
  keeps its bounds.\<close>

theorem memory_safety:
  assumes "sdk_ok k" and "app_start k (boot_state nvm) = Some s0" and "list_all (event_fine k) es"
  shows "\<exists>s. run (step k) s0 es = Some s \<and> state_wf s \<and> unat (bip32_path_len (G_context s)) \<le> MAX_BIP32_PATH"
proof -
  have "path_inv s0" using app_start_ok [of k nvm] assms(2) by (auto simp: path_inv_def)
  from app.run_safe [OF assms(1) this assms(3)] show ?thesis by (auto simp: path_inv_def path_ok_def)
qed

theorem memory_safety_witness:
  "\<exists>s0 s. app_start ref_sdk (boot_state default_nvm) = Some s0 \<and>
     run (step ref_sdk) s0 [Apdu [], User_choice True, Touch_control 21 0 0, User_choice True, Touch_quit, Apdu []] = Some s"
proof -
  obtain s0 where s0: "app_start ref_sdk (boot_state default_nvm) = Some s0" by (rule sample_start)
  have "list_all (event_fine ref_sdk) [Apdu [], User_choice True, Touch_control 21 0 0, User_choice True, Touch_quit, Apdu []]"
    by (simp add: event_fine_def ref_parser_lib_def)
  then show ?thesis using memory_safety [OF ref_sdk_ok s0] s0 by blast
qed

text \<open>C13. The one step that can leave an object: in a state with well-formed arrays a step faults
  exactly when the user approves the review of an email while the length of the stored path is
  above the 10 elements of the path array, and every other step keeps the arrays well formed,
  whatever the host sends.\<close>

theorem only_approval_can_fault:
  assumes "sdk_ok k" and "state_wf s"
  shows "(step k s ev = None \<longleftrightarrow> ev = User_choice True \<and> screen s = Page_review \<and> \<not> exited s \<and>
            MAX_BIP32_PATH < unat (bip32_path_len (G_context s))) \<and>
         (\<forall>s'. step k s ev = Some s' \<longrightarrow> state_wf s')"
proof -
  consider (apdu) raw where "ev = Apdu raw" | (gone) "exited s"
    | (approve) "ev = User_choice True" "screen s = Page_review" "\<not> exited s"
    | (user) "\<forall>raw. ev \<noteq> Apdu raw" "screen s = Page_review \<longrightarrow> ev \<noteq> User_choice True" by blast
  then show ?thesis
  proof cases
    case apdu
    then show ?thesis using apdu_step [OF assms, of raw] by auto
  next
    case gone
    then show ?thesis using assms(2) by (simp add: step_def)
  next
    case approve
    then show ?thesis
      using approve_fault [OF assms(2) _ approve(2,3), of k] approve_step [OF assms _ approve(2,3)]
      by (cases "path_ok s") (auto simp: path_ok_def)
  next
    case user
    then show ?thesis using user_step [OF assms(2), of ev k] by auto
  qed
qed

theorem only_approval_can_fault_witness:
  "step ref_sdk (boot_state default_nvm) (User_choice True) \<noteq> None"
  using only_approval_can_fault [of ref_sdk "boot_state default_nvm" "User_choice True"] by simp

text \<open>C14. Arrays and responses, for any host: whatever commands and touches a run consists of,
  well-formed paths or not, waiting for answers or not, either the run goes through, and then every
  array has its declared size, the payload length and the signature length are inside their
  arrays, the ticker of the token slot is terminated, and no response that was sent has more than
  99 bytes of data; or the run stops at the approval of a review, with a path length above 10, and
  a command before it carried a malformed path. No other run stops: in particular no chunk, of any
  size and in any number, is written past the payload buffer.\<close>

theorem arrays_keep_their_size:
  assumes "sdk_ok k" and "app_start k (boot_state nvm) = Some s0"
  shows "case run (step k) s0 es of
       Some s \<Rightarrow> context_wf (G_context s) \<and> dynamic_wf (g_dynamic_token_info s) \<and> statics_wf s \<and>
         (\<forall>r \<in> set (sent s). length (resp_data r) \<le> 99)
     | None \<Rightarrow> (\<exists>before after t. es = before @ User_choice True # after \<and> run (step k) s0 before = Some t \<and>
         screen t = Page_review \<and> MAX_BIP32_PATH < unat (bip32_path_len (G_context t)) \<and>
         (\<exists>raw. Apdu raw \<in> set before \<and> \<not> event_fine k (Apdu raw)))"
proof -
  have s0: "state_wf s0" "path_inv s0" "responses_fit s0"
    using app_start_ok [of k nvm] assms(2) by (auto simp: path_inv_def responses_fit_def)
  show ?thesis
  proof (cases "run (step k) s0 es")
    case (Some s)
    from run_keeps_wf [OF assms(1) s0(1) Some] run_responses_fit [OF assms(1) s0(1,3) Some] Some show ?thesis
      by (simp add: state_wf_def responses_fit_def)
  next
    case None
    from run_fault [OF None] obtain before ev after t where
      t: "es = before @ ev # after" "run (step k) s0 before = Some t" "step k t ev = None" by blast
    have f: "ev = User_choice True" "screen t = Page_review" "\<not> path_ok t"
      using step_fault [OF assms(1) run_keeps_wf [OF assms(1) s0(1) t(2)] t(3)] by simp_all
    have "\<not> list_all (event_fine k) before"
      using app.run_safe [OF assms(1) s0(2)] t(2) f(3) by (fastforce simp: path_inv_def)
    then obtain e where e: "e \<in> set before" "\<not> event_fine k e" by (auto simp: list_all_iff)
    from e(2) obtain raw where "e = Apdu raw" by (cases e) (simp_all add: event_fine_def)
    with t(1,2) f e None show ?thesis by (fastforce simp: path_ok_def)
  qed
qed

theorem arrays_keep_their_size_witness:
  "\<exists>s0 s. app_start ref_sdk (boot_state default_nvm) = Some s0 \<and>
     run (step ref_sdk) s0 [Apdu [0xE0, 0x05, 0, 0, 1, 11], Touch_quit] = Some s \<and>
     length (raw_tx (tx_info (G_context s))) = 2600"
proof -
  obtain s0 where s0: "app_start ref_sdk (boot_state default_nvm) = Some s0" by (rule sample_start)
  note sizes = arrays_keep_their_size [OF ref_sdk_ok s0, of "[Apdu [0xE0, 0x05, 0, 0, 1, 11], Touch_quit]"]
  show ?thesis
  proof (cases "run (step ref_sdk) s0 [Apdu [0xE0, 0x05, 0, 0, 1, 11], Touch_quit]")
    case None
    then show ?thesis using sizes by (auto simp: Cons_eq_append_conv)
  next
    case (Some s)
    then show ?thesis using sizes s0 by (simp add: context_wf_def)
  qed
qed

section \<open>Sessions\<close>

text \<open>C5. A session end to end, from any state of the application: the host sends a path and a message
  cut into chunks in any way (up to 16 chunks of up to 255 bytes); every chunk but the last is
  answered 9000, the last opens the review of the message, and the approval answers with the
  signature under that path over the SHA-256 of the whole message, the refusal with 6985. The
  result does not depend on how the message was cut.\<close>

theorem session_end_to_end:
  assumes "sdk_ok k" and "sends_succeed k" and "state_wf s" and "\<not> exited s"
    and "delivered k raws (sign_commands False pd chunks)" and "length pd \<le> 255" and "chunks_fit 1 chunks"
    and "path_request pd = Some path"
    and "wf_email e" and "concat chunks = encode_email e" and "length (encode_email e) \<le> MAX_TRANSACTION_LEN"
    and "fst (cx_hash_sha256 (sdk_crypto k) (encode_email e) 32) = 32"
  shows "\<exists>s1 s2 s3. run (step k) s (map Apdu raws) = Some s1 \<and>
     screen s1 = Page_review \<and> shown s1 = email_pairs e \<and>
     sent s1 = sent s @ replicate (length chunks) (sw_answer SWO_SUCCESS) \<and>
     step k s1 (User_choice True) = Some s2 \<and>
     sent s2 = sent s1 @ [sign_answer k path (snd (cx_hash_sha256 (sdk_crypto k) (encode_email e) 32))] \<and>
     step k s1 (User_choice False) = Some s3 \<and> sent s3 = sent s1 @ [sw_answer SWO_CONDITIONS_NOT_SATISFIED]"
proof -
  from session_run [OF assms(1-7,9-12)] assms(8) obtain s1 p n where
    run: "run (step k) s (map Apdu raws) = Some s1" and s: "session s1 CONFIRM_TRANSACTION p n (encode_email e)"
    and sc: "screen s1 = Page_review" "shown s1 = email_pairs e" "consistent k s1"
    and snt: "sent s1 = sent s @ sw_answer SWO_SUCCESS # replicate (length chunks - 1) (sw_answer SWO_SUCCESS)"
    and path: "unat n \<le> MAX_BIP32_PATH" "take (unat n) p = path" by auto
  from s have st: "state_wf s1" "\<not> exited s1" "path_ok s1" "signing_path (G_context s1) = path"
    "payload s1 = encode_email e"
    using path by (simp_all add: session_def path_ok_def signing_path_def)
  have h: "m_hash (tx_info (G_context s1)) = snd (cx_hash_sha256 (sdk_crypto k) (encode_email e) 32)"
    using sc(3) st(5) by (simp add: consistent_def)
  obtain c cs where "chunks = c # cs" using assms(7) by (cases chunks) (auto simp: chunks_fit_def)
  then have "sent s1 = sent s @ replicate (length chunks) (sw_answer SWO_SUCCESS)" using snt by simp
  then show ?thesis
    using run sc approve_step [OF assms(1) st(1,3) sc(1) st(2)] reject_step [OF st(1) sc(1) st(2), of k] st(4) h
    by auto
qed

theorem session_end_to_end_witness:
  "\<exists>s1 s2. run (step ref_sdk) (boot_state default_nvm) (map Apdu (sample_raws False sample_path)) = Some s1 \<and>
     shown s1 = email_pairs sample_email \<and> step ref_sdk s1 (User_choice True) = Some s2 \<and>
     sent s2 = sent s1 @ [sign_answer ref_sdk [0x8000002C]
       (snd (cx_hash_sha256 (sdk_crypto ref_sdk) (encode_email sample_email) 32))]"
proof -
  have pd: "1 \<le> length sample_path" by (simp add: sample_path_def)
  have fits: "length (encode_email sample_email) \<le> 2600" by (simp add: length_sample_email)
  have st: "state_wf (boot_state default_nvm)" "\<not> exited (boot_state default_nvm)"
    "fst (cx_hash_sha256 (sdk_crypto ref_sdk) (encode_email sample_email) 32) = 32" by simp_all
  show ?thesis
    using session_end_to_end [OF ref_sdk_ok ref_sends st(1,2) sample_delivered [OF pd sample_path_length] sample_path_length
        sample_chunks_ok(2) sample_path_request wf_sample_email sample_chunks_ok(1) fits st(3)]
    by blast
qed

text \<open>C23. A refused path is not forgotten: when the first command carries a path that claims more
  than 10 elements, it is answered 6A87, but the host may go on; the chunks that follow are
  accepted, the review opens, and the approval reads past the end of the path array. (Only the
  answer to the first command tells the two sessions apart.)\<close>

theorem refused_path_reaches_the_signature:
  assumes "sdk_ok k" and "sends_succeed k" and "state_wf s" and "\<not> exited s"
    and "delivered k raws (sign_commands False pd chunks)" and "length pd \<le> 255" and "chunks_fit 1 chunks"
    and "pd \<noteq> []" and "MAX_BIP32_PATH < unat (hd pd)"
    and "wf_email e" and "concat chunks = encode_email e" and "length (encode_email e) \<le> MAX_TRANSACTION_LEN"
    and "fst (cx_hash_sha256 (sdk_crypto k) (encode_email e) 32) = 32"
  shows "\<exists>s1. run (step k) s (map Apdu raws) = Some s1 \<and> screen s1 = Page_review \<and> shown s1 = email_pairs e \<and>
     sent s1 = sent s @ sw_answer SWO_WRONG_DATA_LENGTH # replicate (length chunks - 1) (sw_answer SWO_SUCCESS) \<and>
     step k s1 (User_choice True) = None"
proof -
  have "path_request pd = None" using assms(8,9) by (cases pd) (simp_all add: path_request_def)
  with session_run [OF assms(1-7,10-13)] assms(8) obtain s1 p where
    r: "run (step k) s (map Apdu raws) = Some s1" "session s1 CONFIRM_TRANSACTION p (hd pd) (encode_email e)"
    "screen s1 = Page_review" "shown s1 = email_pairs e"
    "sent s1 = sent s @ sw_answer SWO_WRONG_DATA_LENGTH # replicate (length chunks - 1) (sw_answer SWO_SUCCESS)"
    by auto
  moreover have "step k s1 (User_choice True) = None"
    using r(2,3) assms(9) by (intro approve_fault) (simp_all add: session_def path_ok_def)
  ultimately show ?thesis by blast
qed

theorem refused_path_reaches_the_signature_witness:
  "\<exists>s1. run (step ref_sdk) (boot_state default_nvm) (map Apdu (sample_raws False [11])) = Some s1 \<and>
     screen s1 = Page_review \<and> step ref_sdk s1 (User_choice True) = None"
proof -
  have pd: "1 \<le> length [11 :: u8]" "length [11 :: u8] \<le> 255" "[11 :: u8] \<noteq> []" "MAX_BIP32_PATH < unat (hd [11 :: u8])"
    by (simp_all add: MAX_BIP32_PATH_def)
  have fits: "length (encode_email sample_email) \<le> 2600" by (simp add: length_sample_email)
  have st: "state_wf (boot_state default_nvm)" "\<not> exited (boot_state default_nvm)"
    "fst (cx_hash_sha256 (sdk_crypto ref_sdk) (encode_email sample_email) 32) = 32" by simp_all
  show ?thesis
    using refused_path_reaches_the_signature [OF ref_sdk_ok ref_sends st(1,2) sample_delivered [OF pd(1,2)] pd(2)
        sample_chunks_ok(2) pd(3,4) wf_sample_email sample_chunks_ok(1) fits st(3)]
    by blast
qed

section \<open>What a host that does not wait can do\<close>

text \<open>C22. Without the assumption that the host waits, a review does not bind the signature: while the
  review of any message is on the screen, the host sends a SIGN TOKEN TX session with another
  message. The session is refused (6985), the review stays on the screen and shows what it showed,
  but the digest is now that of the other message, and the approval of the user signs it.\<close>

theorem review_can_be_swapped:
  assumes "sdk_ok k" and "sends_succeed k" and "state_wf s" and "\<not> exited s" and "screen s = Page_review"
    and "delivered k raws (sign_commands True pd chunks)" and "length pd \<le> 255" and "chunks_fit 1 chunks"
    and "path_request pd = Some path"
    and "wf_email e" and "concat chunks = encode_email e" and "length (encode_email e) \<le> MAX_TRANSACTION_LEN"
    and "fst (cx_hash_sha256 (sdk_crypto k) (encode_email e) 32) = 32"
  shows "\<exists>s1 s2. run (step k) s (map Apdu raws) = Some s1 \<and> screen s1 = Page_review \<and> shown s1 = shown s \<and>
     step k s1 (User_choice True) = Some s2 \<and>
     sent s2 = sent s1 @ [sign_answer k path (snd (cx_hash_sha256 (sdk_crypto k) (encode_email e) 32))]"
proof -
  from token_session_run [OF assms(1-4,6-8,10-13,9)] obtain s1 where
    r: "run (step k) s (map Apdu raws) = Some s1" "state_wf s1" "\<not> exited s1" "path_ok s1" "screen s1 = screen s"
    "shown s1 = shown s" "signing_path (G_context s1) = path"
    "m_hash (tx_info (G_context s1)) = snd (cx_hash_sha256 (sdk_crypto k) (encode_email e) 32)" by blast
  from r(5) assms(5) have sc: "screen s1 = Page_review" by simp
  show ?thesis using r sc approve_step [OF assms(1) r(2,4) sc r(3)] by auto
qed

lemma other_email_ok:
  "wf_email other_email" "length (encode_email other_email) = 39" "email_pairs other_email \<noteq> email_pairs sample_email"
proof -
  show "wf_email other_email"
    using wf_sample_email by (simp add: other_email_def wf_email_def text_field_wf_def ascii_def body_char_def printable_def)
  show "length (encode_email other_email) = 39"
    by (simp add: length_encode_email other_email_def sample_email_def ascii_def length_encode_attachment)
  show "email_pairs other_email \<noteq> email_pairs sample_email"
    by (auto dest!: email_pairs_inject simp: other_email_def sample_email_def ascii_def)
qed

theorem review_can_be_swapped_witness:
  "\<exists>s0 s s1 s2. app_start ref_sdk (boot_state default_nvm) = Some s0 \<and>
     run (step ref_sdk) s0 (map Apdu (sample_raws False sample_path)) = Some s \<and>
     run (step ref_sdk) s (map Apdu (map ref_frame (sign_commands True sample_path [encode_email other_email]))) = Some s1 \<and>
     shown s1 = email_pairs sample_email \<and> step ref_sdk s1 (User_choice True) = Some s2 \<and>
     sent s2 = sent s1 @ [sign_answer ref_sdk [0x8000002C]
       (snd (cx_hash_sha256 (sdk_crypto ref_sdk) (encode_email other_email) 32))]"
proof -
  obtain s0 where s0: "app_start ref_sdk (boot_state default_nvm) = Some s0" "state_wf s0" "\<not> exited s0"
    by (rule sample_start)
  have pd: "1 \<le> length sample_path" by (simp add: sample_path_def)
  from sample_session [OF s0(2,3) pd sample_path_length] obtain s where
    s: "run (step ref_sdk) s0 (map Apdu (sample_raws False sample_path)) = Some s" "state_wf s" "\<not> exited s"
    "screen s = Page_review" "shown s = email_pairs sample_email" by (auto simp: session_def)
  let ?cs = "[encode_email other_email]"
  have d: "delivered ref_sdk (map ref_frame (sign_commands True sample_path ?cs)) (sign_commands True sample_path ?cs)"
    using pd sample_path_length other_email_ok(2) by (simp add: delivered_def sign_commands_def ref_frame_parsed)
  have c: "chunks_fit 1 ?cs" "concat ?cs = encode_email other_email" "length (encode_email other_email) \<le> 2600"
    "fst (cx_hash_sha256 (sdk_crypto ref_sdk) (encode_email other_email) 32) = 32"
    using other_email_ok(2) by (simp_all add: chunks_fit_def)
  from review_can_be_swapped [OF ref_sdk_ok ref_sends s(2-4) d sample_path_length c(1) sample_path_request
      other_email_ok(1) c(2-4)] s0(1) s(1,5) show ?thesis by auto
qed

text \<open>C24. The start of a new session clears the digest but not the screen: a host that sends the first
  command of a session while a review is open leaves the review as it is, and the approval then
  signs 32 zero bytes under the path of the new session.\<close>

theorem approval_after_reset_signs_zeros:
  assumes "sdk_ok k" and "sends_succeed k" and "state_wf s" and "\<not> exited s" and "screen s = Page_review"
    and "apdu_parser (sdk_parser k) raw = Some (sign_command tok 0 True pd)" and "length pd \<le> 255"
    and "path_request pd = Some path"
  shows "\<exists>s1 s2. step k s (Apdu raw) = Some s1 \<and> screen s1 = Page_review \<and> shown s1 = shown s \<and>
     step k s1 (User_choice True) = Some s2 \<and> sent s2 = sent s1 @ [sign_answer k path (zeros 32)]"
proof -
  from first_session [OF assms(1-4,6,7)] assms(5,8) obtain s1 p n where
    r: "step k s (Apdu raw) = Some s1" "session s1 (if tok then CONFIRM_TOKEN_TRANSACTION else CONFIRM_TRANSACTION) p n []"
    "m_hash (tx_info (G_context s1)) = zeros 32" "screen s1 = Page_review" "shown s1 = shown s"
    "unat n \<le> MAX_BIP32_PATH" "take (unat n) p = path" by auto
  then have st: "state_wf s1" "path_ok s1" "\<not> exited s1" "signing_path (G_context s1) = path"
    by (simp_all add: session_def path_ok_def signing_path_def)
  show ?thesis using r approve_step [OF assms(1) st(1,2) r(4) st(3)] st(4) by auto
qed

theorem approval_after_reset_signs_zeros_witness:
  "\<exists>s s1 s2. shown s = email_pairs sample_email \<and>
     step ref_sdk s (Apdu (ref_frame (sign_command False 0 True sample_path))) = Some s1 \<and>
     shown s1 = email_pairs sample_email \<and> step ref_sdk s1 (User_choice True) = Some s2 \<and>
     sent s2 = sent s1 @ [sign_answer ref_sdk [0x8000002C] (zeros 32)]"
proof -
  obtain s0 s where s: "state_wf s" "\<not> exited s" "screen s = Page_review" "shown s = email_pairs sample_email"
    by (rule sample_path_review)
  have "apdu_parser (sdk_parser ref_sdk) (ref_frame (sign_command False 0 True sample_path)) =
      Some (sign_command False 0 True sample_path)"
    using sample_path_length by (simp add: ref_frame_parsed sample_path_def)
  from approval_after_reset_signs_zeros [OF ref_sdk_ok ref_sends s(1-3) this sample_path_length sample_path_request] s(4)
  show ?thesis by auto
qed

section \<open>Answers\<close>

text \<open>C11. Every command is answered once: a received APDU makes the application send exactly one
  response and leaves the page as it is, or it opens a review, whose answer will be the response;
  a review of an email that it opens shows the message in the context.\<close>

theorem one_answer_per_command:
  assumes "sdk_ok k" and "state_wf s" and "\<not> exited s"
  shows "\<exists>s'. step k s (Apdu raw) = Some s' \<and> state_wf s' \<and> N_storage s' = N_storage s \<and>
     ((\<exists>resp. sent s' = sent s @ [resp]) \<and> screen s' = screen s \<or>
      sent s' = sent s \<and> (screen s' = Page_address \<or> screen s' = Page_review \<and> consistent k s'))"
proof -
  from loop_body_ok [OF assms(1,2), of raw] obtain s' where "app_loop_body k raw s = Some s'"
    and o: "outcome k s (s'\<lparr>exited := exited s\<rparr>)" by blast
  moreover have "consistent k (s'\<lparr>exited := exited s\<rparr>) = consistent k s'"
    by (simp add: consistent_def payload_def)
  ultimately show ?thesis using assms(3) by (auto simp: step_def outcome_def answered_def)
qed

theorem one_answer_per_command_witness:
  "\<exists>s'. step ref_sdk (boot_state default_nvm) (Apdu [0xE0, 0x03, 0, 0]) = Some s' \<and> state_wf s'"
  using one_answer_per_command [of ref_sdk "boot_state default_nvm" "[0xE0, 0x03, 0, 0]"] by auto

text \<open>C21. The refusal of a review signs nothing: the answer is 6985 without data, the context is no
  longer in the parsed state, the screen shows the rejection, and the next touch leads back to
  the home page.\<close>

theorem refusal_sends_no_signature:
  assumes "state_wf s" and "screen s = Page_review" and "\<not> exited s"
  shows "\<exists>s1 s2. step k s (User_choice False) = Some s1 \<and>
     sent s1 = sent s @ [\<lparr>resp_data = [], resp_sw = SWO_CONDITIONS_NOT_SATISFIED\<rparr>] \<and>
     gstate (G_context s1) = STATE_NONE \<and> screen s1 = Page_status STATUS_TYPE_TRANSACTION_REJECTED \<and>
     step k s1 Status_done = Some s2 \<and> screen s2 = Page_home INIT_HOME_PAGE \<and> sent s2 = sent s1"
proof -
  from reject_step [OF assms, of k] obtain s1 where
    r: "step k s (User_choice False) = Some s1" "state_wf s1" "sent s1 = sent s @ [sw_answer SWO_CONDITIONS_NOT_SATISFIED]"
    "screen s1 = Page_status STATUS_TYPE_TRANSACTION_REJECTED" "G_context s1 = (G_context s)\<lparr>gstate := STATE_NONE\<rparr>"
    by blast
  have "exited s1 = exited s"
    using r(1) assms by (auto simp: step_def review_choice_transaction_def validate_transaction_reject)
  then show ?thesis using r menu_main_frame [OF r(2), of k] state_wf_menu assms(3)
    by (auto simp: step_def sw_answer_def)
qed

theorem refusal_sends_no_signature_witness:
  "\<exists>s s1. shown s = email_pairs sample_email \<and> step ref_sdk s (User_choice False) = Some s1 \<and>
     sent s1 = sent s @ [\<lparr>resp_data = [], resp_sw = SWO_CONDITIONS_NOT_SATISFIED\<rparr>]"
proof -
  obtain s0 s where s: "state_wf s" "\<not> exited s" "screen s = Page_review" "shown s = email_pairs sample_email"
    by (rule sample_path_review)
  from refusal_sends_no_signature [OF s(1,3,2), of ref_sdk] s(4) show ?thesis by auto
qed

section \<open>Where the signing key is used\<close>

lemma with_signer_simps [simp]:
  "sdk_buffer (with_signer f k) = sdk_buffer k" "sdk_format (with_signer f k) = sdk_format k"
  "sdk_io (with_signer f k) = sdk_io k" "sdk_parser (with_signer f k) = sdk_parser k"
  "sdk_tlv (with_signer f k) = sdk_tlv k" "FIRST_USER_TOKEN (with_signer f k) = FIRST_USER_TOKEN k"
  "cx_hash_sha256 (sdk_crypto (with_signer f k)) = cx_hash_sha256 (sdk_crypto k)"
  "cx_keccak_256_hash (sdk_crypto (with_signer f k)) = cx_keccak_256_hash (sdk_crypto k)"
  "bip32_derive_get_pubkey_256 (sdk_crypto (with_signer f k)) = bip32_derive_get_pubkey_256 (sdk_crypto k)"
  "cx_edwards_compress_point_no_throw (sdk_crypto (with_signer f k)) = cx_edwards_compress_point_no_throw (sdk_crypto k)"
  by (simp_all add: with_signer_def)

lemma sender_signer [simp]:
  "io_send_response_pointer (with_signer f k) = io_send_response_pointer k" "io_send_sw (with_signer f k) = io_send_sw k"
  by (simp_all add: fun_eq_iff io_send_sw_def io_send_response_pointer_def)

lemmas signer_free = with_signer_simps sender_signer

lemma pubkey_signer [simp]: "helper_send_response_pubkey (with_signer f k) = helper_send_response_pubkey k"
  by (intro ext) (unfold helper_send_response_pubkey_def signer_free, rule refl)

lemma display_signer [simp]:
  "display_fields (with_signer f k) = display_fields k"
  "display_attachment (with_signer f k) = display_attachment k"
proof -
  show "display_fields (with_signer f k) = display_fields k"
    by (rule ext) (unfold display_fields_def signer_free, rule refl)
  show "display_attachment (with_signer f k) = display_attachment k"
    by (rule ext) (unfold display_attachment_def signer_free, rule refl)
qed

lemma display_transaction_signer [simp]: "ui_display_transaction (with_signer f k) = ui_display_transaction k"
  by (intro ext) (unfold ui_display_transaction_def signer_free display_signer, rule refl)

lemma display_address_signer [simp]: "ui_display_address (with_signer f k) = ui_display_address k"
  by (intro ext) (unfold ui_display_address_def address_from_pubkey_def signer_free, rule refl)

lemma tuid_signer [simp]: "parse_dynamic_token_tuid (with_signer f k) = parse_dynamic_token_tuid k"
proof -
  have "handle_tuid_token_address (with_signer f k) = handle_tuid_token_address k"
    by (intro ext) (unfold handle_tuid_token_address_def signer_free, rule refl)
  then have "TUID_TLV_TAGS (with_signer f k) = TUID_TLV_TAGS k" by (simp only: TUID_TLV_TAGS_def)
  then show ?thesis by (intro ext) (simp only: parse_dynamic_token_tuid_def signer_free)
qed

lemma read_path_signer [simp]: "read_path (with_signer f k) = read_path k"
  by (intro ext) (unfold read_path_def signer_free, rule refl)

lemma public_key_signer [simp]: "handler_get_public_key (with_signer f k) = handler_get_public_key k"
  by (intro ext)
     (unfold handler_get_public_key_def signer_free read_path_signer pubkey_signer display_address_signer, rule refl)

lemma token_signer [simp]: "handler_provide_token_info (with_signer f k) = handler_provide_token_info k"
  by (intro ext) (unfold handler_provide_token_info_def signer_free tuid_signer, rule refl)

lemma sign_signer [simp]: "handler_sign_tx (with_signer f k) = handler_sign_tx k"
  by (intro ext)
     (unfold handler_sign_tx_def init_transaction_context_def accumulate_transaction_data_def process_transaction_def
       signer_free read_path_signer display_transaction_signer, rule refl)

lemma dispatcher_signer [simp]: "apdu_dispatcher (with_signer f k) = apdu_dispatcher k"
  by (simp add: fun_eq_iff dispatcher_refines split: handled.split)

text \<open>C8. No signature without the approval of a review: every step other than the approval of the
  review of an email gives the same result whatever the signing function is, so it does not use
  the signing key at all. The user interface for refusing, the other pages, and every command of
  the host, are among these steps.\<close>

theorem only_approval_signs:
  assumes "\<not> (ev = User_choice True \<and> screen s = Page_review)"
  shows "step (with_signer f k) s ev = step k s ev"
proof -
  have v: "validate_pubkey (with_signer f k) c = validate_pubkey k c" for c
    by (simp add: fun_eq_iff validate_pubkey_def)
  have "review_choice_transaction (with_signer f k) False s = review_choice_transaction k False s"
    by (simp add: review_choice_transaction_def validate_transaction_def)
  moreover have "review_choice_address (with_signer f k) c s = review_choice_address k c s" for c
    by (simp add: review_choice_address_def v)
  moreover have "controls_callback (with_signer f k) = controls_callback k"
    by (intro ext) (unfold controls_callback_def DUMMY_SWITCH_1_TOKEN_def DUMMY_SWITCH_2_TOKEN_def signer_free, rule refl)
  moreover have "ui_menu_main (with_signer f k) = ui_menu_main k"
    by (intro ext) (unfold ui_menu_main_def DUMMY_SWITCH_1_TOKEN_def DUMMY_SWITCH_2_TOKEN_def signer_free, rule refl)
  moreover have "app_loop_body (with_signer f k) = app_loop_body k"
    by (intro ext) (unfold app_loop_body_def signer_free dispatcher_signer, rule refl)
  ultimately show ?thesis using assms
    by (cases ev) (auto simp: step_def split: page.split)
qed

theorem only_approval_signs_witness:
  "step (with_signer (\<lambda>c p n md h hlen cap. (1, [], 0)) ref_sdk) (boot_state default_nvm) (User_choice False) =
   step ref_sdk (boot_state default_nvm) (User_choice False)"
  using only_approval_signs [of "User_choice False" "boot_state default_nvm"] by simp

section \<open>Settings\<close>

text \<open>C31. The settings page tells the truth. Start the application on a device whose settings were
  initialized before, or are off, and let any commands and touches happen: in every state the
  settings page shows, for each switch, the value of the setting in non-volatile memory that a
  touch of that switch changes, beside the version and the developer.\<close>

theorem settings_page_current:
  assumes "sdk_ok k" and "app_start k (boot_state nvm) = Some s0"
    and "initialized nvm = 1 \<or> dummy1_allowed nvm = 0 \<and> dummy2_allowed nvm = 0"
    and "run (step k) s0 es = Some s"
  shows "settings_page s =
     ([(Some ''Dummy 1'', Some (''Allow dummy 1'' @ [CHR 0x0A] @ ''in transactions''),
        dummy1_allowed (N_storage s), FIRST_USER_TOKEN k),
       (Some ''Dummy 2'', Some (''Allow dummy 2'' @ [CHR 0x0A] @ ''in transactions''),
        dummy2_allowed (N_storage s), FIRST_USER_TOKEN k + 1)],
      [(''Version'', ''2.3.2''), (''Developer'', ''Ledger'')])"
proof -
  have sw: "length (switches (boot_state nvm)) = 2" "N_storage (boot_state nvm) = nvm" by (simp_all add: boot_state_def)
  have "settings_current k s0"
    using assms(2,3) sw(2) by (auto simp: app_start_def ui_menu_main_ok [OF sw(1)] settings_current_def menu_switches_def Let_def)
  moreover have "state_wf s0" using app_start_ok [of k nvm] assms(2) by auto
  ultimately have "settings_current k s" using run_current [OF assms(1) _ _ assms(4)] by blast
  then show ?thesis
    by (simp add: settings_current_def settings_page_def menu_switches_def contents_def infoList_def INFO_TYPES_def INFO_CONTENTS_def
        DUMMY_SWITCH_1_TOKEN_def DUMMY_SWITCH_2_TOKEN_def)
qed

theorem settings_page_current_witness:
  "\<exists>s0 s. app_start ref_sdk (boot_state default_nvm) = Some s0 \<and>
     run (step ref_sdk) s0 [Touch_control 20 0 0] = Some s \<and> dummy1_allowed (N_storage s) = 1 \<and>
     map (\<lambda>w. fst (snd (snd w))) (fst (settings_page s)) = [1, 0]"
proof -
  have sw: "length (switches (boot_state default_nvm)) = 2" "N_storage (boot_state default_nvm) = default_nvm" "initialized default_nvm = 1"
    by (simp_all add: boot_state_def default_nvm_def)
  obtain s0 where s0: "app_start ref_sdk (boot_state default_nvm) = Some s0" "screen s0 = Page_home INIT_HOME_PAGE" "\<not> exited s0"
    "length (switches s0) = 2" "N_storage s0 = default_nvm"
    using sw(2,3) by (simp add: app_start_def ui_menu_main_ok [OF sw(1)] Let_def)
  have "20 = DUMMY_SWITCH_1_TOKEN ref_sdk" by (simp add: DUMMY_SWITCH_1_TOKEN_def ref_sdk_def)
  with s0(2-5) obtain s where "step ref_sdk s0 (Touch_control 20 0 0) = Some s" "dummy1_allowed (N_storage s) = 1"
    "dummy2_allowed (N_storage s) = 0"
    by (simp add: step_def controls_callback_def set_switch_ok lnot_def Let_def default_nvm_def)
  with s0(1) have run: "app_start ref_sdk (boot_state default_nvm) = Some s0" "run (step ref_sdk) s0 [Touch_control 20 0 0] = Some s"
    "dummy1_allowed (N_storage s) = 1" "dummy2_allowed (N_storage s) = 0" by simp_all
  have "initialized default_nvm = 1 \<or> dummy1_allowed default_nvm = 0 \<and> dummy2_allowed default_nvm = 0"
    by (simp add: default_nvm_def)
  from settings_page_current [OF ref_sdk_ok run(1) this run(2)] run show ?thesis by auto
qed

text \<open>The assumption is needed: the home page is drawn before the settings are initialized, so that on
  other devices it shows the values that were in memory while both settings are off.\<close>

theorem first_start_shows_old_settings:
  assumes "initialized nvm \<noteq> 1"
  shows "\<exists>s0. app_start k (boot_state nvm) = Some s0 \<and> N_storage s0 = \<lparr>dummy1_allowed = 0, dummy2_allowed = 0, initialized = 1\<rparr> \<and>
     map switch_initState (switches s0) = [dummy1_allowed nvm, dummy2_allowed nvm]"
proof -
  have sw: "length (switches (boot_state nvm)) = 2" "N_storage (boot_state nvm) = nvm" by (simp_all add: boot_state_def)
  show ?thesis using assms sw(2) by (simp add: app_start_def ui_menu_main_ok [OF sw(1)] menu_switches_def Let_def)
qed

text \<open>C40. The second setting is switched on only by confirming the warning. Start with the setting
  off, and let any commands and touches happen: if it is on at the end, then the home page was open
  at some time with the setting off, the user touched its switch, that opened the warning, the
  warning stayed on the screen through whatever happened, and the user confirmed it. The
  confirmation is what sets it, and the refusal at that moment would have left all settings as
  they were. No other touch, no command of the host and no answer to a review does it.\<close>

theorem dummy2_needs_confirmation:
  assumes "sdk_ok k" and "app_start k (boot_state nvm) = Some s0" and "dummy2_allowed (N_storage s0) = 0"
    and "run (step k) s0 es = Some s" and "dummy2_allowed (N_storage s) \<noteq> 0"
  shows "\<exists>before i p between after q s1 s2 s3 s4 s5.
     es = before @ Touch_control (DUMMY_SWITCH_2_TOKEN k) i p # between @ User_choice True # after \<and>
     run (step k) s0 before = Some s1 \<and> screen s1 = Page_home q \<and> dummy2_allowed (N_storage s1) = 0 \<and>
     step k s1 (Touch_control (DUMMY_SWITCH_2_TOKEN k) i p) = Some s2 \<and> N_storage s2 = N_storage s1 \<and>
     run (step k) s2 between = Some s3 \<and> stays (step k) (\<lambda>t. screen t = Page_warning) s2 between \<and>
     dummy2_allowed (N_storage s3) = 0 \<and>
     step k s3 (User_choice True) = Some s4 \<and> dummy2_allowed (N_storage s4) = 1 \<and>
     step k s3 (User_choice False) = Some s5 \<and> N_storage s5 = N_storage s3"
proof -
  have s0: "state_wf s0" "screen s0 \<noteq> Page_warning" using app_start_ok [of k nvm] assms(2) by auto
  note wf = run_keeps_wf [OF assms(1)] and second = second_setting_step [OF assms(1)]
  from run_last_entry [OF assms(4), of "\<lambda>t. dummy2_allowed (N_storage t) \<noteq> 0"] assms(3,5)
  obtain es1 e after s3 s4 where on: "es = es1 @ e # after" "run (step k) s0 es1 = Some s3"
    "dummy2_allowed (N_storage s3) = 0" "step k s3 e = Some s4" "dummy2_allowed (N_storage s4) \<noteq> 0" by auto
  have wf3: "state_wf s3" by (rule wf [OF s0(1) on(2)])
  have e: "e = User_choice True" "screen s3 = Page_warning" "\<not> exited s3" using second(1) [OF wf3 on(4,3,5)] by simp_all
  from run_last_entry [OF on(2), of "\<lambda>t. screen t = Page_warning"] e(2) s0(2)
  obtain before ev between s1 s2 where w: "es1 = before @ ev # between" "run (step k) s0 before = Some s1"
    "screen s1 \<noteq> Page_warning" "step k s1 ev = Some s2" "screen s2 = Page_warning"
    "run (step k) s2 between = Some s3" "stays (step k) (\<lambda>t. screen t = Page_warning) s2 between" by blast
  from second(2) [OF wf [OF s0(1) w(2)] w(4,5,3)] obtain i p q where
    t: "ev = Touch_control (DUMMY_SWITCH_2_TOKEN k) i p" "screen s1 = Page_home q"
      "dummy2_allowed (N_storage s1) = 0" "N_storage s2 = N_storage s1" by blast
  have sw: "length (switches s3) = 2" using wf3 by (simp add: state_wf_def statics_wf_def)
  have "dummy2_allowed (N_storage s4) = 1" using warning_answered(1) [OF sw on(3)] on(4) e by (auto simp: step_def)
  moreover obtain s5 where "step k s3 (User_choice False) = Some s5" "N_storage s5 = N_storage s3"
    using warning_answered(2) [OF sw on(3)] e by (auto simp: step_def)
  moreover have "es = before @ Touch_control (DUMMY_SWITCH_2_TOKEN k) i p # between @ User_choice True # after"
    using on(1) w(1) t(1) e(1) by simp
  ultimately show ?thesis using w(2,6,7) t(2-4) w(4) [unfolded t(1)] on(3) on(4) [unfolded e(1)]
    by (intro exI conjI)
qed

theorem dummy2_needs_confirmation_witness:
  "\<exists>s0 s s3. app_start ref_sdk (boot_state default_nvm) = Some s0 \<and>
     run (step ref_sdk) s0 [Touch_control 21 0 0, User_choice True] = Some s \<and> dummy2_allowed (N_storage s) = 1 \<and>
     step ref_sdk s0 (Touch_control 21 0 0) = Some s3 \<and> dummy2_allowed (N_storage s3) = 0"
proof -
  have sw: "length (switches (boot_state default_nvm)) = 2" "N_storage (boot_state default_nvm) = default_nvm"
    "initialized default_nvm = 1" "dummy2_allowed default_nvm = 0"
    by (simp_all add: boot_state_def default_nvm_def)
  obtain s0 where s0: "app_start ref_sdk (boot_state default_nvm) = Some s0" "screen s0 = Page_home INIT_HOME_PAGE" "\<not> exited s0"
    "length (switches s0) = 2" "dummy2_allowed (N_storage s0) = 0"
    using sw by (simp add: app_start_def ui_menu_main_ok [OF sw(1)] Let_def)
  have tok: "DUMMY_SWITCH_2_TOKEN ref_sdk = 21" by (simp add: DUMMY_SWITCH_2_TOKEN_def ref_sdk_def)
  obtain s3 where s3: "step ref_sdk s0 (Touch_control 21 0 0) = Some s3" "screen s3 = Page_warning"
    "N_storage s3 = N_storage s0" "length (switches s3) = 2" "\<not> exited s3"
    using s0(2-5) tok by (simp add: step_def controls_callback_def DUMMY_SWITCH_1_TOKEN_def DUMMY_SWITCH_2_TOKEN_def)
  from warning_answered(1) [OF s3(4)] s3 s0(5) obtain s where s: "step ref_sdk s3 (User_choice True) = Some s"
    "dummy2_allowed (N_storage s) = 1" by (auto simp: step_def)
  have run: "run (step ref_sdk) s0 [Touch_control 21 0 0, User_choice True] = Some s" using s3(1) s(1) by simp
  from s(2) have "dummy2_allowed (N_storage s) \<noteq> 0" by simp
  from dummy2_needs_confirmation [OF ref_sdk_ok s0(1,5) run this] run s(2) s0(1,5) s3(1,3) show ?thesis by auto
qed

section \<open>Commands that are refused\<close>

text \<open>C35. Commands are checked as the table says, and a refused command changes nothing else. Bytes
  that are no command are answered 6A87. A command with the wrong class is answered 6E00, with an
  instruction that is not in the table 6D00, with a pair of parameters that is not listed for its
  instruction 6A86, and without data where data is needed 6A87, in this order; apart from the
  response, and from the end of the main loop when the response cannot be sent, the state is the
  old one: context, token, settings, buffers and screen. Every other command reaches the handler
  of its instruction, with its data, its chunk index and its flags, and the main loop ends exactly
  when the handler says so. The table is the one of \<^verbatim>\<open>dispatcher.h\<close>; \<^verbatim>\<open>APP_SPECIFICATION.md\<close> also lists
  chunk indices up to \<open>FF\<close>, and a session in one command with P1 = P2 = 0, and those are refused.\<close>

theorem malformed_commands_change_nothing:
  assumes "\<not> exited s"
  shows "case apdu_parser (sdk_parser k) raw of
       None \<Rightarrow> step k s (Apdu raw) = Some (s\<lparr>sent := sent s @ [\<lparr>resp_data = [], resp_sw = 0x6A87\<rparr>]\<rparr>)
     | Some cmd \<Rightarrow> (case refusal cmd of
           Some sw \<Rightarrow> (let answers = sent s @ [\<lparr>resp_data = [], resp_sw = sw\<rparr>] in
             step k s (Apdu raw) = Some (s\<lparr>sent := answers, exited := io_status (sdk_io k) answers < 0\<rparr>))
         | None \<Rightarrow> \<exists>handler. step k s (Apdu raw) =
               (case handler of None \<Rightarrow> None | Some (r, s') \<Rightarrow> Some (if r < 0 then s'\<lparr>exited := True\<rparr> else s')) \<and>
             (cmd_ins cmd = 0x03 \<and> handler = handler_get_version k s \<or>
              cmd_ins cmd = 0x04 \<and> handler = handler_get_app_name k s \<or>
              (\<exists>d b. cmd_data cmd = Some d \<and> b = \<lparr>buf_ptr = d, buf_size = unat (cmd_lc cmd), buf_offset = 0\<rparr> \<and>
                (cmd_ins cmd = 0x05 \<and> handler = handler_get_public_key k b (cmd_p1 cmd = 1) s \<or>
                 cmd_ins cmd = 0x06 \<and> handler = handler_sign_tx k b (cmd_p1 cmd) (cmd_p2 cmd = 0x80) False s \<or>
                 cmd_ins cmd = 0x07 \<and> handler = handler_sign_tx k b (cmd_p1 cmd) (cmd_p2 cmd = 0x80) True s \<or>
                 cmd_ins cmd = 0x22 \<and> handler = handler_provide_token_info k b s))))"
proof (cases "apdu_parser (sdk_parser k) raw")
  case None
  then show ?thesis using assms by (simp add: step_def app_loop_body_def io_send_sw_eq)
next
  case (Some cmd)
  have still: "s\<lparr>sent := x, exited := False\<rparr> = s\<lparr>sent := x\<rparr>" for x
    using assms by simp
  have loop: "step k s (Apdu raw) = (case apdu_dispatcher k cmd s of None \<Rightarrow> None
      | Some (r, s') \<Rightarrow> Some (if r < 0 then s'\<lparr>exited := True\<rparr> else s'))"
    using Some assms by (simp add: step_def app_loop_body_def split: option.split)
  show ?thesis
  proof (cases "refusal cmd")
    case None
    from dispatch_accepted [OF None] show ?thesis using Some None
      by (auto simp: loop dispatcher_refines command_buffer_def handler_get_version_def handler_get_app_name_def
          intro!: exI [of _ "apdu_dispatcher k cmd s"])
  next
    case (Some sw)
    from dispatch_refusal [OF Some] show ?thesis using \<open>apdu_parser (sdk_parser k) raw = Some cmd\<close> Some
      by (simp add: loop dispatcher_refines io_send_response_pointer_def Let_def still)
  qed
qed

text \<open>A public key with P1 = 2, and a chunk with index 17.\<close>

theorem malformed_commands_change_nothing_witness:
  "step ref_sdk (boot_state default_nvm) (Apdu [0xE0, 0x05, 2, 0, 1, 0]) =
     Some ((boot_state default_nvm)\<lparr>sent := [\<lparr>resp_data = [], resp_sw = 0x6A86\<rparr>]\<rparr>) \<and>
   step ref_sdk (boot_state default_nvm) (Apdu [0xE0, 0x06, 0x11, 0, 1, 0]) =
     Some ((boot_state default_nvm)\<lparr>sent := [\<lparr>resp_data = [], resp_sw = 0x6A86\<rparr>]\<rparr>)"
proof -
  have "\<not> exited (boot_state default_nvm)" by simp
  note refused = malformed_commands_change_nothing [OF this, of ref_sdk]
  have "(boot_state default_nvm)\<lparr>sent := x, exited := False\<rparr> = (boot_state default_nvm)\<lparr>sent := x\<rparr>" for x
    by (simp add: boot_state_def)
  then show ?thesis
    using refused [of "[0xE0, 0x05, 2, 0, 1, 0]"] refused [of "[0xE0, 0x06, 0x11, 0, 1, 0]"]
    by (simp add: ref_parser_lib_def refusal_def commands_def set_chunk_parameters ref_io_lib_def)
qed

section \<open>Sizes\<close>

text \<open>Every well-formed message without an attachment fits the payload buffer (at most 2526 of
  2600 bytes) and is accepted by the parser.\<close>

theorem messages_without_attachment_fit:
  assumes "buffer_ok B" and "wf_email e" and "e_attachment e = None"
  shows "length (encode_email e) \<le> 2526 \<and>
     (\<exists>b' tx'. transaction_deserialize B (payload_buffer (encode_email e)) tx t = Some (PARSING_OK, b', tx') \<and>
        email_view (encode_email e) tx' = e)"
proof -
  have l: "length (encode_email e) \<le> 2526" using length_encode_no_attachment [OF assms(2,3)] .
  then show ?thesis
    using deserialize_complete [OF assms(1), of "payload_buffer (encode_email e)" e tx t] assms(2) by auto
qed

theorem messages_without_attachment_fit_witness:
  "\<exists>b' tx'. transaction_deserialize ref_buffer_lib (payload_buffer (encode_email sample_email)) zero_email False =
     Some (PARSING_OK, b', tx') \<and> email_view (encode_email sample_email) tx' = sample_email"
  using messages_without_attachment_fit [of ref_buffer_lib sample_email zero_email False] wf_sample_email
  by (simp add: sample_email_def)

text \<open>The bounds of the fields are not the bound of the message: there is a message whose fields
  all respect their limits, with an attachment, whose encoding has 2627 bytes; the parser refuses
  it for its length, and it cannot be accumulated in the 2600 bytes of the payload.\<close>

theorem largest_message_refused:
  "wf_email largest_email \<and> length (encode_email largest_email) = 2627 \<and>
   transaction_deserialize B (payload_buffer (encode_email largest_email)) tx t =
     Some (WRONG_LENGTH_ERROR, payload_buffer (encode_email largest_email), tx)"
proof -
  have a: "printable 97" "body_char 97" by (simp_all add: body_char_def printable_def)
  have len: "length (encode_email largest_email) = 2627"
    by (simp add: length_encode_email length_encode_attachment largest_email_def)
  have "wf_email largest_email"
    using a by (simp add: largest_email_def wf_email_def text_field_wf_def wf_attachment_def list_all_length)
  moreover have "buf_size (payload_buffer (encode_email largest_email)) > 2600" using len by simp
  ultimately show ?thesis using len deserialize_too_long by blast
qed

section \<open>Start\<close>

text \<open>The start of the application: the home page is shown, nothing is sent, the context and the
  token slot are cleared, and the settings are kept when they were initialised before and set to
  off, marked as initialised, otherwise.\<close>

theorem start_state:
  "\<exists>s. app_start k (boot_state nvm) = Some s \<and> state_wf s \<and> screen s = Page_home INIT_HOME_PAGE \<and> sent s = [] \<and>
     G_context s = zero_context \<and> \<not> dt_received (g_dynamic_token_info s) \<and>
     N_storage s = (if initialized nvm = 1 then nvm else \<lparr>dummy1_allowed = 0, dummy2_allowed = 0, initialized = 1\<rparr>)"
proof -
  have sw: "length (switches (boot_state nvm)) = 2" "N_storage (boot_state nvm) = nvm" by (simp_all add: boot_state_def)
  show ?thesis using app_start_ok [of k nvm] ui_menu_main_ok [OF sw(1), of k] sw(2)
    by (auto simp: app_start_def Let_def init_dynamic_token_storage_def)
qed

end
